theory Spec2Isabelle
  imports Complex_Main "HOL-Library.AList"
begin


section \<open>Python values\<close>

text \<open>
  A Python \<open>str\<close> is a sequence of Unicode code points; \<open>len\<close> counts code points and a
  slice \<open>s[:n]\<close> is \<open>take n s\<close>.  Floats (clock readings, scores) are idealised as reals.
\<close>

type_synonym ustr = "nat list"

definition U :: "string \<Rightarrow> ustr" where
  "U s = map of_char s"

datatype py_error = IndexError | KeyError | TypeError | ValueError | AttributeError
  | UnicodeEncodeError | ServiceError ustr

datatype 'a outcome = Returns 'a | Raises py_error

datatype pyval = PyNone | PyBool bool | PyNum real | PyStr ustr
  | PyList "pyval list" | PyDict "(string \<times> pyval) list"

type_synonym pydict = "(string \<times> pyval) list"

text \<open>\<open>d.get(k, default)\<close> on a dict.\<close>

definition dict_get :: "pydict \<Rightarrow> string \<Rightarrow> pyval \<Rightarrow> pyval" where
  "dict_get d k dflt = (case map_of d k of None \<Rightarrow> dflt | Some v \<Rightarrow> v)"

text \<open>
  The code points for which \<open>str.isspace\<close> holds; \<open>str.strip()\<close>, \<open>str.split()\<close> and the
  regular-expression class \<open>\s\<close> all use this set.
\<close>

definition is_space :: "nat \<Rightarrow> bool" where
  "is_space c \<longleftrightarrow> (9 \<le> c \<and> c \<le> 13) \<or> (28 \<le> c \<and> c \<le> 32) \<or> c = 133 \<or> c = 160
     \<or> c = 5760 \<or> (8192 \<le> c \<and> c \<le> 8202) \<or> c = 8232 \<or> c = 8233 \<or> c = 8239
     \<or> c = 8287 \<or> c = 12288"

definition lstrip :: "ustr \<Rightarrow> ustr" where
  "lstrip s = dropWhile is_space s"

definition rstrip :: "ustr \<Rightarrow> ustr" where
  "rstrip s = rev (dropWhile is_space (rev s))"

definition strip :: "ustr \<Rightarrow> ustr" where
  "strip s = rstrip (lstrip s)"

text \<open>\<open>s.split()\<close>: the maximal runs of non-whitespace, in order.\<close>

fun split_acc :: "ustr \<Rightarrow> ustr \<Rightarrow> ustr list" where
  "split_acc cur [] = (if cur = [] then [] else [rev cur])"
| "split_acc cur (c # cs) =
     (if is_space c then (if cur = [] then split_acc [] cs else rev cur # split_acc [] cs)
      else split_acc (c # cur) cs)"

definition str_split :: "ustr \<Rightarrow> ustr list" where
  "str_split s = split_acc [] s"

text \<open>\<open>sep.join(parts)\<close>.\<close>

fun join :: "ustr \<Rightarrow> ustr list \<Rightarrow> ustr" where
  "join sep [] = []"
| "join sep [x] = x"
| "join sep (x # y # ys) = x @ sep @ join sep (y # ys)"

text \<open>
  \<open>s.encode()\<close>: the UTF-8 bytes of a string.  A surrogate code point (D800 to DFFF) has no
  UTF-8 encoding and makes the call raise UnicodeEncodeError.
\<close>

definition utf8_bytes :: "nat \<Rightarrow> nat list" where
  "utf8_bytes c =
     (if c < 0x80 then [c]
      else if c < 0x800 then [0xC0 + c div 0x40, 0x80 + c mod 0x40]
      else if c < 0x10000 then [0xE0 + c div 0x1000, 0x80 + c div 0x40 mod 0x40, 0x80 + c mod 0x40]
      else [0xF0 + c div 0x40000, 0x80 + c div 0x1000 mod 0x40, 0x80 + c div 0x40 mod 0x40,
            0x80 + c mod 0x40])"

definition str_encode :: "ustr \<Rightarrow> nat list outcome" where
  "str_encode s =
     (if \<exists>c\<in>set s. 0xD800 \<le> c \<and> c \<le> 0xDFFF then Raises UnicodeEncodeError
      else Returns (concat (map utf8_bytes s)))"

text \<open>
  Library functions the repository calls but does not define are parameters of the model:
  \<open>str.lower\<close> (Unicode case mapping), \<open>hashlib.md5(b).hexdigest()\<close> of a byte string, the
  text an f-string produces for a value that is not a \<open>str\<close>, and the \<open>json.dumps\<close>
  rendering of the status block of a fallback reply (from the reason, the message length and
  the number of cache entries), and the message \<open>str(e)\<close> of an exception that the
  interpreter or a library function raised.
\<close>

record pylib =
  str_lower :: "ustr \<Rightarrow> ustr"
  md5_hexdigest :: "nat list \<Rightarrow> ustr"
  format_value :: "pyval \<Rightarrow> ustr"
  status_json :: "ustr \<Rightarrow> nat \<Rightarrow> nat \<Rightarrow> ustr"
  exc_message :: "py_error \<Rightarrow> ustr"

definition py_format :: "pylib \<Rightarrow> pyval \<Rightarrow> ustr" where
  "py_format lib v = (case v of PyStr s \<Rightarrow> s | _ \<Rightarrow> format_value lib v)"

section \<open>backend\_cache.py: BackendCache\<close>

text \<open>
  \<open>self.cache\<close> is a Python dict, which keeps its keys in insertion order: assigning to a key
  that is present replaces the value in place, assigning to a new key appends it
  (\<open>AList.update\<close>), and \<open>del\<close> removes the key (\<open>AList.delete\<close>).  An entry is the dict
  \<open>{value, timestamp, ttl, original_message}\<close> that \<open>put\<close> builds.
\<close>

record entry =
  val :: pydict
  timestamp :: real
  ttl :: int
  original_message :: ustr

type_synonym cache_dict = "(ustr \<times> entry) list"

record backend_cache =
  max_entries :: int
  default_ttl :: int
  cache :: cache_dict

definition init_cache :: "int \<Rightarrow> int \<Rightarrow> backend_cache" where
  "init_cache mx dttl = \<lparr>max_entries = mx, default_ttl = dttl, cache = []\<rparr>"

definition normalize_key :: "pylib \<Rightarrow> ustr \<Rightarrow> ustr" where
  "normalize_key lib text =
     (if text = [] then []
      else filter (\<lambda>c. c \<noteq> 13) (map (\<lambda>c. if c = 10 then 32 else c) (strip (str_lower lib text))))"

text \<open>
  \<open>hashlib.md5(key_data.encode()).hexdigest()[:16]\<close>: the call raises when the key data
  cannot be encoded.
\<close>

definition generate_key :: "pylib \<Rightarrow> ustr \<Rightarrow> bool \<Rightarrow> ustr outcome" where
  "generate_key lib user_message has_pdf =
     (let normalized = normalize_key lib user_message;
          key_data = normalized @ U ''|pdf:'' @ (if has_pdf then U ''True'' else U ''False'')
      in case str_encode key_data of
           Raises e \<Rightarrow> Raises e
         | Returns data \<Rightarrow> Returns (take 16 (md5_hexdigest lib data)))"

definition expired :: "real \<Rightarrow> entry \<Rightarrow> bool" where
  "expired current_time e \<longleftrightarrow> current_time - timestamp e > of_int (ttl e)"

definition cleanup_expired :: "real \<Rightarrow> cache_dict \<Rightarrow> cache_dict" where
  "cleanup_expired current_time c =
     (let expired_keys = map fst (filter (\<lambda>(key, e). expired current_time e) c)
      in fold AList.delete expired_keys c)"

text \<open>
  The loop \<open>for i in range(entries_to_remove): key = sorted_items[i][0]; del self.cache[key]\<close>:
  the second argument is what is left of \<open>sorted_items\<close> from index \<open>i\<close> on.  Indexing past the
  end raises IndexError, deleting a missing key raises KeyError; the deletions made before
  that stay.
\<close>

fun remove_oldest :: "nat \<Rightarrow> cache_dict \<Rightarrow> cache_dict \<Rightarrow> unit outcome \<times> cache_dict" where
  "remove_oldest 0 sorted_items c = (Returns (), c)"
| "remove_oldest (Suc n) [] c = (Raises IndexError, c)"
| "remove_oldest (Suc n) (item # sorted_items) c =
     (if fst item \<in> fst ` set c then remove_oldest n sorted_items (AList.delete (fst item) c)
      else (Raises KeyError, c))"

definition enforce_size_limit :: "int \<Rightarrow> cache_dict \<Rightarrow> unit outcome \<times> cache_dict" where
  "enforce_size_limit mx c =
     (if int (length c) \<le> mx then (Returns (), c)
      else let sorted_items = sort_key (\<lambda>x. timestamp (snd x)) c;
               entries_to_remove = int (length c) - mx
           in remove_oldest (nat entries_to_remove) sorted_items c)"

text \<open>
  \<open>put\<close> reads the clock twice: \<open>now1\<close> is the entry's timestamp, \<open>now2\<close> the reading inside
  \<open>_cleanup_expired\<close>.  \<open>ttl or self.default_ttl\<close> takes the default for \<open>None\<close> and for 0.
\<close>

definition cached_response_of :: "pydict \<Rightarrow> pydict" where
  "cached_response_of response_data =
     [(''bot_response'', dict_get response_data ''bot_response'' (PyStr [])),
      (''translation_info'', dict_get response_data ''translation_info'' PyNone),
      (''explanation_result'', dict_get response_data ''explanation_result'' PyNone),
      (''final_approved'', dict_get response_data ''final_approved'' (PyBool True)),
      (''success'', dict_get response_data ''success'' (PyBool True))]"

definition cache_ttl_of :: "int \<Rightarrow> int option \<Rightarrow> int" where
  "cache_ttl_of dflt ttl_arg =
     (case ttl_arg of None \<Rightarrow> dflt
      | Some t \<Rightarrow> if t = 0 then dflt else t)"

definition put_entry :: "int \<Rightarrow> real \<Rightarrow> ustr \<Rightarrow> pydict \<Rightarrow> int option \<Rightarrow> entry" where
  "put_entry dflt now1 user_message response_data ttl_arg =
     \<lparr>val = cached_response_of response_data, timestamp = now1,
      ttl = cache_ttl_of dflt ttl_arg, original_message = take 100 user_message\<rparr>"

definition put_body ::
  "pylib \<Rightarrow> real \<Rightarrow> real \<Rightarrow> backend_cache \<Rightarrow> ustr \<Rightarrow> pydict \<Rightarrow> bool \<Rightarrow> int option
     \<Rightarrow> unit outcome \<times> backend_cache" where
  "put_body lib now1 now2 bc user_message response_data has_pdf ttl_arg =
     (case generate_key lib user_message has_pdf of
        Raises e \<Rightarrow> (Raises e, bc)
      | Returns key \<Rightarrow>
          let c1 = AList.update key
                     (put_entry (default_ttl bc) now1 user_message response_data ttl_arg) (cache bc);
              c2 = cleanup_expired now2 c1;
              (r, c3) = enforce_size_limit (max_entries bc) c2
          in (r, bc\<lparr>cache := c3\<rparr>))"

text \<open>\<open>try: ... except Exception\<close>: the failure is logged and \<open>put\<close> returns \<open>None\<close>.\<close>

definition put ::
  "pylib \<Rightarrow> real \<Rightarrow> real \<Rightarrow> backend_cache \<Rightarrow> ustr \<Rightarrow> pydict \<Rightarrow> bool \<Rightarrow> int option
     \<Rightarrow> unit outcome \<times> backend_cache" where
  "put lib now1 now2 bc user_message response_data has_pdf ttl_arg =
     (case put_body lib now1 now2 bc user_message response_data has_pdf ttl_arg of
        (Returns u, bc') \<Rightarrow> (Returns (), bc')
      | (Raises e, bc') \<Rightarrow> (Returns (), bc'))"

text \<open>
  The dict after the insertion under \<open>key\<close> and the expiry sweep of \<open>put\<close>, before the size
  limit.
\<close>

definition put_stage2 ::
  "real \<Rightarrow> real \<Rightarrow> backend_cache \<Rightarrow> ustr \<Rightarrow> ustr \<Rightarrow> pydict \<Rightarrow> int option \<Rightarrow> cache_dict" where
  "put_stage2 now1 now2 bc key m r t =
     cleanup_expired now2 (AList.update key (put_entry (default_ttl bc) now1 m r t) (cache bc))"

definition get_body ::
  "pylib \<Rightarrow> real \<Rightarrow> backend_cache \<Rightarrow> ustr \<Rightarrow> bool \<Rightarrow> pydict option outcome \<times> backend_cache" where
  "get_body lib current_time bc user_message has_pdf =
     (case generate_key lib user_message has_pdf of
        Raises e \<Rightarrow> (Raises e, bc)
      | Returns key \<Rightarrow>
          (case map_of (cache bc) key of
             None \<Rightarrow> (Returns None, bc)
           | Some e \<Rightarrow>
               if expired current_time e
               then (Returns None, bc\<lparr>cache := AList.delete key (cache bc)\<rparr>)
               else (Returns (Some (val e)), bc)))"

definition get ::
  "pylib \<Rightarrow> real \<Rightarrow> backend_cache \<Rightarrow> ustr \<Rightarrow> bool \<Rightarrow> pydict option outcome \<times> backend_cache" where
  "get lib current_time bc user_message has_pdf =
     (case get_body lib current_time bc user_message has_pdf of
        (Returns r, bc') \<Rightarrow> (Returns r, bc')
      | (Raises e, bc') \<Rightarrow> (Returns None, bc'))"

subsection \<open>Similarity lookup and fallback replies\<close>

definition jaccard :: "ustr set \<Rightarrow> ustr set \<Rightarrow> real" where
  "jaccard input_words cached_words =
     (if input_words \<union> cached_words = {} then 0
      else real (card (input_words \<inter> cached_words)) / real (card (input_words \<union> cached_words)))"

definition words_of :: "pylib \<Rightarrow> ustr \<Rightarrow> ustr set" where
  "words_of lib message = set (str_split (normalize_key lib message))"

text \<open>One iteration of the loop over \<open>self.cache.values()\<close>; the state is
  \<open>(best_match, best_score)\<close>.\<close>

definition similar_step ::
  "pylib \<Rightarrow> real \<Rightarrow> ustr set \<Rightarrow> pydict option \<times> real \<Rightarrow> entry \<Rightarrow> pydict option \<times> real" where
  "similar_step lib similarity_threshold input_words best e =
     (let cached_words = words_of lib (original_message e)
      in if cached_words = {} then best
         else let similarity = jaccard input_words cached_words
              in if similarity > snd best \<and> similarity \<ge> similarity_threshold
                 then (Some (val e), similarity) else best)"

definition find_similar_cached_response ::
  "pylib \<Rightarrow> backend_cache \<Rightarrow> ustr \<Rightarrow> real \<Rightarrow> pydict option" where
  "find_similar_cached_response lib bc user_message similarity_threshold =
     (let input_words = words_of lib user_message
      in fst (foldl (similar_step lib similarity_threshold input_words) (None, 0)
                (map snd (cache bc))))"

text \<open>
  The similarity of a query to a stored entry, and what the loop of
  \<open>_find_similar_cached_response\<close> knows after the entries in \<open>S\<close>.
\<close>

definition sim :: "pylib \<Rightarrow> ustr \<Rightarrow> entry \<Rightarrow> real" where
  "sim lib q e = jaccard (words_of lib q) (words_of lib (original_message e))"

definition similar_inv :: "pylib \<Rightarrow> real \<Rightarrow> ustr \<Rightarrow> entry set \<Rightarrow> pydict option \<times> real \<Rightarrow> bool" where
  "similar_inv lib th q S best \<longleftrightarrow>
     (case fst best of
        None \<Rightarrow> snd best = 0 \<and> (\<forall>e\<in>S. \<not> (sim lib q e > 0 \<and> sim lib q e \<ge> th))
      | Some v \<Rightarrow> (\<exists>e\<in>S. val e = v \<and> sim lib q e = snd best \<and> snd best \<ge> th \<and> snd best > 0)
                  \<and> (\<forall>e\<in>S. sim lib q e \<le> snd best))"

definition canned_sections :: "pylib \<Rightarrow> backend_cache \<Rightarrow> ustr \<Rightarrow> ustr \<Rightarrow> ustr list" where
  "canned_sections lib bc user_message error_context =
     [U ''**Summary:**'',
      U ''The AI service is temporarily unavailable, but I can still help you with a structured response.'',
      [],
      U ''**Your Request:**'',
      user_message,
      [],
      U ''**Key Points:**'',
      U ''- Your message has been received and processed locally'',
      U ''- This is a temporary fallback response'',
      U ''- Full AI capabilities will return when the service reconnects'',
      [],
      U ''**Status Information:**'',
      U ''```json'',
      status_json lib error_context (length user_message) (length (cache bc)),
      U ''```'',
      [],
      U ''**Next Steps:**'',
      U ''- Try your request again in a few moments'',
      U ''- The system will automatically reconnect when available'',
      U ''- Your conversation history is preserved'']"

definition cached_prefix :: ustr where
  "cached_prefix = U ''**[Cached Response]** Service temporarily unavailable. Here'' @ [39]
     @ U ''s a previous similar response:'' @ [10, 10]"

definition get_fallback_response_body ::
  "pylib \<Rightarrow> backend_cache \<Rightarrow> ustr \<Rightarrow> ustr \<Rightarrow> pydict outcome" where
  "get_fallback_response_body lib bc user_message error_context =
     (let similar_response = find_similar_cached_response lib bc user_message (3 / 10);
          canned = Returns
            [(''bot_response'', PyStr (join [10] (canned_sections lib bc user_message error_context))),
             (''success'', PyBool True),
             (''final_approved'', PyBool True),
             (''translation_info'', PyNone),
             (''explanation_result'', PyNone),
             (''is_fallback'', PyBool True)]
      in case similar_response of
           None \<Rightarrow> canned
         | Some similar \<Rightarrow>
             if similar = [] then canned
             else (case map_of similar ''bot_response'' of
                     None \<Rightarrow> Raises KeyError
                   | Some b \<Rightarrow>
                       Returns (AList.update ''bot_response''
                                  (PyStr (cached_prefix @ py_format lib b)) similar)))"

definition get_fallback_response ::
  "pylib \<Rightarrow> backend_cache \<Rightarrow> ustr \<Rightarrow> ustr \<Rightarrow> pydict outcome" where
  "get_fallback_response lib bc user_message error_context =
     (case get_fallback_response_body lib bc user_message error_context of
        Returns r \<Rightarrow> Returns r
      | Raises e \<Rightarrow>
          Returns
            [(''bot_response'',
                PyStr (U ''**[System Message]** Service temporarily unavailable. Your message: ''
                       @ [39] @ take 100 user_message @ U ''...'' @ [39]
                       @ U '' has been received.'')),
             (''success'', PyBool True),
             (''final_approved'', PyBool True),
             (''is_fallback'', PyBool True)])"

subsection \<open>Sequences of cache calls\<close>

text \<open>
  A test scenario is a list of calls on one cache, each with the clock readings it makes:
  \<open>Put now1 now2 message response ttl\<close> is \<open>put(message, response, False, ttl)\<close> and
  \<open>Get now message\<close> is \<open>get(message, False)\<close>.  \<open>put_keys\<close> and \<open>put_entries\<close> are the
  keys and the entries that the puts of a scenario insert, in order; a \<open>put\<close> whose key
  cannot be generated inserts nothing.
\<close>

datatype cache_op = Put real real ustr pydict "int option" | Get real ustr

fun apply_op :: "pylib \<Rightarrow> backend_cache \<Rightarrow> cache_op \<Rightarrow> backend_cache" where
  "apply_op lib bc (Put now1 now2 m r t) = snd (put lib now1 now2 bc m r False t)"
| "apply_op lib bc (Get now m) = snd (get lib now bc m False)"

definition run_ops :: "pylib \<Rightarrow> backend_cache \<Rightarrow> cache_op list \<Rightarrow> backend_cache" where
  "run_ops lib bc ops = foldl (apply_op lib) bc ops"

fun op_times :: "cache_op \<Rightarrow> real list" where
  "op_times (Put now1 now2 m r t) = [now1, now2]"
| "op_times (Get now m) = [now]"

definition clock_readings :: "cache_op list \<Rightarrow> real list" where
  "clock_readings ops = concat (map op_times ops)"

fun put_keys :: "pylib \<Rightarrow> cache_op list \<Rightarrow> ustr list" where
  "put_keys lib [] = []"
| "put_keys lib (Put now1 now2 m r t # ops) =
     (case generate_key lib m False of
        Returns key \<Rightarrow> key # put_keys lib ops
      | Raises e \<Rightarrow> put_keys lib ops)"
| "put_keys lib (Get now m # ops) = put_keys lib ops"

fun put_entries :: "pylib \<Rightarrow> int \<Rightarrow> cache_op list \<Rightarrow> entry list" where
  "put_entries lib dflt [] = []"
| "put_entries lib dflt (Put now1 now2 m r t # ops) =
     (case generate_key lib m False of
        Returns key \<Rightarrow> put_entry dflt now1 m r t # put_entries lib dflt ops
      | Raises e \<Rightarrow> put_entries lib dflt ops)"
| "put_entries lib dflt (Get now m # ops) = put_entries lib dflt ops"

text \<open>
  An instance of the library parameters for running the model on ASCII text: \<open>str.lower\<close>
  on ASCII letters, and stand-ins for the digest and the renderings, on which no result
  below depends.
\<close>

definition ascii_lower :: "nat \<Rightarrow> nat" where
  "ascii_lower c = (if 65 \<le> c \<and> c \<le> 90 then c + 32 else c)"

definition demo_lib :: pylib where
  "demo_lib = \<lparr>str_lower = map ascii_lower, md5_hexdigest = (\<lambda>s. s),
                format_value = (\<lambda>v. []), status_json = (\<lambda>reason n k. []),
                exc_message = (\<lambda>e. [])\<rparr>"

section \<open>Content\_Moderation\_Agent.py: ContentModerationAgent\<close>

text \<open>
  The value \<open>json.loads\<close> returns is a \<open>pyval\<close>.  \<open>len(v)\<close> raises TypeError on a value without
  a length; a number in a comparison or under the format \<open>:.2f\<close> is a float or a bool
  (\<open>True\<close> is 1), and formatting anything else raises.  \<open>str(e)\<close> is the text a
  collaborator's error carries; for an exception raised by the interpreter it is the
  interpreter's message, which \<open>exc_message\<close> stands for.
\<close>

definition py_len :: "pyval \<Rightarrow> nat outcome" where
  "py_len v = (case v of PyStr s \<Rightarrow> Returns (length s) | PyList xs \<Rightarrow> Returns (length xs)
                 | PyDict d \<Rightarrow> Returns (length d) | _ \<Rightarrow> Raises TypeError)"

definition num_of :: "pyval \<Rightarrow> real option" where
  "num_of v = (case v of PyNum x \<Rightarrow> Some x | PyBool b \<Rightarrow> Some (if b then 1 else 0) | _ \<Rightarrow> None)"

definition format_2f :: "pyval \<Rightarrow> unit outcome" where
  "format_2f v = (case v of PyNum x \<Rightarrow> Returns () | PyBool b \<Rightarrow> Returns ()
                    | PyStr s \<Rightarrow> Raises ValueError | _ \<Rightarrow> Raises TypeError)"

definition exc_str :: "pylib \<Rightarrow> py_error \<Rightarrow> ustr" where
  "exc_str lib e = (case e of ServiceError s \<Rightarrow> s | _ \<Rightarrow> exc_message lib e)"

text \<open>The truth value of \<open>state.get("error")\<close>: \<open>None\<close> and the empty string are false.\<close>

definition has_error :: "ustr option \<Rightarrow> bool" where
  "has_error err = (case err of None \<Rightarrow> False | Some s \<Rightarrow> s \<noteq> [])"

text \<open>
  \<open>ModerationState\<close>.  Of the \<open>metadata\<close> dict only the key \<open>severity_score\<close> is ever read
  back; it is the field \<open>ms_severity_score\<close>, \<open>None\<close> while the key is absent.  The other
  metadata keys are diagnostics and are left out.
\<close>

record moderation_state =
  ms_input_text :: ustr
  ms_moderation_result :: pyval
  ms_approved :: bool
  ms_confidence :: pyval
  ms_flagged_categories :: pyval
  ms_explanation :: pyval
  ms_error :: "ustr option"
  ms_step :: string
  ms_severity_score :: "pyval option"

definition mod_validate_input_node :: "moderation_state \<Rightarrow> moderation_state" where
  "mod_validate_input_node state =
     (let input_text = strip (ms_input_text state)
      in if input_text = [] then
           state\<lparr>ms_error := Some (U ''Input text is empty or contains only whitespace''),
                 ms_step := ''validation_failed'', ms_approved := False,
                 ms_severity_score := None\<rparr>
         else if length input_text > 10000 then
           state\<lparr>ms_error := Some (U ''Input text is too long (maximum 10,000 characters)''),
                 ms_step := ''validation_failed'', ms_approved := False,
                 ms_severity_score := None\<rparr>
         else state\<lparr>ms_step := ''input_validated'', ms_error := None,
                     ms_severity_score := None\<rparr>)"

text \<open>
  The collaborators of the analysis node: \<open>llm\<close> is \<open>self.llm.invoke\<close> on the prompt built
  from the input text, returning \<open>response.content\<close> or raising; \<open>json_loads\<close> is \<open>json.loads\<close>,
  \<open>None\<close> for a JSONDecodeError.
\<close>

definition fallback_moderation_result :: "ustr \<Rightarrow> pyval" where
  "fallback_moderation_result content =
     PyDict [(''analysis'', PyStr content),
             (''inappropriate_categories'', PyList []),
             (''severity_score'', PyNum 0),
             (''confidence'', PyNum (1 / 2)),
             (''explanation'', PyStr (U ''Analysis completed but response format was unexpected''))]"

definition analyze_content_node ::
  "pylib \<Rightarrow> (ustr \<Rightarrow> ustr outcome) \<Rightarrow> (ustr \<Rightarrow> pyval option) \<Rightarrow> moderation_state \<Rightarrow> moderation_state" where
  "analyze_content_node lib llm json_loads state =
     (if has_error (ms_error state) then state
      else case llm (ms_input_text state) of
             Raises e \<Rightarrow>
               state\<lparr>ms_error := Some (U ''Content analysis failed: '' @ exc_str lib e),
                     ms_step := ''analysis_failed'', ms_approved := False\<rparr>
           | Returns content \<Rightarrow>
               let moderation_result =
                     (case json_loads content of
                        Some v \<Rightarrow> v
                      | None \<Rightarrow> fallback_moderation_result content)
               in state\<lparr>ms_moderation_result := moderation_result,
                        ms_step := ''content_analyzed''\<rparr>)"

text \<open>
  The body of the \<open>try\<close> in \<open>_classify_content_node\<close>: \<open>.get\<close> needs a dict, the log line
  formats the severity with \<open>:.2f\<close>, and the update takes \<open>len(flagged_categories)\<close>.
\<close>

definition classify_body :: "moderation_state \<Rightarrow> moderation_state outcome" where
  "classify_body state =
     (case ms_moderation_result state of
        PyDict moderation_result \<Rightarrow>
          (let flagged_categories = dict_get moderation_result ''inappropriate_categories'' (PyList []);
               severity_score = dict_get moderation_result ''severity_score'' (PyNum 0);
               confidence = dict_get moderation_result ''confidence'' (PyNum 0);
               explanation = dict_get moderation_result ''explanation''
                               (PyStr (U ''No explanation provided''))
           in case format_2f severity_score of
                Raises e \<Rightarrow> Raises e
              | Returns u \<Rightarrow>
                  (case py_len flagged_categories of
                     Raises e \<Rightarrow> Raises e
                   | Returns n \<Rightarrow>
                       Returns (state\<lparr>ms_flagged_categories := flagged_categories,
                                       ms_confidence := confidence,
                                       ms_explanation := explanation,
                                       ms_step := ''content_classified'',
                                       ms_severity_score := Some severity_score\<rparr>)))
      | _ \<Rightarrow> Raises AttributeError)"

definition classify_content_node :: "pylib \<Rightarrow> moderation_state \<Rightarrow> moderation_state" where
  "classify_content_node lib state =
     (if has_error (ms_error state) then state
      else case classify_body state of
             Returns state' \<Rightarrow> state'
           | Raises e \<Rightarrow>
               state\<lparr>ms_error := Some (U ''Content classification failed: '' @ exc_str lib e),
                     ms_step := ''classification_failed'', ms_approved := False\<rparr>)"

text \<open>
  \<open>approved = len(flagged_categories) == 0 and severity_score < 0.3\<close>; the comparison is
  evaluated only when the length is 0, and raises TypeError on a value that is not a number.
\<close>

definition decision_body :: "moderation_state \<Rightarrow> moderation_state outcome" where
  "decision_body state =
     (let flagged_categories = ms_flagged_categories state;
          severity_score = (case ms_severity_score state of None \<Rightarrow> PyNum 0 | Some v \<Rightarrow> v)
      in case py_len flagged_categories of
           Raises e \<Rightarrow> Raises e
         | Returns n \<Rightarrow>
             if n = 0 then
               (case num_of severity_score of
                  None \<Rightarrow> Raises TypeError
                | Some x \<Rightarrow> Returns (state\<lparr>ms_approved := (x < 3 / 10),
                                              ms_step := ''decision_made''\<rparr>))
             else Returns (state\<lparr>ms_approved := False, ms_step := ''decision_made''\<rparr>))"

definition make_decision_node :: "pylib \<Rightarrow> moderation_state \<Rightarrow> moderation_state" where
  "make_decision_node lib state =
     (if has_error (ms_error state) then state
      else case decision_body state of
             Returns state' \<Rightarrow> state'
           | Raises e \<Rightarrow>
               state\<lparr>ms_error := Some (U ''Decision making failed: '' @ exc_str lib e),
                     ms_step := ''decision_failed'', ms_approved := False\<rparr>)"

definition finalize_result_node :: "moderation_state \<Rightarrow> moderation_state" where
  "finalize_result_node state = state\<lparr>ms_step := ''moderation_complete''\<rparr>"

text \<open>
  \<open>moderate_content\<close>: the graph runs the five nodes in the order of its edges, and the result
  dict is read off the final state.
\<close>

record moderation_output =
  mo_success :: bool
  mo_approved :: bool
  mo_confidence :: pyval
  mo_flagged_categories :: pyval
  mo_explanation :: pyval
  mo_error :: "ustr option"
  mo_processing_step :: string
  mo_severity_score :: "pyval option"

text \<open>The state on entry to the last node, which only sets the step.\<close>

definition mod_pre_final ::
  "pylib \<Rightarrow> (ustr \<Rightarrow> ustr outcome) \<Rightarrow> (ustr \<Rightarrow> pyval option) \<Rightarrow> moderation_state \<Rightarrow> moderation_state" where
  "mod_pre_final lib llm json_loads state =
     make_decision_node lib (classify_content_node lib
       (analyze_content_node lib llm json_loads (mod_validate_input_node state)))"

definition moderation_graph ::
  "pylib \<Rightarrow> (ustr \<Rightarrow> ustr outcome) \<Rightarrow> (ustr \<Rightarrow> pyval option) \<Rightarrow> moderation_state \<Rightarrow> moderation_state" where
  "moderation_graph lib llm json_loads state =
     finalize_result_node (mod_pre_final lib llm json_loads state)"

definition mod_initial_state :: "ustr \<Rightarrow> moderation_state" where
  "mod_initial_state input_text =
     \<lparr>ms_input_text = input_text, ms_moderation_result = PyDict [], ms_approved = False,
      ms_confidence = PyNum 0, ms_flagged_categories = PyList [], ms_explanation = PyStr [],
      ms_error = None, ms_step = ''initialized'', ms_severity_score = None\<rparr>"

definition moderate_content ::
  "pylib \<Rightarrow> (ustr \<Rightarrow> ustr outcome) \<Rightarrow> (ustr \<Rightarrow> pyval option) \<Rightarrow> ustr \<Rightarrow> moderation_output" where
  "moderate_content lib llm json_loads input_text =
     (let final_state = moderation_graph lib llm json_loads (mod_initial_state input_text)
      in \<lparr>mo_success = \<not> has_error (ms_error final_state),
          mo_approved = ms_approved final_state,
          mo_confidence = ms_confidence final_state,
          mo_flagged_categories = ms_flagged_categories final_state,
          mo_explanation = ms_explanation final_state,
          mo_error = ms_error final_state,
          mo_processing_step = ms_step final_state,
          mo_severity_score = ms_severity_score final_state\<rparr>)"

text \<open>A collaborator reply is well typed when it parses to a dict whose flagged categories,
  if present, are a list and whose severity score, if present, is a number.\<close>

definition well_typed_reply :: "pyval \<Rightarrow> bool" where
  "well_typed_reply v =
     (case v of
        PyDict d \<Rightarrow>
          (case map_of d ''inappropriate_categories'' of
             None \<Rightarrow> True | Some (PyList xs) \<Rightarrow> True | Some _ \<Rightarrow> False)
          \<and> (case map_of d ''severity_score'' of
               None \<Rightarrow> True | Some (PyNum x) \<Rightarrow> True | Some _ \<Rightarrow> False)
      | _ \<Rightarrow> False)"

section \<open>Language\_Bridge\_Agent.py: LanguageBridgeAgent\<close>

text \<open>
  The translation collaborator is \<open>self.translate_client\<close>: \<open>detect_language(text)\<close> gives a
  language code and a confidence, \<open>get_languages(target_language='en')\<close> the list of codes
  and names, \<open>translate(text, source_language, target_language)\<close> the translated text; each may
  raise.  The state carries, besides the fields of \<open>AgentState\<close>, the list of calls made on
  the client so far, oldest first.  The \<open>metadata\<close> dict is never read back and is left out.
\<close>

datatype client_call = DetectLanguage ustr | GetLanguages | Translate ustr ustr ustr

record translate_client =
  tc_detect_language :: "ustr \<Rightarrow> (ustr \<times> real) outcome"
  tc_get_languages :: "(ustr \<times> ustr) list outcome"
  tc_translate :: "ustr \<Rightarrow> ustr \<Rightarrow> ustr \<Rightarrow> ustr outcome"

record agent_state =
  as_input_text :: ustr
  as_detected_language :: ustr
  as_detected_language_code :: ustr
  as_confidence :: real
  as_translated_text :: ustr
  as_is_english :: bool
  as_error :: "ustr option"
  as_step :: string
  as_calls :: "client_call list"

definition validate_input_node :: "agent_state \<Rightarrow> agent_state" where
  "validate_input_node state =
     (let input_text = strip (as_input_text state)
      in if input_text = [] then
           state\<lparr>as_error := Some (U ''Input text is empty or contains only whitespace''),
                 as_step := ''validation_failed''\<rparr>
         else if length input_text > 30000 then
           state\<lparr>as_error := Some (U ''Input text is too long (maximum 30,000 characters for Google Cloud Translation)''),
                 as_step := ''validation_failed''\<rparr>
         else state\<lparr>as_step := ''input_validated'', as_error := None\<rparr>)"

text \<open>\<open>next((lang['name'] for lang in languages if lang['language'] == code), default)\<close>.\<close>

fun language_name :: "(ustr \<times> ustr) list \<Rightarrow> ustr \<Rightarrow> ustr" where
  "language_name [] detected_code = U ''Language ('' @ detected_code @ U '')''"
| "language_name ((code, name) # languages) detected_code =
     (if code = detected_code then name else language_name languages detected_code)"

definition detect_language_node :: "pylib \<Rightarrow> translate_client \<Rightarrow> agent_state \<Rightarrow> agent_state" where
  "detect_language_node lib client state =
     (if has_error (as_error state) then state
      else case tc_detect_language client (as_input_text state) of
             Raises e \<Rightarrow>
               state\<lparr>as_error := Some (U ''Language detection failed: '' @ exc_str lib e),
                     as_step := ''detection_failed'',
                     as_calls := as_calls state @ [DetectLanguage (as_input_text state)]\<rparr>
           | Returns (detected_code, confidence) \<Rightarrow>
               (case tc_get_languages client of
                  Raises e \<Rightarrow>
                    state\<lparr>as_error := Some (U ''Language detection failed: '' @ exc_str lib e),
                          as_step := ''detection_failed'',
                          as_calls := as_calls state
                            @ [DetectLanguage (as_input_text state), GetLanguages]\<rparr>
                | Returns languages \<Rightarrow>
                    state\<lparr>as_detected_language_code := detected_code,
                          as_detected_language := language_name languages detected_code,
                          as_confidence := confidence,
                          as_step := ''language_detected'',
                          as_calls := as_calls state
                            @ [DetectLanguage (as_input_text state), GetLanguages]\<rparr>))"

definition check_english_node :: "pylib \<Rightarrow> agent_state \<Rightarrow> agent_state" where
  "check_english_node lib state =
     (if has_error (as_error state) then state
      else let detected_code = as_detected_language_code state;
               is_english = (str_lower lib detected_code = U ''en'');
               state1 = state\<lparr>as_is_english := is_english, as_step := ''english_check_complete''\<rparr>
           in if is_english then state1\<lparr>as_translated_text := as_input_text state1\<rparr>
              else state1)"

datatype route = NeedsTranslation | AlreadyEnglish | RouteError

definition routing_decision :: "agent_state \<Rightarrow> route" where
  "routing_decision state =
     (if has_error (as_error state) then RouteError
      else if as_is_english state then AlreadyEnglish
      else NeedsTranslation)"

definition translate_text_node :: "pylib \<Rightarrow> translate_client \<Rightarrow> agent_state \<Rightarrow> agent_state" where
  "translate_text_node lib client state =
     (if has_error (as_error state) then state
      else case tc_translate client (as_input_text state) (as_detected_language_code state) (U ''en'') of
             Raises e \<Rightarrow>
               state\<lparr>as_error := Some (U ''Translation failed: '' @ exc_str lib e),
                     as_step := ''translation_failed'',
                     as_calls := as_calls state
                       @ [Translate (as_input_text state) (as_detected_language_code state) (U ''en'')]\<rparr>
           | Returns translated_text \<Rightarrow>
               state\<lparr>as_translated_text := translated_text,
                     as_step := ''translation_complete'',
                     as_calls := as_calls state
                       @ [Translate (as_input_text state) (as_detected_language_code state) (U ''en'')]\<rparr>)"

definition finalize_output_node :: "agent_state \<Rightarrow> agent_state" where
  "finalize_output_node state = state\<lparr>as_step := ''processing_complete''\<rparr>"

text \<open>
  The compiled graph: \<open>validate_input\<close>, \<open>detect_language\<close>, \<open>check_english\<close>, then the
  conditional edge (\<open>needs_translation\<close> to \<open>translate_text\<close>, the other two to
  \<open>finalize_output\<close>), then \<open>finalize_output\<close>.
\<close>

definition bridge_graph :: "pylib \<Rightarrow> translate_client \<Rightarrow> agent_state \<Rightarrow> agent_state" where
  "bridge_graph lib client state =
     (let checked = check_english_node lib (detect_language_node lib client (validate_input_node state))
      in case routing_decision checked of
           NeedsTranslation \<Rightarrow> finalize_output_node (translate_text_node lib client checked)
         | AlreadyEnglish \<Rightarrow> finalize_output_node checked
         | RouteError \<Rightarrow> finalize_output_node checked)"

definition bridge_initial_state :: "ustr \<Rightarrow> agent_state" where
  "bridge_initial_state input_text =
     \<lparr>as_input_text = input_text, as_detected_language = [], as_detected_language_code = [],
      as_confidence = 0, as_translated_text = [], as_is_english = False, as_error = None,
      as_step = ''initialized'', as_calls = []\<rparr>"

record process_text_result =
  pt_success :: bool
  pt_input_text :: ustr
  pt_detected_language :: ustr
  pt_detected_language_code :: ustr
  pt_confidence :: real
  pt_translated_text :: ustr
  pt_is_english :: bool
  pt_error :: "ustr option"
  pt_processing_step :: string

text \<open>\<open>process_text\<close> returns the result dict; the second component is the list of calls it
  made on the translation client.\<close>

definition process_text ::
  "pylib \<Rightarrow> translate_client \<Rightarrow> ustr \<Rightarrow> process_text_result \<times> client_call list" where
  "process_text lib client input_text =
     (let final_state = bridge_graph lib client (bridge_initial_state input_text)
      in (\<lparr>pt_success = \<not> has_error (as_error final_state),
           pt_input_text = as_input_text final_state,
           pt_detected_language = as_detected_language final_state,
           pt_detected_language_code = as_detected_language_code final_state,
           pt_confidence = as_confidence final_state,
           pt_translated_text = as_translated_text final_state,
           pt_is_english = as_is_english final_state,
           pt_error = as_error final_state,
           pt_processing_step = as_step final_state\<rparr>,
          as_calls final_state))"

definition is_translate_call :: "client_call \<Rightarrow> bool" where
  "is_translate_call c = (case c of Translate text src tgt \<Rightarrow> True | _ \<Rightarrow> False)"

section \<open>Language\_Bridge\_Agent.py: translating a response back\<close>

text \<open>
  \<open>re.sub(r'\*\*(.*?)\*\*', r'\1', text)\<close>.  \<open>find_close\<close> is the lazy group followed by the
  closing marker: the shortest run of characters other than a newline that is followed by
  two asterisks (code point 42), if there is one.  The scan replaces a match by its group and
  goes on behind the match; the first argument of \<open>remove_bold_from\<close> counts the characters of
  a match still to be passed over.
\<close>

fun find_close :: "ustr \<Rightarrow> ustr option" where
  "find_close [] = None"
| "find_close [c] = None"
| "find_close (a # b # cs) =
     (if a = 42 \<and> b = 42 then Some []
      else if a = 10 then None
      else map_option ((#) a) (find_close (b # cs)))"

fun remove_bold_from :: "nat \<Rightarrow> ustr \<Rightarrow> ustr" where
  "remove_bold_from skip [] = []"
| "remove_bold_from (Suc skip) (c # cs) = remove_bold_from skip cs"
| "remove_bold_from 0 (c # cs) =
     (case (if c = 42 \<and> take 1 cs = [42] then find_close (drop 1 cs) else None) of
        Some inner \<Rightarrow> inner @ remove_bold_from (length inner + 3) cs
      | None \<Rightarrow> c # remove_bold_from 0 cs)"

definition remove_bold :: "ustr \<Rightarrow> ustr" where
  "remove_bold text = remove_bold_from 0 text"






text \<open>
  The result dict of a translation: \<open>tr_skipped\<close> is true when the key \<open>skipped\<close> is present
  (it is only ever set to \<open>True\<close>).  Each function also returns the calls it made on the
  translation client.
\<close>

record translation_result =
  tr_success :: bool
  tr_translated_text :: ustr
  tr_skipped :: bool
  tr_error :: "ustr option"




section \<open>api\_server.py: the chat endpoint\<close>

text \<open>The texts of the endpoint's replies and of the two grading rubrics.\<close>

definition msg_empty_input :: ustr where
  "msg_empty_input =
     U ''Please enter a message or upload a PDF file for me to process.''"

definition err_empty_input :: ustr where
  "err_empty_input =
     U ''Empty input''"

definition cached_response_prefix :: ustr where
  "cached_response_prefix =
     U ''**[Cached Response]** ''"

definition msg_translated_from :: ustr where
  "msg_translated_from =
     [127760] @ U '' **Translated from ''"

definition msg_translated_sep :: ustr where
  "msg_translated_sep =
     U '':** ''"

definition msg_received :: ustr where
  "msg_received =
     [128172] @ U '' **Message received and processed.**''"

definition msg_processing_document :: ustr where
  "msg_processing_document =
     [128221] @ U '' **Processing your document for grading...**''"

definition msg_upload_pdf :: ustr where
  "msg_upload_pdf =
     [128196] @ U '' **Please upload a PDF file to grade.**''"

definition msg_want_grade :: ustr where
  "msg_want_grade =
     [129300]
     @ U '' **Want me to grade something?** Please upload a PDF file and be more specific.''"

definition msg_explanation_head :: ustr where
  "msg_explanation_head =
     [127891] @ U '' **Here'' @ [39] @ U ''s what I can tell you about ''"

definition msg_explanation_sep :: ustr where
  "msg_explanation_sep =
     U '':**'' @ [10, 10]"

definition msg_explanation_failed :: ustr where
  "msg_explanation_failed =
     [10060] @ U '' **Sorry, I couldn'' @ [39]
     @ U ''t generate an explanation right now. Please try again.**''"

definition msg_explanation_unavailable :: ustr where
  "msg_explanation_unavailable =
     [10060] @ U '' **Sorry, the explanation service is currently unavailable.**''"

definition msg_want_explain :: ustr where
  "msg_want_explain =
     [129300]
     @ U '' **Want me to explain something?** Please be more specific about the topic.''"

definition msg_thanks :: ustr where
  "msg_thanks =
     [128172] @ U '' **Thanks for your message!** How can I help you today?''"

definition msg_understand :: ustr where
  "msg_understand =
     [128172] @ U '' **Thank you for your message. I understand what you'' @ [39]
     @ U ''re saying.**''"

definition msg_rejected :: ustr where
  "msg_rejected =
     [10060] @ U '' **Sorry, I can'' @ [39] @ U ''t process this message as it doesn'' @ [39]
     @ U ''t meet our content guidelines. Please try rephrasing your request.**''"

definition msg_issue :: ustr where
  "msg_issue =
     [10060]
     @ U '' **Sorry, I encountered an issue processing your message. Please try again.**''"

definition msg_pdf_received :: ustr where
  "msg_pdf_received =
     [128196] @ U '' **PDF file received** - Processing for grading...''"

definition msg_invalid_pdf :: ustr where
  "msg_invalid_pdf =
     [10060] @ U '' **Invalid PDF file.** Please upload a valid PDF document.''"

definition msg_pdf_failed :: ustr where
  "msg_pdf_failed =
     [10060] @ U '' **Sorry, I couldn'' @ [39]
     @ U ''t process your PDF file. Please make sure it'' @ [39]
     @ U ''s a valid document and try again.**''"

definition msg_pdf_seen :: ustr where
  "msg_pdf_seen =
     [128196] @ U '' **I see you'' @ [39] @ U ''ve uploaded a PDF file.** If you'' @ [39]
     @ U ''d like me to grade it, just ask me to evaluate or assess your work!''"

definition msg_completed :: ustr where
  "msg_completed =
     [9989] @ U '' Processing completed!''"

definition msg_pdf_uploaded :: ustr where
  "msg_pdf_uploaded =
     U ''PDF file uploaded''"

definition cached_fallback_prefix :: ustr where
  "cached_fallback_prefix =
     U ''**[Cached Fallback]** Service temporarily unavailable. Here'' @ [39]
     @ U ''s a previous response:'' @ [10, 10]"

definition msg_last_resort :: ustr where
  "msg_last_resort =
     U ''Sorry, I'' @ [39]
     @ U ''m experiencing technical difficulties. Please try again later.''"

definition custom_rubric_of :: "ustr \<Rightarrow> ustr" where
  "custom_rubric_of user_context =
     [10] @ U ''                            Based on the user'' @ [39] @ U ''s request: ''
     @ [34]
     @ user_context
     @ [34, 10] @ U ''                            '' @ [10]
     @ U ''                            Grading Criteria:'' @ [10]
     @ U ''                            - Content Quality and Relevance (40 marks)'' @ [10]
     @ U ''                            - Clarity and Understanding (25 marks)'' @ [10]
     @ U ''                            - Organization and Structure (20 marks)'' @ [10]
     @ U ''                            - Grammar and Presentation (15 marks)'' @ [10]
     @ U ''                            '' @ [10] @ U ''                            Instructions:''
     @ [10] @ U ''                            - Provide specific feedback related to the user''
     @ [39] @ U ''s request'' @ [10]
     @ U ''                            - Ignore minor syntax/grammar mistakes'' @ [10]
     @ U ''                            - Focus on content accuracy and comprehension'' @ [10]
     @ U ''                            - Give constructive suggestions for improvement'' @ [10]
     @ U ''                            ''"

definition default_rubric :: ustr where
  "default_rubric =
     [10] @ U ''                            General Assignment Grading Criteria:'' @ [10]
     @ U ''                            - Content Quality and Accuracy (40 marks)'' @ [10]
     @ U ''                            - Clarity of Explanation (30 marks)'' @ [10]
     @ U ''                            - Organization and Structure (20 marks)'' @ [10]
     @ U ''                            - Grammar and Presentation (10 marks)'' @ [10]
     @ U ''                            '' @ [10] @ U ''                            Instructions:''
     @ [10] @ U ''                            - Ignore minor syntax/grammar mistakes'' @ [10]
     @ U ''                            - Provide constructive feedback'' @ [10]
     @ U ''                            - Focus on overall understanding and presentation'' @ [10]
     @ U ''                            ''"

text \<open>The text an f-string gives for a value read from a dict that holds a \<open>str\<close>; other
  values do not occur there.\<close>

definition py_format_str :: "pyval \<Rightarrow> ustr" where
  "py_format_str v = (case v of PyStr s \<Rightarrow> s | _ \<Rightarrow> [])"

text \<open>
  The collaborators of the endpoint.  \<open>process_with_moderation\<close> returns its result dict
  (or raises); of a failed result only \<open>success\<close> is read.  \<open>classify_user_intent\<close> handles
  its own failures and always returns.  \<open>explanation_agent\<close> is \<open>None\<close> or an agent whose
  \<open>get_explanation\<close> may raise; \<open>env_explanation_status\<close> is \<open>service_status["explanation"]\<close>.
  The two formatting functions render a number as \<open>str\<close> does and as \<open>:.1f\<close> does.
\<close>

record pwm_result =
  pwm_success :: bool
  pwm_final_approved :: bool
  pwm_is_english :: bool
  pwm_original_language :: ustr
  pwm_original_language_code :: ustr
  pwm_translated_text :: ustr
  pwm_translation_confidence :: real
  pwm_moderation_approved :: bool
  pwm_moderation_confidence :: pyval
  pwm_flagged_categories :: pyval
  pwm_moderation_explanation :: pyval

record intent_result =
  ir_intent :: ustr
  ir_confidence :: real
  ir_reasoning :: ustr

record grade_result =
  gr_marks_obtained :: real
  gr_total_marks :: real
  gr_ai_feedback :: ustr

datatype collab_call = ProcessWithModeration ustr | ClassifyUserIntent ustr | GetExplanation ustr
  | TranslateResponse ustr ustr | ValidatePdfBlob ustr | GradeAssignment ustr ustr

record chat_env =
  env_process_with_moderation :: "ustr \<Rightarrow> pwm_result outcome"
  env_classify_user_intent :: "ustr \<Rightarrow> intent_result"
  env_explanation_agent :: "(ustr \<Rightarrow> ustr outcome) option"
  env_explanation_status :: ustr
  env_translate_response :: "ustr \<Rightarrow> ustr \<Rightarrow> translation_result outcome"
  env_validate_pdf_blob :: "ustr \<Rightarrow> bool outcome"
  env_grade_assignment :: "ustr \<Rightarrow> ustr \<Rightarrow> grade_result outcome"
  env_format_number :: "real \<Rightarrow> ustr"
  env_format_1f :: "real \<Rightarrow> ustr"
  env_timestamp :: ustr

text \<open>The clock readings of the cache calls an endpoint run can make.\<close>

record chat_clock =
  ck_get :: real
  ck_put1 :: real
  ck_put2 :: real
  ck_fallback :: real

record chat_message =
  cm_message :: ustr
  cm_pdf_file :: "ustr option"

record chat_response =
  cr_success :: bool
  cr_user_message :: ustr
  cr_bot_response :: ustr
  cr_translation_info :: pyval
  cr_moderation_info :: pyval
  cr_grading_result :: pyval
  cr_explanation_result :: pyval
  cr_final_approved :: bool
  cr_timestamp :: ustr
  cr_error :: "ustr option"

text \<open>The truth values of \<open>request.message and request.message.strip()\<close> and of
  \<open>request.pdf_file\<close>.\<close>

definition message_present :: "chat_message \<Rightarrow> bool" where
  "message_present request \<longleftrightarrow> cm_message request \<noteq> [] \<and> strip (cm_message request) \<noteq> []"

definition pdf_present :: "chat_message \<Rightarrow> bool" where
  "pdf_present request = (case cm_pdf_file request of None \<Rightarrow> False | Some blob \<Rightarrow> blob \<noteq> [])"

definition pdf_blob :: "chat_message \<Rightarrow> ustr" where
  "pdf_blob request = (case cm_pdf_file request of None \<Rightarrow> [] | Some blob \<Rightarrow> blob)"

text \<open>
  The model validation of \<open>ChatResponse\<close> on values read from a cached payload: a \<open>bool\<close> field
  takes a bool, an optional dict field takes \<open>None\<close> or a dict; anything else is a
  validation error (coercions of other values to \<open>bool\<close> are not modelled).
\<close>

definition pyd_bool :: "pyval \<Rightarrow> bool outcome" where
  "pyd_bool v = (case v of PyBool b \<Rightarrow> Returns b | _ \<Rightarrow> Raises ValueError)"

definition pyd_opt_dict :: "pyval \<Rightarrow> pyval outcome" where
  "pyd_opt_dict v = (case v of PyNone \<Rightarrow> Returns PyNone | PyDict d \<Rightarrow> Returns (PyDict d)
                       | _ \<Rightarrow> Raises ValueError)"

text \<open>The local variables of \<open>chat_endpoint\<close> after the cache check.\<close>

record chat_locals =
  lc_translation_info :: pyval
  lc_moderation_info :: pyval
  lc_grading_result :: pyval
  lc_explanation_result :: pyval
  lc_final_approved :: bool
  lc_bot_response_parts :: "ustr list"
  lc_original_language_code :: "ustr option"
  lc_should_grade_pdf :: bool

definition initial_locals :: chat_locals where
  "initial_locals =
     \<lparr>lc_translation_info = PyNone, lc_moderation_info = PyNone, lc_grading_result = PyNone,
      lc_explanation_result = PyNone, lc_final_approved = True, lc_bot_response_parts = [],
      lc_original_language_code = None, lc_should_grade_pdf = False\<rparr>"

definition empty_input_response :: "chat_env \<Rightarrow> chat_message \<Rightarrow> chat_response" where
  "empty_input_response env request =
     \<lparr>cr_success = False, cr_user_message = cm_message request,
      cr_bot_response = msg_empty_input, cr_translation_info = PyNone,
      cr_moderation_info = PyNone, cr_grading_result = PyNone, cr_explanation_result = PyNone,
      cr_final_approved = False, cr_timestamp = env_timestamp env,
      cr_error = Some err_empty_input\<rparr>"

text \<open>The reply built from a cache hit; a missing \<open>bot_response\<close> raises KeyError.\<close>

definition cache_hit_response ::
  "pylib \<Rightarrow> chat_env \<Rightarrow> ustr \<Rightarrow> pydict \<Rightarrow> chat_response outcome" where
  "cache_hit_response lib env cache_key_message cached_response =
     (case map_of cached_response ''bot_response'' of
        None \<Rightarrow> Raises KeyError
      | Some b \<Rightarrow>
          (case pyd_bool (dict_get cached_response ''success'' (PyBool True)) of
             Raises e \<Rightarrow> Raises e
           | Returns success \<Rightarrow>
               (case pyd_opt_dict (dict_get cached_response ''translation_info'' PyNone) of
                  Raises e \<Rightarrow> Raises e
                | Returns translation_info \<Rightarrow>
                    (case pyd_opt_dict (dict_get cached_response ''explanation_result'' PyNone) of
                       Raises e \<Rightarrow> Raises e
                     | Returns explanation_result \<Rightarrow>
                         (case pyd_bool (dict_get cached_response ''final_approved'' (PyBool True)) of
                            Raises e \<Rightarrow> Raises e
                          | Returns final_approved \<Rightarrow>
                              Returns
                                \<lparr>cr_success = success, cr_user_message = cache_key_message,
                                 cr_bot_response = cached_response_prefix @ py_format lib b,
                                 cr_translation_info = translation_info,
                                 cr_moderation_info = PyNone, cr_grading_result = PyNone,
                                 cr_explanation_result = explanation_result,
                                 cr_final_approved = final_approved,
                                 cr_timestamp = env_timestamp env, cr_error = None\<rparr>)))))"

text \<open>The parts that answer a grading intent (the first \<open>if\<close>/\<open>elif\<close> chain).\<close>

definition grading_intent_parts :: "intent_result \<Rightarrow> bool \<Rightarrow> bool \<Rightarrow> ustr list" where
  "grading_intent_parts intent should_grade_pdf has_pdf =
     (if should_grade_pdf \<and> has_pdf then [msg_processing_document]
      else if should_grade_pdf \<and> \<not> has_pdf then [msg_upload_pdf]
      else if ir_intent intent = U ''grading'' \<and> ir_confidence intent \<le> 1 / 2 then [msg_want_grade]
      else [])"

text \<open>
  Translating the explanation for the user, inside its own \<open>try\<close>: a failure leaves the English
  text.  The result is the text and the calls made.
\<close>

definition translate_explanation ::
  "chat_env \<Rightarrow> ustr option \<Rightarrow> ustr \<Rightarrow> ustr \<times> collab_call list" where
  "translate_explanation env original_language_code explanation_text =
     (case original_language_code of
        None \<Rightarrow> (explanation_text, [])
      | Some code \<Rightarrow>
          if code = [] then (explanation_text, [])
          else (case env_translate_response env explanation_text code of
                  Raises e \<Rightarrow> (explanation_text, [TranslateResponse explanation_text code])
                | Returns tr \<Rightarrow>
                    (if tr_success tr \<and> \<not> tr_skipped tr then tr_translated_text tr
                     else explanation_text,
                     [TranslateResponse explanation_text code])))"

text \<open>The second \<open>if\<close>/\<open>elif\<close> chain: the explanation result, the parts to append and the
  calls made.\<close>

definition explanation_step ::
  "chat_env \<Rightarrow> pwm_result \<Rightarrow> intent_result \<Rightarrow> ustr option
     \<Rightarrow> pyval \<times> ustr list \<times> collab_call list" where
  "explanation_step env result intent original_language_code =
     (let should_explain = (ir_intent intent = U ''explanation'' \<and> ir_confidence intent > 1 / 2);
          healthy = (env_explanation_status env = U ''healthy'')
      in case env_explanation_agent env of
           Some get_explanation \<Rightarrow>
             if should_explain \<and> healthy then
               (case get_explanation (pwm_translated_text result) of
                  Raises e \<Rightarrow>
                    (PyNone, [msg_explanation_failed], [GetExplanation (pwm_translated_text result)])
                | Returns explanation_text \<Rightarrow>
                    (case translate_explanation env original_language_code explanation_text of
                       (text, calls) \<Rightarrow>
                         (PyDict [(''topic'', PyStr (pwm_translated_text result)),
                                  (''explanation'', PyStr text),
                                  (''intent_confidence'', PyNum (ir_confidence intent)),
                                  (''reasoning'', PyStr (ir_reasoning intent))],
                          [msg_explanation_head @ pwm_translated_text result
                             @ msg_explanation_sep @ text],
                          GetExplanation (pwm_translated_text result) # calls)))
             else if should_explain then (PyNone, [msg_explanation_unavailable], [])
             else if ir_intent intent = U ''explanation'' \<and> ir_confidence intent \<le> 1 / 2
               then (PyNone, [msg_want_explain], [])
             else if ir_intent intent = U ''general'' then (PyNone, [msg_thanks], [])
             else (PyNone, [], [])
         | None \<Rightarrow>
             if should_explain then (PyNone, [msg_explanation_unavailable], [])
             else if ir_intent intent = U ''explanation'' \<and> ir_confidence intent \<le> 1 / 2
               then (PyNone, [msg_want_explain], [])
             else if ir_intent intent = U ''general'' then (PyNone, [msg_thanks], [])
             else (PyNone, [], []))"

text \<open>\<open>part.startswith(globe)\<close> for the one-character prefix U+1F310.\<close>

definition starts_with_globe :: "ustr \<Rightarrow> bool" where
  "starts_with_globe part = (take 1 part = [127760])"

text \<open>
  Step 1 and 2 for a successful \<open>process_with_moderation\<close> result: the locals afterwards and
  the calls made.
\<close>

definition process_success ::
  "chat_env \<Rightarrow> chat_message \<Rightarrow> chat_locals \<Rightarrow> pwm_result \<Rightarrow> chat_locals \<times> collab_call list" where
  "process_success env request lc result =
     (let original_language_code =
            (if \<not> pwm_is_english result then Some (pwm_original_language_code result)
             else lc_original_language_code lc);
          translation_info =
            (if \<not> pwm_is_english result then
               PyDict [(''original_language'', PyStr (pwm_original_language result)),
                       (''translated_text'', PyStr (pwm_translated_text result)),
                       (''confidence'', PyNum (pwm_translation_confidence result))]
             else lc_translation_info lc);
          moderation_info =
            PyDict [(''approved'', PyBool (pwm_moderation_approved result)),
                    (''confidence'', pwm_moderation_confidence result),
                    (''flagged_categories'', pwm_flagged_categories result),
                    (''explanation'', pwm_moderation_explanation result)];
          intent = env_classify_user_intent env (pwm_translated_text result);
          should_grade_pdf = (ir_intent intent = U ''grading'' \<and> ir_confidence intent > 1 / 2);
          lc1 = lc\<lparr>lc_final_approved := pwm_final_approved result,
                   lc_original_language_code := original_language_code,
                   lc_translation_info := translation_info,
                   lc_moderation_info := moderation_info\<rparr>;
          calls1 = [ProcessWithModeration (cm_message request),
                    ClassifyUserIntent (pwm_translated_text result)]
      in if pwm_final_approved result then
           (case explanation_step env result intent original_language_code of
              (explanation_result, explanation_parts, calls2) \<Rightarrow>
                let parts1 = lc_bot_response_parts lc
                      @ [if \<not> pwm_is_english result
                         then msg_translated_from @ pwm_original_language result
                                @ msg_translated_sep @ pwm_translated_text result
                         else msg_received]
                      @ grading_intent_parts intent should_grade_pdf (pdf_present request)
                      @ explanation_parts;
                    parts2 =
                      (if \<not> pwm_is_english result
                          \<and> length (filter (\<lambda>part. \<not> starts_with_globe part) parts1) = 0
                       then parts1 @ [msg_understand] else parts1)
                in (lc1\<lparr>lc_explanation_result :=
                           (if explanation_result = PyNone then lc_explanation_result lc
                            else explanation_result),
                        lc_bot_response_parts := parts2,
                        lc_should_grade_pdf := should_grade_pdf\<rparr>,
                    calls1 @ calls2))
         else
           (lc1\<lparr>lc_bot_response_parts := lc_bot_response_parts lc @ [msg_rejected],
                lc_should_grade_pdf := False\<rparr>,
            calls1))"

text \<open>
  Step 1: translation and moderation of the message, when there is one.  An exception of
  \<open>process_with_moderation\<close> leaves the function body; the calls made are returned with it.
\<close>

definition process_message ::
  "chat_env \<Rightarrow> chat_message \<Rightarrow> chat_locals \<Rightarrow> chat_locals outcome \<times> collab_call list" where
  "process_message env request lc =
     (if message_present request then
        (case env_process_with_moderation env (cm_message request) of
           Raises e \<Rightarrow> (Raises e, [ProcessWithModeration (cm_message request)])
         | Returns result \<Rightarrow>
             if pwm_success result then
               (case process_success env request lc result of
                  (lc', calls) \<Rightarrow> (Returns lc', calls))
             else
               (Returns (lc\<lparr>lc_bot_response_parts := lc_bot_response_parts lc @ [msg_issue],
                             lc_should_grade_pdf := False\<rparr>),
                [ProcessWithModeration (cm_message request)]))
      else (Returns lc, []))"

text \<open>The qualitative band of a percentage: the emoji and the level.\<close>

definition grade_band :: "real \<Rightarrow> ustr \<times> ustr" where
  "grade_band percentage =
     (if percentage \<ge> 90 then ([127942], U ''Excellent'')
      else if percentage \<ge> 80 then ([127881], U ''Very Good'')
      else if percentage \<ge> 70 then ([9989], U ''Good'')
      else if percentage \<ge> 60 then ([128077], U ''Satisfactory'')
      else if percentage \<ge> 50 then ([9888, 65039], U ''Needs Improvement'')
      else ([10060], U ''Unsatisfactory''))"

definition grade_report :: "chat_env \<Rightarrow> grade_result \<Rightarrow> real \<Rightarrow> ustr" where
  "grade_report env pdf_result percentage =
     (case grade_band percentage of
        (grade_emoji, grade_level) \<Rightarrow>
          grade_emoji @ U '' **Your Grade: '' @ env_format_number env (gr_marks_obtained pdf_result)
          @ U ''/'' @ env_format_number env (gr_total_marks pdf_result)
          @ U '' ('' @ env_format_1f env percentage @ U ''%)**'' @ [10, 10]
          @ [127941] @ U '' **Performance:** '' @ grade_level @ [10, 10]
          @ [128221] @ U '' **Feedback:**'' @ [10] @ gr_ai_feedback pdf_result)"

definition truthy_dict :: "pyval \<Rightarrow> bool" where
  "truthy_dict v = (case v of PyDict d \<Rightarrow> d \<noteq> [] | _ \<Rightarrow> False)"

text \<open>
  The body of the \<open>try\<close> of step 3, whose handler appends the apology for the PDF: the locals
  (the grading result is assigned before the percentage is computed, and stays if the
  division raises) and the calls made.
\<close>

definition grade_pdf :: "chat_env \<Rightarrow> chat_message \<Rightarrow> chat_locals \<Rightarrow> chat_locals \<times> collab_call list" where
  "grade_pdf env request lc =
     (let blob = pdf_blob request;
          failed = (\<lambda>lc'. lc'\<lparr>lc_bot_response_parts := lc_bot_response_parts lc' @ [msg_pdf_failed]\<rparr>)
      in case env_validate_pdf_blob env blob of
           Raises e \<Rightarrow> (failed lc, [ValidatePdfBlob blob])
         | Returns valid \<Rightarrow>
             if \<not> valid then
               (lc\<lparr>lc_bot_response_parts := lc_bot_response_parts lc @ [msg_invalid_pdf]\<rparr>,
                [ValidatePdfBlob blob])
             else
               let custom_rubric =
                     (if message_present request \<and> truthy_dict (lc_translation_info lc)
                      then custom_rubric_of
                             (py_format_str (case lc_translation_info lc of
                                PyDict d \<Rightarrow> dict_get d ''translated_text'' PyNone | _ \<Rightarrow> PyNone))
                      else default_rubric)
               in case env_grade_assignment env blob custom_rubric of
                    Raises e \<Rightarrow> (failed lc, [ValidatePdfBlob blob, GradeAssignment blob custom_rubric])
                  | Returns pdf_result \<Rightarrow>
                      let lc1 = lc\<lparr>lc_grading_result :=
                                  PyDict [(''marks_obtained'', PyNum (gr_marks_obtained pdf_result)),
                                          (''total_marks'', PyNum (gr_total_marks pdf_result)),
                                          (''ai_feedback'', PyStr (gr_ai_feedback pdf_result))]\<rparr>
                      in if gr_total_marks pdf_result = 0 then
                           (failed lc1, [ValidatePdfBlob blob, GradeAssignment blob custom_rubric])
                         else
                           let percentage =
                                 gr_marks_obtained pdf_result / gr_total_marks pdf_result * 100
                           in (lc1\<lparr>lc_bot_response_parts := lc_bot_response_parts lc1
                                      @ [grade_report env pdf_result percentage]\<rparr>,
                               [ValidatePdfBlob blob, GradeAssignment blob custom_rubric]))"

text \<open>Step 3: the PDF, when there is one.\<close>

definition process_pdf :: "chat_env \<Rightarrow> chat_message \<Rightarrow> chat_locals \<Rightarrow> chat_locals \<times> collab_call list" where
  "process_pdf env request lc =
     (if pdf_present request then
        let lc1 = (if \<not> message_present request
                   then lc\<lparr>lc_should_grade_pdf := True,
                           lc_bot_response_parts := lc_bot_response_parts lc @ [msg_pdf_received]\<rparr>
                   else lc)
        in if lc_should_grade_pdf lc1 then grade_pdf env request lc1
           else (lc1\<lparr>lc_bot_response_parts := lc_bot_response_parts lc1 @ [msg_pdf_seen]\<rparr>, [])
      else (lc, []))"

definition compose_response :: "ustr list \<Rightarrow> ustr" where
  "compose_response bot_response_parts =
     (if length bot_response_parts > 1 then join [10, 10] bot_response_parts
      else if length bot_response_parts = 1 then hd bot_response_parts
      else msg_completed)"

text \<open>Translating the composed reply back, inside its own \<open>try\<close>.\<close>

definition back_translate :: "chat_env \<Rightarrow> chat_locals \<Rightarrow> ustr \<Rightarrow> ustr \<times> collab_call list" where
  "back_translate env lc final_bot_response =
     (case lc_translation_info lc of
        PyDict d \<Rightarrow>
          if d \<noteq> [] \<and> dict_get d ''original_language'' PyNone \<noteq> PyStr (U ''English'') then
            (case lc_original_language_code lc of
               None \<Rightarrow> (final_bot_response, [])
             | Some code \<Rightarrow>
                 if code = [] then (final_bot_response, [])
                 else (case env_translate_response env final_bot_response code of
                         Raises e \<Rightarrow> (final_bot_response, [TranslateResponse final_bot_response code])
                       | Returns tr \<Rightarrow>
                           (if tr_success tr \<and> \<not> tr_skipped tr then tr_translated_text tr
                            else final_bot_response,
                            [TranslateResponse final_bot_response code])))
          else (final_bot_response, [])
      | _ \<Rightarrow> (final_bot_response, []))"

text \<open>
  The part of the function body after the cache check: the response, or the exception that
  leaves the body, with the cache and the calls made.
\<close>

definition chat_pipeline ::
  "pylib \<Rightarrow> chat_env \<Rightarrow> chat_clock \<Rightarrow> backend_cache \<Rightarrow> chat_message
     \<Rightarrow> chat_response outcome \<times> backend_cache \<times> collab_call list" where
  "chat_pipeline lib env clock bc request =
     (case process_message env request initial_locals of
        (Raises e, calls1) \<Rightarrow> (Raises e, bc, calls1)
      | (Returns lc1, calls1) \<Rightarrow>
          (case process_pdf env request lc1 of
             (lc2, calls2) \<Rightarrow>
               (case back_translate env lc2 (compose_response (lc_bot_response_parts lc2)) of
                  (final_bot_response, calls3) \<Rightarrow>
                    let response_data =
                          [(''success'', PyBool True),
                           (''bot_response'', PyStr final_bot_response),
                           (''translation_info'', lc_translation_info lc2),
                           (''explanation_result'', lc_explanation_result lc2),
                           (''final_approved'', PyBool (lc_final_approved lc2))];
                        bc' = (if strip (cm_message request) \<noteq> [] \<and> \<not> pdf_present request
                                  \<and> lc_final_approved lc2
                               then snd (put lib (ck_put1 clock) (ck_put2 clock) bc
                                           (cm_message request) response_data False None)
                               else bc)
                    in (Returns
                          \<lparr>cr_success = True,
                           cr_user_message = (if cm_message request \<noteq> [] then cm_message request
                                              else msg_pdf_uploaded),
                           cr_bot_response = final_bot_response,
                           cr_translation_info = lc_translation_info lc2,
                           cr_moderation_info = lc_moderation_info lc2,
                           cr_grading_result = lc_grading_result lc2,
                           cr_explanation_result = lc_explanation_result lc2,
                           cr_final_approved = lc_final_approved lc2,
                           cr_timestamp = env_timestamp env, cr_error = None\<rparr>,
                        bc', calls1 @ calls2 @ calls3))))"

text \<open>The function body after the input check: the cache lookup, then the pipeline.\<close>

definition chat_body ::
  "pylib \<Rightarrow> chat_env \<Rightarrow> chat_clock \<Rightarrow> backend_cache \<Rightarrow> chat_message
     \<Rightarrow> chat_response outcome \<times> backend_cache \<times> collab_call list" where
  "chat_body lib env clock bc request =
     (if strip (cm_message request) \<noteq> [] \<and> \<not> pdf_present request then
        (case get lib (ck_get clock) bc (cm_message request) False of
           (Returns (Some cached_response), bc1) \<Rightarrow>
             if cached_response \<noteq> [] then
               (cache_hit_response lib env (cm_message request) cached_response, bc1, [])
             else chat_pipeline lib env clock bc1 request
         | (r, bc1) \<Rightarrow> chat_pipeline lib env clock bc1 request)
      else chat_pipeline lib env clock bc request)"

definition last_resort_response :: "pylib \<Rightarrow> chat_env \<Rightarrow> ustr \<Rightarrow> py_error \<Rightarrow> chat_response" where
  "last_resort_response lib env fallback_message e =
     \<lparr>cr_success = False, cr_user_message = fallback_message,
      cr_bot_response = msg_last_resort, cr_translation_info = PyNone,
      cr_moderation_info = PyNone, cr_grading_result = PyNone, cr_explanation_result = PyNone,
      cr_final_approved = False, cr_timestamp = env_timestamp env,
      cr_error = Some (exc_str lib e)\<rparr>"

text \<open>
  The handler of the outer \<open>except Exception\<close>: the exact cache entry, else the fallback reply
  of the cache, else (also when any of that raises, or for a request with a PDF) the
  last-resort reply.
\<close>

definition chat_fallback ::
  "pylib \<Rightarrow> chat_env \<Rightarrow> chat_clock \<Rightarrow> backend_cache \<Rightarrow> chat_message \<Rightarrow> py_error
     \<Rightarrow> chat_response \<times> backend_cache" where
  "chat_fallback lib env clock bc request e =
     (let fallback_message = (if cm_message request \<noteq> [] then cm_message request
                              else msg_pdf_uploaded);
          last_resort = last_resort_response lib env fallback_message e
      in if strip fallback_message \<noteq> [] \<and> \<not> pdf_present request then
           (case get lib (ck_fallback clock) bc fallback_message False of
              (r, bc1) \<Rightarrow>
                (case (case r of Returns (Some cached) \<Rightarrow> if cached \<noteq> [] then Some cached else None
                               | _ \<Rightarrow> None) of
                   Some cached_response \<Rightarrow>
                     (case map_of cached_response ''bot_response'' of
                        None \<Rightarrow> (last_resort, bc1)
                      | Some b \<Rightarrow>
                          (case (pyd_opt_dict (dict_get cached_response ''translation_info'' PyNone),
                                 pyd_opt_dict (dict_get cached_response ''explanation_result'' PyNone),
                                 pyd_bool (dict_get cached_response ''final_approved'' (PyBool True))) of
                             (Returns translation_info, Returns explanation_result,
                              Returns final_approved) \<Rightarrow>
                               (\<lparr>cr_success = True, cr_user_message = fallback_message,
                                 cr_bot_response = cached_fallback_prefix @ py_format lib b,
                                 cr_translation_info = translation_info,
                                 cr_moderation_info = PyNone, cr_grading_result = PyNone,
                                 cr_explanation_result = explanation_result,
                                 cr_final_approved = final_approved,
                                 cr_timestamp = env_timestamp env, cr_error = None\<rparr>, bc1)
                           | _ \<Rightarrow> (last_resort, bc1)))
                 | None \<Rightarrow>
                     (case get_fallback_response lib bc1 fallback_message (U ''service_error'') of
                        Returns fallback_response \<Rightarrow>
                          (case map_of fallback_response ''bot_response'' of
                             Some (PyStr text) \<Rightarrow>
                               (\<lparr>cr_success = True, cr_user_message = fallback_message,
                                 cr_bot_response = text, cr_translation_info = PyNone,
                                 cr_moderation_info = PyNone, cr_grading_result = PyNone,
                                 cr_explanation_result = PyNone, cr_final_approved = True,
                                 cr_timestamp = env_timestamp env, cr_error = None\<rparr>, bc1)
                           | _ \<Rightarrow> (last_resort, bc1))
                      | Raises e' \<Rightarrow> (last_resort, bc1))))
         else (last_resort, bc))"

text \<open>
  \<open>chat_endpoint\<close>: the response, the cache afterwards and the collaborator calls made, in
  order.
\<close>

definition chat_endpoint ::
  "pylib \<Rightarrow> chat_env \<Rightarrow> chat_clock \<Rightarrow> backend_cache \<Rightarrow> chat_message
     \<Rightarrow> chat_response \<times> backend_cache \<times> collab_call list" where
  "chat_endpoint lib env clock bc request =
     (if (cm_message request = [] \<or> strip (cm_message request) = []) \<and> \<not> pdf_present request then
        (empty_input_response env request, bc, [])
      else case chat_body lib env clock bc request of
             (Returns response, bc1, calls) \<Rightarrow> (response, bc1, calls)
           | (Raises e, bc1, calls) \<Rightarrow>
               (case chat_fallback lib env clock bc1 request e of
                  (response, bc2) \<Rightarrow> (response, bc2, calls)))"

subsection \<open>Language\_Bridge\_Agent.py: process\_with\_moderation\<close>

text \<open>
  The function first constructs both agents, which may raise (\<open>bridge_init\<close> is the
  translation client or the exception, \<open>moderation_init\<close> the language model or the
  exception); any exception gives the failure dict of step \<open>integration_failed\<close>.  Every
  failure dict has \<open>success = False\<close> and \<open>final_approved = False\<close>; its other keys are not
  read by the endpoint and are filled with defaults here.
\<close>

definition pwm_failure :: pwm_result where
  "pwm_failure =
     \<lparr>pwm_success = False, pwm_final_approved = False, pwm_is_english = False,
      pwm_original_language = [], pwm_original_language_code = [], pwm_translated_text = [],
      pwm_translation_confidence = 0, pwm_moderation_approved = False,
      pwm_moderation_confidence = PyNum 0, pwm_flagged_categories = PyList [],
      pwm_moderation_explanation = PyStr []\<rparr>"

definition process_with_moderation ::
  "pylib \<Rightarrow> translate_client outcome \<Rightarrow> (ustr \<Rightarrow> ustr outcome) outcome \<Rightarrow> (ustr \<Rightarrow> pyval option)
     \<Rightarrow> ustr \<Rightarrow> pwm_result" where
  "process_with_moderation lib bridge_init moderation_init json_loads input_text =
     (case bridge_init of
        Raises e \<Rightarrow> pwm_failure
      | Returns client \<Rightarrow>
          (case moderation_init of
             Raises e \<Rightarrow> pwm_failure
           | Returns llm \<Rightarrow>
               let translation_result = fst (process_text lib client input_text)
               in if \<not> pt_success translation_result then pwm_failure
                  else let moderation_result =
                             moderate_content lib llm json_loads (pt_translated_text translation_result)
                       in if \<not> mo_success moderation_result then pwm_failure
                          else \<lparr>pwm_success = True,
                                pwm_final_approved = mo_approved moderation_result,
                                pwm_is_english = pt_is_english translation_result,
                                pwm_original_language = pt_detected_language translation_result,
                                pwm_original_language_code =
                                  pt_detected_language_code translation_result,
                                pwm_translated_text = pt_translated_text translation_result,
                                pwm_translation_confidence = pt_confidence translation_result,
                                pwm_moderation_approved = mo_approved moderation_result,
                                pwm_moderation_confidence = mo_confidence moderation_result,
                                pwm_flagged_categories = mo_flagged_categories moderation_result,
                                pwm_moderation_explanation = mo_explanation moderation_result\<rparr>))"

subsection \<open>An environment whose services are down\<close>

text \<open>
  The translation client raises on every call, so \<open>process_with_moderation\<close> fails at
  language detection; intent classification has no client and answers \<open>unknown\<close>; every
  other collaborator raises.
\<close>

definition down_client :: translate_client where
  "down_client =
     \<lparr>tc_detect_language = (\<lambda>text. Raises (ServiceError (U ''503 unavailable''))),
      tc_get_languages = Raises (ServiceError (U ''503 unavailable'')),
      tc_translate = (\<lambda>text src tgt. Raises (ServiceError (U ''503 unavailable'')))\<rparr>"

definition down_env :: chat_env where
  "down_env =
     \<lparr>env_process_with_moderation =
        (\<lambda>m. Returns (process_with_moderation demo_lib (Returns down_client)
                        (Returns (\<lambda>prompt. Raises (ServiceError (U ''503 unavailable''))))
                        (\<lambda>content. None) m)),
      env_classify_user_intent =
        (\<lambda>m. \<lparr>ir_intent = U ''unknown'', ir_confidence = 0,
                ir_reasoning = U ''OpenAI client not available''\<rparr>),
      env_explanation_agent = None,
      env_explanation_status = U ''error'',
      env_translate_response = (\<lambda>text code. Raises (ServiceError (U ''503 unavailable''))),
      env_validate_pdf_blob = (\<lambda>blob. Raises (ServiceError (U ''503 unavailable''))),
      env_grade_assignment = (\<lambda>blob rubric. Raises (ServiceError (U ''503 unavailable''))),
      env_format_number = (\<lambda>x. []),
      env_format_1f = (\<lambda>x. []),
      env_timestamp = U ''2025-01-01T00:00:00''\<rparr>"

definition demo_clock :: chat_clock where
  "demo_clock = \<lparr>ck_get = 0, ck_put1 = 0, ck_put2 = 0, ck_fallback = 0\<rparr>"

section \<open>Properties of the cache\<close>

lemma fold_delete_filter:
  "fold AList.delete ks c = filter (\<lambda>p. fst p \<notin> set ks) c"
proof (induction ks arbitrary: c)
  case Nil
  then show ?case by simp
next
  case (Cons k ks)
  have "fold AList.delete (k # ks) c = fold AList.delete ks (AList.delete k c)" by simp
  also have "\<dots> = filter (\<lambda>p. fst p \<notin> set ks) (AList.delete k c)" by (rule Cons.IH)
  also have "\<dots> = filter (\<lambda>p. fst p \<notin> set (k # ks)) c"
    unfolding AList.delete_eq filter_filter by (rule filter_cong[OF refl]) auto
  finally show ?case .
qed

lemma cleanup_expired_filter:
  assumes "distinct (map fst c)"
  shows "cleanup_expired t c = filter (\<lambda>p. \<not> expired t (snd p)) c"
proof -
  have "\<And>p. p \<in> set c \<Longrightarrow>
      (fst p \<notin> set (map fst (filter (\<lambda>(key, e). expired t e) c))) = (\<not> expired t (snd p))"
  proof -
    fix p assume p: "p \<in> set c"
    show "(fst p \<notin> set (map fst (filter (\<lambda>(key, e). expired t e) c))) = (\<not> expired t (snd p))"
    proof
      assume "fst p \<notin> set (map fst (filter (\<lambda>(key, e). expired t e) c))"
      then show "\<not> expired t (snd p)" using p by (force simp: case_prod_unfold)
    next
      assume ne: "\<not> expired t (snd p)"
      show "fst p \<notin> set (map fst (filter (\<lambda>(key, e). expired t e) c))"
      proof
        assume "fst p \<in> set (map fst (filter (\<lambda>(key, e). expired t e) c))"
        then obtain q where q: "q \<in> set c" "expired t (snd q)" "fst q = fst p"
          by (auto simp: case_prod_unfold)
        from assms p q have "p = q" by (metis eq_key_imp_eq_value prod.collapse)
        with ne q show False by simp
      qed
    qed
  qed
  then show ?thesis
    unfolding cleanup_expired_def Let_def fold_delete_filter
    by (rule filter_cong[OF refl]) blast
qed

lemma insort_key_snoc_max:
  "f y \<le> f x \<Longrightarrow> insort_key f y (zs @ [x]) = insort_key f y zs @ [x]"
  by (induction zs) auto

lemma sort_key_snoc_max:
  "\<forall>y\<in>set xs. f y \<le> f x \<Longrightarrow> sort_key f (xs @ [x]) = sort_key f xs @ [x]"
proof (induction xs)
  case Nil
  then show ?case by simp
next
  case (Cons a xs)
  then show ?case by (simp add: insort_key_snoc_max)
qed

lemma length_delete_present:
  "distinct (map fst c) \<Longrightarrow> k \<in> fst ` set c \<Longrightarrow> length (AList.delete k c) = length c - 1"
proof (induction c)
  case Nil
  then show ?case by simp
next
  case (Cons p c)
  show ?case
  proof (cases "fst p = k")
    case True
    with Cons.prems have "k \<notin> fst ` set c" by auto
    then have "AList.delete k c = c"
      by (simp add: AList.delete_eq filter_id_conv case_prod_unfold) force
    with True show ?thesis by (simp add: AList.delete_eq case_prod_unfold)
  next
    case False
    with Cons.prems have kc: "k \<in> fst ` set c" and d: "distinct (map fst c)" by auto
    then have "c \<noteq> []" by auto
    with False Cons.IH[OF d kc] show ?thesis
      by (cases c) (auto simp: AList.delete_eq case_prod_unfold)
  qed
qed

lemma remove_oldest_ok:
  "n \<le> length srt \<Longrightarrow> distinct (map fst srt) \<Longrightarrow> fst ` set srt \<subseteq> fst ` set c \<Longrightarrow>
   distinct (map fst c) \<Longrightarrow>
   remove_oldest n srt c = (Returns (), filter (\<lambda>p. fst p \<notin> fst ` set (take n srt)) c)
   \<and> length (snd (remove_oldest n srt c)) = length c - n"
proof (induction n srt c rule: remove_oldest.induct)
  case (1 sorted_items c)
  then show ?case by simp
next
  case (2 n c)
  then show ?case by simp
next
  case (3 n item sorted_items c)
  let ?k = "fst item"
  let ?c' = "AList.delete ?k c"
  from 3(3,4,5) have kin: "?k \<in> fst ` set c" and nk: "?k \<notin> fst ` set sorted_items"
    and ds: "distinct (map fst sorted_items)" by auto
  have sub: "fst ` set sorted_items \<subseteq> fst ` set ?c'"
  proof
    fix x assume x: "x \<in> fst ` set sorted_items"
    with nk have "x \<noteq> ?k" by blast
    moreover from x 3(4) have "x \<in> fst ` set c" by auto
    ultimately show "x \<in> fst ` set ?c'"
      by (force simp: AList.delete_eq case_prod_unfold)
  qed
  have dc': "distinct (map fst ?c')" using 3(5) by (rule distinct_delete)
  from 3(2) have n: "n \<le> length sorted_items" by simp
  note ih = 3(1)[OF kin n ds sub dc']
  have eq1: "remove_oldest (Suc n) (item # sorted_items) c = remove_oldest n sorted_items ?c'"
    using kin by simp
  have eq2: "filter (\<lambda>p. fst p \<notin> fst ` set (take n sorted_items)) ?c'
             = filter (\<lambda>p. fst p \<notin> fst ` set (take (Suc n) (item # sorted_items))) c"
    unfolding AList.delete_eq filter_filter by (rule filter_cong[OF refl]) auto
  have len: "length ?c' = length c - 1" using 3(5) kin by (rule length_delete_present)
  from ih have a: "remove_oldest n sorted_items ?c'
      = (Returns (), filter (\<lambda>p. fst p \<notin> fst ` set (take n sorted_items)) ?c')"
    and b: "length (snd (remove_oldest n sorted_items ?c')) = length ?c' - n" by blast+
  have "remove_oldest (Suc n) (item # sorted_items) c
      = (Returns (), filter (\<lambda>p. fst p \<notin> fst ` set (take (Suc n) (item # sorted_items))) c)"
    by (simp only: eq1 a eq2)
  moreover have "length (snd (remove_oldest (Suc n) (item # sorted_items) c)) = length c - Suc n"
    by (simp only: eq1 b len)
  ultimately show ?case by blast
qed

lemma distinct_keys_sort_key:
  "distinct (map fst c) \<Longrightarrow> distinct (map fst (sort_key f c))"
  by (simp add: distinct_map)

lemma enforce_size_limit_ok:
  assumes "distinct (map fst c)" and "0 \<le> mx"
  shows "fst (enforce_size_limit mx c) = Returns ()"
    and "int (length (snd (enforce_size_limit mx c))) \<le> mx"
    and "distinct (map fst (snd (enforce_size_limit mx c)))"
    and "set (snd (enforce_size_limit mx c)) \<subseteq> set c"
proof -
  let ?srt = "sort_key (\<lambda>x. timestamp (snd x)) c"
  let ?n = "nat (int (length c) - mx)"
  have n: "?n \<le> length ?srt" using assms(2) by simp
  have r: "remove_oldest ?n ?srt c = (Returns (), filter (\<lambda>p. fst p \<notin> fst ` set (take ?n ?srt)) c)
     \<and> length (snd (remove_oldest ?n ?srt c)) = length c - ?n"
    by (rule remove_oldest_ok[OF n distinct_keys_sort_key[OF assms(1)] _ assms(1)]) simp
  then have r1: "remove_oldest ?n ?srt c
      = (Returns (), filter (\<lambda>p. fst p \<notin> fst ` set (take ?n ?srt)) c)" by blast
  have r2: "length (filter (\<lambda>p. fst p \<notin> fst ` set (take ?n ?srt)) c) = length c - ?n"
    using r by (metis snd_conv)
  show "fst (enforce_size_limit mx c) = Returns ()"
    using r1 by (simp add: enforce_size_limit_def Let_def)
  show "int (length (snd (enforce_size_limit mx c))) \<le> mx"
    using r1 r2 assms(2) by (simp add: enforce_size_limit_def Let_def)
  show "distinct (map fst (snd (enforce_size_limit mx c)))"
    using r1 assms(1) by (simp add: enforce_size_limit_def Let_def distinct_map_filter)
  show "set (snd (enforce_size_limit mx c)) \<subseteq> set c"
    using r1 by (auto simp: enforce_size_limit_def Let_def)
qed

lemma put_unfold:
  assumes "generate_key lib m hp = Returns k"
  shows "put lib now1 now2 bc m r hp t =
     (Returns (), bc\<lparr>cache := snd (enforce_size_limit (max_entries bc) (put_stage2 now1 now2 bc k m r t))\<rparr>)"
  using assms
  by (simp add: put_def put_body_def put_stage2_def put_entry_def Let_def
      split: prod.splits outcome.splits)

lemma put_no_key:
  assumes "generate_key lib m hp = Raises e"
  shows "put lib now1 now2 bc m r hp t = (Returns (), bc)"
  using assms by (simp add: put_def put_body_def)

lemma put_returns: "fst (put lib now1 now2 bc m r hp t) = Returns ()"
  by (cases "generate_key lib m hp") (simp_all add: put_unfold put_no_key)

lemma update_nonmember:
  "k \<notin> fst ` set c \<Longrightarrow> AList.update k v c = c @ [(k, v)]"
  by (induction c) auto

lemma length_update_le: "length (AList.update k v c) \<le> Suc (length c)"
  by (induction c) auto

lemma length_update_member:
  "k \<in> fst ` set c \<Longrightarrow> length (AList.update k v c) = length c"
  by (induction c) auto

lemma put_stage2_distinct:
  assumes "distinct (map fst (cache bc))"
  shows "distinct (map fst (put_stage2 now1 now2 bc k m r t))"
proof -
  have d1: "distinct (map fst (AList.update k (put_entry (default_ttl bc) now1 m r t) (cache bc)))"
    using assms by (rule distinct_update)
  show ?thesis
    unfolding put_stage2_def cleanup_expired_filter[OF d1]
    using d1 by (rule distinct_map_filter)
qed

lemma put_size_and_keys:
  assumes "distinct (map fst (cache bc))" and "0 \<le> max_entries bc"
    and gk: "generate_key lib m hp = Returns k"
  shows "int (length (cache (snd (put lib now1 now2 bc m r hp t)))) \<le> max_entries bc"
    and "distinct (map fst (cache (snd (put lib now1 now2 bc m r hp t))))"
    and "max_entries (snd (put lib now1 now2 bc m r hp t)) = max_entries bc"
  using enforce_size_limit_ok(2,3)[OF put_stage2_distinct[OF assms(1)] assms(2)]
  by (simp_all add: put_unfold[OF gk])

lemma put_keeps_new:
  assumes d: "distinct (map fst (cache bc))"
    and len: "int (length (cache bc)) \<le> max_entries bc"
    and mx: "1 \<le> max_entries bc"
    and ts: "\<forall>p\<in>set (cache bc). timestamp (snd p) \<le> now1"
    and ne: "\<not> expired now2 (put_entry (default_ttl bc) now1 m r t)"
    and gk: "generate_key lib m hp = Returns k"
  shows "map_of (cache (snd (put lib now1 now2 bc m r hp t))) k
         = Some (put_entry (default_ttl bc) now1 m r t)"
proof -
  let ?k = "k"
  let ?e = "put_entry (default_ttl bc) now1 m r t"
  let ?c = "cache bc"
  let ?c1 = "AList.update ?k ?e ?c"
  let ?P = "\<lambda>p. \<not> expired now2 (snd p)"
  let ?c2 = "put_stage2 now1 now2 bc k m r t"
  let ?f = "\<lambda>x. timestamp (snd x)"
  let ?mx = "max_entries bc"
  have d1: "distinct (map fst ?c1)" using d by (rule distinct_update)
  have c2: "?c2 = filter ?P ?c1"
    unfolding put_stage2_def by (rule cleanup_expired_filter[OF d1])
  have d2: "distinct (map fst ?c2)" using d by (rule put_stage2_distinct)
  have in1: "(?k, ?e) \<in> set ?c1"
    by (metis map_of_SomeD update_conv' fun_upd_same)
  have in2: "(?k, ?e) \<in> set ?c2" using in1 ne by (simp add: c2)
  let ?res = "snd (enforce_size_limit ?mx ?c2)"
  have dres: "distinct (map fst ?res)"
    using enforce_size_limit_ok(3)[OF d2] mx by simp
  have "(?k, ?e) \<in> set ?res"
  proof (cases "int (length ?c2) \<le> ?mx")
    case True
    then show ?thesis using in2 by (simp add: enforce_size_limit_def)
  next
    case False
    have knew: "?k \<notin> fst ` set ?c"
    proof
      assume "?k \<in> fst ` set ?c"
      then have "length ?c1 = length ?c" by (rule length_update_member)
      moreover have "length ?c2 \<le> length ?c1" by (simp add: c2)
      ultimately show False using False len by simp
    qed
    then have c1: "?c1 = ?c @ [(?k, ?e)]" by (rule update_nonmember)
    let ?cf = "filter ?P ?c"
    have c2': "?c2 = ?cf @ [(?k, ?e)]" using ne by (simp add: c2 c1)
    have le: "\<forall>y\<in>set ?cf. ?f y \<le> ?f (?k, ?e)" using ts by (simp add: put_entry_def)
    have srt: "sort_key ?f ?c2 = sort_key ?f ?cf @ [(?k, ?e)]"
      unfolding c2' using le by (rule sort_key_snoc_max)
    let ?n = "nat (int (length ?c2) - ?mx)"
    have n: "?n \<le> length (sort_key ?f ?cf)" using mx by (simp add: c2')
    have n2: "?n \<le> length (sort_key ?f ?c2)" using mx by simp
    have tk: "take ?n (sort_key ?f ?c2) = take ?n (sort_key ?f ?cf)"
      using n by (simp add: srt)
    have ro: "remove_oldest ?n (sort_key ?f ?c2) ?c2
        = (Returns (), filter (\<lambda>p. fst p \<notin> fst ` set (take ?n (sort_key ?f ?c2))) ?c2)"
      using remove_oldest_ok[OF n2 distinct_keys_sort_key[OF d2] _ d2] by simp
    have sub: "fst ` set (take ?n (sort_key ?f ?cf)) \<subseteq> fst ` set ?c"
      using set_take_subset[of ?n "sort_key ?f ?cf"] by auto
    have "?k \<notin> fst ` set (take ?n (sort_key ?f ?cf))"
      using knew sub by blast
    then have "?k \<notin> fst ` set (take ?n (sort_key ?f ?c2))" unfolding tk .
    with in2 have "(?k, ?e) \<in> set (filter (\<lambda>p. fst p \<notin> fst ` set (take ?n (sort_key ?f ?c2))) ?c2)"
      by simp
    then show ?thesis using False ro by (simp add: enforce_size_limit_def Let_def)
  qed
  with dres have "map_of ?res ?k = Some ?e" by simp
  then show ?thesis by (simp add: put_unfold[OF gk])
qed

lemma get_no_key:
  "generate_key lib m hp = Raises e \<Longrightarrow> get lib now bc m hp = (Returns None, bc)"
  by (simp add: get_def get_body_def)

lemma get_miss:
  "generate_key lib m hp = Returns k \<Longrightarrow> map_of (cache bc) k = None \<Longrightarrow>
   get lib now bc m hp = (Returns None, bc)"
  by (simp add: get_def get_body_def)

lemma get_hit:
  "generate_key lib m hp = Returns k \<Longrightarrow> map_of (cache bc) k = Some e \<Longrightarrow>
   \<not> expired now e \<Longrightarrow> get lib now bc m hp = (Returns (Some (val e)), bc)"
  by (simp add: get_def get_body_def)

lemma get_expired:
  "generate_key lib m hp = Returns k \<Longrightarrow> map_of (cache bc) k = Some e \<Longrightarrow> expired now e \<Longrightarrow>
   get lib now bc m hp = (Returns None, bc\<lparr>cache := AList.delete k (cache bc)\<rparr>)"
  by (simp add: get_def get_body_def)

lemma generate_key_cases:
  "generate_key lib m hp =
     (if \<exists>c\<in>set (normalize_key lib m). 0xD800 \<le> c \<and> c \<le> 0xDFFF then Raises UnicodeEncodeError
      else Returns (take 16 (md5_hexdigest lib (concat (map utf8_bytes
             (normalize_key lib m @ U ''|pdf:'' @ (if hp then U ''True'' else U ''False'')))))))"
  by (simp add: generate_key_def str_encode_def Let_def U_def)

lemma put_drops_expired_new:
  assumes d: "distinct (map fst (cache bc))" and mx: "0 \<le> max_entries bc"
    and ex: "expired now2 (put_entry (default_ttl bc) now1 m r t)"
    and gk: "generate_key lib m hp = Returns k"
  shows "k \<notin> fst ` set (cache (snd (put lib now1 now2 bc m r hp t)))"
proof -
  let ?k = "k"
  let ?e = "put_entry (default_ttl bc) now1 m r t"
  let ?c1 = "AList.update ?k ?e (cache bc)"
  let ?c2 = "put_stage2 now1 now2 bc k m r t"
  have d1: "distinct (map fst ?c1)" using d by (rule distinct_update)
  have c2: "?c2 = filter (\<lambda>p. \<not> expired now2 (snd p)) ?c1"
    unfolding put_stage2_def by (rule cleanup_expired_filter[OF d1])
  have m1: "map_of ?c1 ?k = Some ?e" by (simp add: update_conv')
  have "?k \<notin> fst ` set ?c2"
  proof
    assume "?k \<in> fst ` set ?c2"
    then obtain e' where e': "(?k, e') \<in> set ?c1" "\<not> expired now2 e'"
      by (auto simp: c2)
    with d1 have "map_of ?c1 ?k = Some e'" by simp
    with m1 have "e' = ?e" by simp
    with e' ex show False by simp
  qed
  moreover have "set (snd (enforce_size_limit (max_entries bc) ?c2)) \<subseteq> set ?c2"
    by (rule enforce_size_limit_ok(4)[OF put_stage2_distinct[OF d] mx])
  ultimately show ?thesis by (auto simp: put_unfold[OF gk])
qed

lemma expired_put_entry:
  "expired now (put_entry dflt now1 m r t) \<longleftrightarrow> now - now1 > of_int (cache_ttl_of dflt t)"
  by (simp add: expired_def put_entry_def)

text \<open>
  Claim C3 (cache round trip), amended to messages whose key can be generated.  The key data
  of a message is its normalised text followed by the PDF flag, and it has a UTF-8 encoding
  exactly when the normalised text holds no surrogate code point.  For such a message, on a
  cache whose dict is within its size limit (of at least one entry) and holds no timestamp
  later than the clock, \<open>put(m, r, False)\<close> returns normally and a \<open>get(m, False)\<close> that
  follows within the default TTL returns, never \<open>None\<close>, the dict of the five keys
  \<open>bot_response\<close>, \<open>translation_info\<close>, \<open>explanation_result\<close>, \<open>final_approved\<close> and
  \<open>success\<close>, each with the value \<open>r\<close> has for it, or with \<open>''\<close>, \<open>None\<close>, \<open>None\<close>,
  \<open>True\<close>, \<open>True\<close> where \<open>r\<close> lacks the key.  For a message whose normalised text
  holds a surrogate, \<open>put\<close> returns normally and leaves the cache as it was, and \<open>get\<close>
  returns \<open>None\<close>.
\<close>

theorem cache_round_trip:
  "(distinct (map fst (cache bc))
      \<and> int (length (cache bc)) \<le> max_entries bc \<and> 1 \<le> max_entries bc
      \<and> (\<forall>p\<in>set (cache bc). timestamp (snd p) \<le> now1)
      \<and> now1 \<le> now2 \<and> now2 \<le> now3 \<and> now3 - now1 \<le> of_int (default_ttl bc)
      \<and> (\<forall>c\<in>set (normalize_key lib m). c < 0xD800 \<or> 0xDFFF < c) \<longrightarrow>
      fst (put lib now1 now2 bc m r False None) = Returns ()
    \<and> fst (get lib now3 (snd (put lib now1 now2 bc m r False None)) m False)
        = Returns (Some
            [(''bot_response'',
                case map_of r ''bot_response'' of None \<Rightarrow> PyStr [] | Some v \<Rightarrow> v),
             (''translation_info'',
                case map_of r ''translation_info'' of None \<Rightarrow> PyNone | Some v \<Rightarrow> v),
             (''explanation_result'',
                case map_of r ''explanation_result'' of None \<Rightarrow> PyNone | Some v \<Rightarrow> v),
             (''final_approved'',
                case map_of r ''final_approved'' of None \<Rightarrow> PyBool True | Some v \<Rightarrow> v),
             (''success'',
                case map_of r ''success'' of None \<Rightarrow> PyBool True | Some v \<Rightarrow> v)]))
   \<and> ((\<exists>c\<in>set (normalize_key lib m). 0xD800 \<le> c \<and> c \<le> 0xDFFF) \<longrightarrow>
      put lib now1 now2 bc m r False None = (Returns (), bc)
    \<and> get lib now3 bc m False = (Returns None, bc))"
proof (intro conjI impI)
  assume h: "distinct (map fst (cache bc))
      \<and> int (length (cache bc)) \<le> max_entries bc \<and> 1 \<le> max_entries bc
      \<and> (\<forall>p\<in>set (cache bc). timestamp (snd p) \<le> now1)
      \<and> now1 \<le> now2 \<and> now2 \<le> now3 \<and> now3 - now1 \<le> of_int (default_ttl bc)
      \<and> (\<forall>c\<in>set (normalize_key lib m). c < 0xD800 \<or> 0xDFFF < c)"
  let ?e = "put_entry (default_ttl bc) now1 m r None"
  let ?bc' = "snd (put lib now1 now2 bc m r False None)"
  from h have "\<not> (\<exists>c\<in>set (normalize_key lib m). 0xD800 \<le> c \<and> c \<le> 0xDFFF)"
    by (metis not_less)
  then obtain k where gk: "generate_key lib m False = Returns k"
    by (simp add: generate_key_cases)
  have ne2: "\<not> expired now2 ?e" using h by (simp add: expired_put_entry cache_ttl_of_def)
  have ne3: "\<not> expired now3 ?e" using h by (simp add: expired_put_entry cache_ttl_of_def)
  have d: "distinct (map fst (cache bc))" and len: "int (length (cache bc)) \<le> max_entries bc"
    and mx: "1 \<le> max_entries bc" and ts: "\<forall>p\<in>set (cache bc). timestamp (snd p) \<le> now1"
    using h by blast+
  have "map_of (cache ?bc') k = Some ?e" using d len mx ts ne2 gk by (rule put_keeps_new)
  from get_hit[OF gk this ne3]
  show "fst (get lib now3 ?bc' m False)
        = Returns (Some
            [(''bot_response'',
                case map_of r ''bot_response'' of None \<Rightarrow> PyStr [] | Some v \<Rightarrow> v),
             (''translation_info'',
                case map_of r ''translation_info'' of None \<Rightarrow> PyNone | Some v \<Rightarrow> v),
             (''explanation_result'',
                case map_of r ''explanation_result'' of None \<Rightarrow> PyNone | Some v \<Rightarrow> v),
             (''final_approved'',
                case map_of r ''final_approved'' of None \<Rightarrow> PyBool True | Some v \<Rightarrow> v),
             (''success'',
                case map_of r ''success'' of None \<Rightarrow> PyBool True | Some v \<Rightarrow> v)])"
    by (simp add: put_entry_def cached_response_of_def dict_get_def)
  show "fst (put lib now1 now2 bc m r False None) = Returns ()" by (rule put_returns)
next
  assume "\<exists>c\<in>set (normalize_key lib m). 0xD800 \<le> c \<and> c \<le> 0xDFFF"
  then have gk: "generate_key lib m False = Raises UnicodeEncodeError"
    by (simp add: generate_key_cases)
  show "put lib now1 now2 bc m r False None = (Returns (), bc)" using gk by (rule put_no_key)
  show "get lib now3 bc m False = (Returns None, bc)" using gk by (rule get_no_key)
qed

text \<open>
  Claim C5 (TTL semantics), amended to TTL overrides other than 0.  After
  \<open>put(m, r, False, ttl = t)\<close> with \<open>t \<noteq> 0\<close> has inserted an entry under the key \<open>k\<close> of
  \<open>m\<close> at clock reading \<open>now1\<close>, a \<open>get\<close> at reading
  \<open>now3\<close> returns the stored payload and leaves the cache as it is whenever
  \<open>now3 - now1 \<le> t\<close>, and returns \<open>None\<close> with the key gone from the cache whenever
  \<open>now3 - now1 > t\<close>.  An override of 0 is the same call as no override: the default TTL
  applies.
\<close>

theorem cache_ttl_semantics:
  assumes "distinct (map fst (cache bc))"
    and "int (length (cache bc)) \<le> max_entries bc"
    and "1 \<le> max_entries bc"
    and "\<forall>p\<in>set (cache bc). timestamp (snd p) \<le> now1"
    and "now1 \<le> now2" and "now2 \<le> now3"
    and "t \<noteq> 0"
    and "generate_key lib m False = Returns k"
  shows "(now3 - now1 \<le> of_int t \<longrightarrow>
            get lib now3 (snd (put lib now1 now2 bc m r False (Some t))) m False
              = (Returns (Some (cached_response_of r)), snd (put lib now1 now2 bc m r False (Some t))))
       \<and> (now3 - now1 > of_int t \<longrightarrow>
            fst (get lib now3 (snd (put lib now1 now2 bc m r False (Some t))) m False) = Returns None
          \<and> k \<notin> fst ` set (cache (snd (get lib now3 (snd (put lib now1 now2 bc m r False (Some t))) m False))))
       \<and> put lib now1 now2 bc m r False (Some 0) = put lib now1 now2 bc m r False None"
proof -
  let ?e = "put_entry (default_ttl bc) now1 m r (Some t)"
  let ?bc' = "snd (put lib now1 now2 bc m r False (Some t))"
  let ?k = "k"
  note gk = assms(8)
  have ttl: "cache_ttl_of (default_ttl bc) (Some t) = t" using assms(7) by (simp add: cache_ttl_of_def)
  have mx0: "0 \<le> max_entries bc" using assms(3) by simp
  have dk: "distinct (map fst (cache ?bc'))" using assms(1) mx0 gk by (rule put_size_and_keys(2))
  have A: "now3 - now1 \<le> of_int t \<longrightarrow>
            get lib now3 ?bc' m False = (Returns (Some (cached_response_of r)), ?bc')"
  proof
    assume le: "now3 - now1 \<le> of_int t"
    have ne2: "\<not> expired now2 ?e" using le assms(6) by (simp add: expired_put_entry ttl)
    have ne3: "\<not> expired now3 ?e" using le by (simp add: expired_put_entry ttl)
    have "map_of (cache ?bc') ?k = Some ?e" using assms(1,2,3,4) ne2 gk by (rule put_keeps_new)
    from get_hit[OF gk this ne3] show "get lib now3 ?bc' m False = (Returns (Some (cached_response_of r)), ?bc')"
      by (simp add: put_entry_def)
  qed
  have B: "now3 - now1 > of_int t \<longrightarrow>
            fst (get lib now3 ?bc' m False) = Returns None
          \<and> ?k \<notin> fst ` set (cache (snd (get lib now3 ?bc' m False)))"
  proof
    assume gt: "now3 - now1 > of_int t"
    have ex3: "expired now3 ?e" using gt by (simp add: expired_put_entry ttl)
    show "fst (get lib now3 ?bc' m False) = Returns None
          \<and> ?k \<notin> fst ` set (cache (snd (get lib now3 ?bc' m False)))"
    proof (cases "expired now2 ?e")
      case True
      have nk: "?k \<notin> fst ` set (cache ?bc')" using assms(1) mx0 True gk by (rule put_drops_expired_new)
      then have "map_of (cache ?bc') ?k = None" by (simp add: map_of_eq_None_iff)
      from get_miss[OF gk this] nk show ?thesis by simp
    next
      case False
      have "map_of (cache ?bc') ?k = Some ?e" using assms(1,2,3,4) False gk by (rule put_keeps_new)
      from get_expired[OF gk this ex3] show ?thesis by (simp add: delete_notin_dom)
    qed
  qed
  have pe: "put_entry (default_ttl bc) now1 m r (Some 0) = put_entry (default_ttl bc) now1 m r None"
    by (simp add: put_entry_def cache_ttl_of_def)
  have C: "put lib now1 now2 bc m r False (Some 0) = put lib now1 now2 bc m r False None"
    unfolding put_def put_body_def pe ..
  from A B C show ?thesis by blast
qed

lemmas eval_defs = init_cache_def put_def put_body_def put_entry_def cache_ttl_of_def
  cached_response_of_def dict_get_def generate_key_def str_encode_def utf8_bytes_def
  normalize_key_def strip_def lstrip_def
  rstrip_def is_space_def U_def demo_lib_def ascii_lower_def cleanup_expired_def expired_def
  enforce_size_limit_def get_def get_body_def Let_def

text \<open>
  The round trip of claim C3 on the default cache (200 entries, one hour), with a payload
  that has two of the five keys; and a message that is a lone surrogate, for which nothing
  is stored.
\<close>

theorem cache_round_trip_witness:
  "fst (get demo_lib 0 (snd (put demo_lib 0 0 (init_cache 200 3600) (U ''hi'')
          [(''bot_response'', PyStr (U ''yo'')), (''success'', PyBool False)] False None))
          (U ''hi'') False)
   = Returns (Some [(''bot_response'', PyStr (U ''yo'')), (''translation_info'', PyNone),
        (''explanation_result'', PyNone), (''final_approved'', PyBool True),
        (''success'', PyBool False)])
   \<and> put demo_lib 0 0 (init_cache 200 3600) [0xD800] [(''bot_response'', PyStr (U ''yo''))] False None
       = (Returns (), init_cache 200 3600)"
  using cache_round_trip[of "init_cache 200 3600" 0 0 0 demo_lib "U ''hi''"
      "[(''bot_response'', PyStr (U ''yo'')), (''success'', PyBool False)]"]
    cache_round_trip[of "init_cache 200 3600" 0 0 0 demo_lib "[0xD800]"
      "[(''bot_response'', PyStr (U ''yo''))]"]
  by (simp add: init_cache_def normalize_key_def strip_def lstrip_def rstrip_def is_space_def
      U_def demo_lib_def ascii_lower_def)

text \<open>
  Claim C3 as stated fails for a message that cannot be encoded: after \<open>put\<close> of the
  one-character message U+D800 the \<open>get\<close> of the same message returns \<open>None\<close>.
\<close>

theorem cache_round_trip_surrogate_counterexample:
  "fst (get demo_lib 0 (snd (put demo_lib 0 0 (init_cache 200 3600) [0xD800]
          [(''bot_response'', PyStr (U ''yo''))] False None)) [0xD800] False)
   = Returns None"
  by (simp add: eval_defs)

text \<open>
  Claim C5 as stated fails for the override \<open>t = 0\<close>: the entry is still returned one second
  after its insertion.
\<close>

theorem cache_ttl_zero_counterexample:
  "fst (get demo_lib 1 (snd (put demo_lib 0 0 (init_cache 200 3600) (U ''hi'') [] False (Some 0)))
          (U ''hi'') False) \<noteq> Returns None"
  by (simp add: eval_defs)

text \<open>Claim C5 with \<open>t = 60\<close>: present after 60 seconds, absent after 61.\<close>

theorem cache_ttl_semantics_witness:
  "get demo_lib 60 (snd (put demo_lib 0 0 (init_cache 200 3600) (U ''hi'') [] False (Some 60))) (U ''hi'') False
     = (Returns (Some (cached_response_of [])), snd (put demo_lib 0 0 (init_cache 200 3600) (U ''hi'') [] False (Some 60)))
   \<and> fst (get demo_lib 61 (snd (put demo_lib 0 0 (init_cache 200 3600) (U ''hi'') [] False (Some 60))) (U ''hi'') False)
     = Returns None"
proof -
  have gk: "generate_key demo_lib (U ''hi'') False = Returns (U ''hi|pdf:False'')"
    by (simp add: generate_key_def str_encode_def utf8_bytes_def normalize_key_def strip_def
        lstrip_def rstrip_def is_space_def U_def demo_lib_def ascii_lower_def)
  show ?thesis
    using cache_ttl_semantics[where bc = "init_cache 200 3600" and ?now1.0 = 0 and ?now2.0 = 0
        and ?now3.0 = 60 and t = 60 and lib = demo_lib and m = "U ''hi''" and r = "[]", OF _ _ _ _ _ _ _ gk]
      cache_ttl_semantics[where bc = "init_cache 200 3600" and ?now1.0 = 0 and ?now2.0 = 0
        and ?now3.0 = 61 and t = 60 and lib = demo_lib and m = "U ''hi''" and r = "[]", OF _ _ _ _ _ _ _ gk]
    by (simp add: init_cache_def)
qed

lemma get_unchanged:
  assumes "\<forall>p\<in>set (cache bc). \<not> expired now (snd p)"
  shows "snd (get lib now bc m hp) = bc"
proof (cases "generate_key lib m hp")
  case (Raises e)
  then show ?thesis by (simp add: get_no_key)
next
  case (Returns k)
  show ?thesis
  proof (cases "map_of (cache bc) k")
    case None
    with Returns show ?thesis by (simp add: get_miss)
  next
    case (Some e)
    then have "(k, e) \<in> set (cache bc)" by (rule map_of_SomeD)
    with assms have "\<not> expired now e" by force
    with Returns Some show ?thesis by (simp add: get_hit)
  qed
qed

lemma filter_hd_key:
  "distinct (map fst xs) \<Longrightarrow> xs \<noteq> [] \<Longrightarrow> filter (\<lambda>p. fst p \<noteq> fst (hd xs)) xs = tl xs"
proof (cases xs)
  case Nil
  assume "xs \<noteq> []" with Nil show ?thesis by simp
next
  case (Cons a ys)
  assume "distinct (map fst xs)"
  with Cons have "fst a \<notin> fst ` set ys" by simp
  then have "\<forall>p\<in>set ys. fst p \<noteq> fst a" by (metis imageI)
  then have "filter (\<lambda>p. fst p \<noteq> fst a) ys = ys" by (simp add: filter_id_conv)
  with Cons show ?thesis by simp
qed

lemma put_stage2_append:
  assumes d: "distinct (map fst (cache bc))"
    and knew: "k \<notin> fst ` set (cache bc)"
    and nex: "\<forall>p\<in>set (cache bc). \<not> expired now2 (snd p)"
    and ne: "\<not> expired now2 (put_entry (default_ttl bc) now1 m r t)"
  shows "put_stage2 now1 now2 bc k m r t
         = cache bc @ [(k, put_entry (default_ttl bc) now1 m r t)]"
proof -
  let ?k = "k"
  let ?e = "put_entry (default_ttl bc) now1 m r t"
  have u: "AList.update ?k ?e (cache bc) = cache bc @ [(?k, ?e)]"
    using knew by (rule update_nonmember)
  have d1: "distinct (map fst (cache bc @ [(?k, ?e)]))" using d knew by simp
  have "filter (\<lambda>p. \<not> expired now2 (snd p)) (cache bc) = cache bc"
    using nex by (simp add: filter_id_conv)
  then show ?thesis
    unfolding put_stage2_def u cleanup_expired_filter[OF d1] using ne by simp
qed

lemma put_append:
  assumes d: "distinct (map fst (cache bc))"
    and knew: "k \<notin> fst ` set (cache bc)"
    and nex: "\<forall>p\<in>set (cache bc). \<not> expired now2 (snd p)"
    and ne: "\<not> expired now2 (put_entry (default_ttl bc) now1 m r t)"
    and len: "int (length (cache bc)) < max_entries bc"
    and gk: "generate_key lib m hp = Returns k"
  shows "snd (put lib now1 now2 bc m r hp t)
         = bc\<lparr>cache := cache bc @ [(k, put_entry (default_ttl bc) now1 m r t)]\<rparr>"
  using len by (simp add: put_unfold[OF gk] put_stage2_append[OF d knew nex ne] enforce_size_limit_def)

lemma put_evict:
  assumes d: "distinct (map fst (cache bc))"
    and knew: "k \<notin> fst ` set (cache bc)"
    and nex: "\<forall>p\<in>set (cache bc). \<not> expired now2 (snd p)"
    and ne: "\<not> expired now2 (put_entry (default_ttl bc) now1 m r t)"
    and len: "int (length (cache bc)) = max_entries bc"
    and srt: "sorted (map (\<lambda>x. timestamp (snd x)) (cache bc))"
    and ts: "\<forall>p\<in>set (cache bc). timestamp (snd p) \<le> now1"
    and gk: "generate_key lib m hp = Returns k"
  shows "snd (put lib now1 now2 bc m r hp t)
         = bc\<lparr>cache := tl (cache bc @ [(k, put_entry (default_ttl bc) now1 m r t)])\<rparr>"
proof -
  let ?k = "k"
  let ?e = "put_entry (default_ttl bc) now1 m r t"
  let ?cc = "cache bc @ [(?k, ?e)]"
  let ?f = "\<lambda>x. timestamp (snd x)"
  have s2: "put_stage2 now1 now2 bc k m r t = ?cc" by (rule put_stage2_append[OF d knew nex ne])
  have dcc: "distinct (map fst ?cc)" using d knew by simp
  have "sorted (map ?f ?cc)" using srt ts by (simp add: sorted_append put_entry_def)
  then have sk: "sort_key ?f ?cc = ?cc" by (rule sort_key_id_if_sorted)
  have n: "nat (int (length ?cc) - max_entries bc) = Suc 0" using len by simp
  have ro: "remove_oldest (Suc 0) ?cc ?cc
      = (Returns (), filter (\<lambda>p. fst p \<notin> fst ` set (take (Suc 0) ?cc)) ?cc)"
    using remove_oldest_ok[of "Suc 0" ?cc ?cc, OF _ dcc _ dcc] by simp
  have tk: "take (Suc 0) ?cc = [hd ?cc]" by (cases "cache bc") simp_all
  have "filter (\<lambda>p. fst p \<notin> fst ` set (take (Suc 0) ?cc)) ?cc
      = filter (\<lambda>p. fst p \<noteq> fst (hd ?cc)) ?cc"
    unfolding tk by simp
  also have "\<dots> = tl ?cc" by (rule filter_hd_key[OF dcc]) simp
  finally have fl: "filter (\<lambda>p. fst p \<notin> fst ` set (take (Suc 0) ?cc)) ?cc = tl ?cc" .
  have nle: "\<not> int (length ?cc) \<le> max_entries bc" using len by simp
  have "enforce_size_limit (max_entries bc) ?cc = (Returns (), tl ?cc)"
    unfolding enforce_size_limit_def Let_def sk n ro fl using nle by (simp only: if_False)
  then have "snd (enforce_size_limit (max_entries bc) ?cc) = tl ?cc" by simp
  then show ?thesis by (simp add: put_unfold[OF gk] s2)
qed

lemma put_keeps_config:
  "max_entries (snd (put lib now1 now2 bc m r hp t)) = max_entries bc"
  "default_ttl (snd (put lib now1 now2 bc m r hp t)) = default_ttl bc"
  by (cases "generate_key lib m hp"; simp add: put_unfold put_no_key)+

lemma run_ops_Cons: "run_ops lib bc (x # ops) = run_ops lib (apply_op lib bc x) ops"
  by (simp add: run_ops_def)

lemma run_ops_keys:
  assumes "distinct (map fst (cache bc) @ put_keys lib ops)"
    and "sorted (map (\<lambda>x. timestamp (snd x)) (cache bc) @ clock_readings ops)"
    and "\<forall>e\<in>snd ` set (cache bc) \<union> set (put_entries lib (default_ttl bc) ops).
           \<forall>t\<in>set (clock_readings ops). \<not> expired t e"
    and "int (length (cache bc)) \<le> max_entries bc"
    and "int (length (cache bc) + length (put_keys lib ops)) \<le> max_entries bc + 1"
  shows "map fst (cache (run_ops lib bc ops))
         = (if int (length (cache bc) + length (put_keys lib ops)) \<le> max_entries bc
            then map fst (cache bc) @ put_keys lib ops
            else tl (map fst (cache bc) @ put_keys lib ops))"
  using assms
proof (induction ops arbitrary: bc)
  case Nil
  then show ?case by (simp add: run_ops_def)
next
  case (Cons x ops)
  show ?case
  proof (cases x)
    case (Get now m)
    have "\<forall>p\<in>set (cache bc). \<not> expired now (snd p)"
      using Cons.prems(3) by (simp add: Get clock_readings_def)
    then have same: "apply_op lib bc x = bc" by (simp add: Get get_unchanged)
    have p1: "distinct (map fst (cache bc) @ put_keys lib ops)"
      using Cons.prems(1) by (simp add: Get)
    have p2: "sorted (map (\<lambda>x. timestamp (snd x)) (cache bc) @ clock_readings ops)"
      using Cons.prems(2) by (simp add: Get clock_readings_def sorted_append)
    have p3: "\<forall>e\<in>snd ` set (cache bc) \<union> set (put_entries lib (default_ttl bc) ops).
           \<forall>t\<in>set (clock_readings ops). \<not> expired t e"
      using Cons.prems(3) by (simp add: Get clock_readings_def)
    have p5: "int (length (cache bc) + length (put_keys lib ops)) \<le> max_entries bc + 1"
      using Cons.prems(5) by (simp add: Get)
    from Cons.IH[OF p1 p2 p3 Cons.prems(4) p5]
    show ?thesis by (simp add: run_ops_Cons same) (simp add: Get)
  next
    case (Put now1 now2 m r t)
    show ?thesis
    proof (cases "generate_key lib m False")
    case (Raises err)
    then have same: "apply_op lib bc x = bc" by (simp add: Put put_no_key)
    have p1: "distinct (map fst (cache bc) @ put_keys lib ops)"
      using Cons.prems(1) by (simp add: Put Raises)
    have p2: "sorted (map (\<lambda>x. timestamp (snd x)) (cache bc) @ clock_readings ops)"
      using Cons.prems(2) by (simp add: Put clock_readings_def sorted_append)
    have p3: "\<forall>e\<in>snd ` set (cache bc) \<union> set (put_entries lib (default_ttl bc) ops).
           \<forall>t\<in>set (clock_readings ops). \<not> expired t e"
      using Cons.prems(3) by (simp add: Put Raises clock_readings_def)
    have p5: "int (length (cache bc) + length (put_keys lib ops)) \<le> max_entries bc + 1"
      using Cons.prems(5) by (simp add: Put Raises)
    from Cons.IH[OF p1 p2 p3 Cons.prems(4) p5]
    show ?thesis by (simp add: run_ops_Cons same) (simp add: Put Raises)
    next
    case (Returns k)
    note gk = Returns
    let ?k = "k"
    let ?e = "put_entry (default_ttl bc) now1 m r t"
    let ?c = "cache bc"
    let ?cc = "?c @ [(?k, ?e)]"
    let ?f = "\<lambda>x. timestamp (snd x)"
    have d: "distinct (map fst ?c)" using Cons.prems(1) by simp
    have knew: "?k \<notin> fst ` set ?c" using Cons.prems(1) by (simp add: Put gk)
    have nex: "\<forall>p\<in>set ?c. \<not> expired now2 (snd p)"
      using Cons.prems(3) by (simp add: Put clock_readings_def)
    have ne: "\<not> expired now2 ?e"
      using Cons.prems(3) by (simp add: Put gk clock_readings_def)
    have srt: "sorted (map ?f ?c)" using Cons.prems(2) by (simp add: sorted_append)
    have ts: "\<forall>p\<in>set ?c. timestamp (snd p) \<le> now1"
      using Cons.prems(2) by (simp add: Put clock_readings_def sorted_append)
    have dcc: "distinct (map fst ?cc @ put_keys lib ops)"
      using Cons.prems(1) by (simp add: Put gk)
    have tse: "timestamp ?e = now1" by (simp add: put_entry_def)
    have scc: "sorted (map ?f ?cc @ clock_readings ops)"
      using Cons.prems(2) by (simp add: Put clock_readings_def sorted_append tse)
    have ncc: "\<forall>e\<in>snd ` set ?cc \<union> set (put_entries lib (default_ttl bc) ops).
           \<forall>t\<in>set (clock_readings ops). \<not> expired t e"
      using Cons.prems(3) by (simp add: Put gk clock_readings_def)
    show ?thesis
    proof (cases "int (length ?c) < max_entries bc")
      case True
      let ?bc' = "bc\<lparr>cache := ?cc\<rparr>"
      have ap: "apply_op lib bc x = ?bc'"
        by (simp add: Put put_append[OF d knew nex ne True gk])
      have q1: "distinct (map fst (cache ?bc') @ put_keys lib ops)" using dcc by simp
      have q2: "sorted (map ?f (cache ?bc') @ clock_readings ops)" using scc by simp
      have q3: "\<forall>e\<in>snd ` set (cache ?bc') \<union> set (put_entries lib (default_ttl ?bc') ops).
           \<forall>t\<in>set (clock_readings ops). \<not> expired t e" using ncc by simp
      have q4: "int (length (cache ?bc')) \<le> max_entries ?bc'" using True by simp
      have q5: "int (length (cache ?bc') + length (put_keys lib ops)) \<le> max_entries ?bc' + 1"
        using Cons.prems(5) by (simp add: Put gk)
      from Cons.IH[OF q1 q2 q3 q4 q5]
      show ?thesis by (simp add: run_ops_Cons ap) (simp add: Put gk)
    next
      case False
      with Cons.prems(4) have len: "int (length ?c) = max_entries bc" by simp
      with Cons.prems(5) have noputs: "put_keys lib ops = []" by (simp add: Put gk)
      let ?bc' = "bc\<lparr>cache := tl ?cc\<rparr>"
      have ap: "snd (put lib now1 now2 bc m r False t) = ?bc'"
        by (rule put_evict[OF d knew nex ne len srt ts gk])
      have sub: "set (tl ?cc) \<subseteq> set ?cc"
        by (rule subsetI, erule list.set_sel(2)[rotated]) simp
      have q1: "distinct (map fst (cache ?bc') @ put_keys lib ops)"
        using dcc noputs by (simp add: map_tl distinct_tl del: map_append)
      have "sorted (map ?f ?cc)" using scc by (simp add: sorted_append)
      then have "sorted (map ?f (tl ?cc))" by (simp add: map_tl sorted_tl del: map_append)
      moreover have "\<forall>a\<in>set (map ?f (tl ?cc)). \<forall>b\<in>set (clock_readings ops). a \<le> b"
      proof -
        have "\<forall>a\<in>set (map ?f ?cc). \<forall>b\<in>set (clock_readings ops). a \<le> b"
          using scc unfolding sorted_append by blast
        moreover have "set (map ?f (tl ?cc)) \<subseteq> set (map ?f ?cc)"
          using sub unfolding set_map by (rule image_mono)
        ultimately show ?thesis by blast
      qed
      moreover have "sorted (clock_readings ops)" using scc by (simp add: sorted_append)
      ultimately have q2: "sorted (map ?f (cache ?bc') @ clock_readings ops)"
        by (simp add: sorted_append)
      have q3: "\<forall>e\<in>snd ` set (cache ?bc') \<union> set (put_entries lib (default_ttl ?bc') ops).
           \<forall>t\<in>set (clock_readings ops). \<not> expired t e"
      proof -
        have "snd ` set (tl ?cc) \<subseteq> snd ` set ?cc" using sub by (rule image_mono)
        then show ?thesis using ncc by (simp del: set_append) blast
      qed
      have q4: "int (length (cache ?bc')) \<le> max_entries ?bc'" using len by simp
      have q5: "int (length (cache ?bc') + length (put_keys lib ops)) \<le> max_entries ?bc' + 1"
        using len noputs by simp
      from Cons.IH[OF q1 q2 q3 q4 q5]
      have "map fst (cache (run_ops lib ?bc' ops)) = map fst (tl ?cc)"
        using len noputs by simp
      then show ?thesis using len noputs by (simp add: run_ops_Cons Put gk ap map_tl)
    qed
    qed
  qed
qed

lemma put_entries_later:
  "sorted (a # clock_readings ops) \<Longrightarrow> e \<in> set (put_entries lib dttl ops) \<Longrightarrow> a \<le> timestamp e"
proof (induction ops)
  case Nil
  then show ?case by simp
next
  case (Cons x ops)
  show ?case
  proof (cases x)
    case (Put now1 now2 m r t)
    from Cons.prems(1) have s: "sorted (a # clock_readings ops)" and a1: "a \<le> now1"
      by (simp_all add: Put clock_readings_def)
    from Cons.prems(2) have "e = put_entry dttl now1 m r t \<or> e \<in> set (put_entries lib dttl ops)"
      by (cases "generate_key lib m False") (simp_all add: Put)
    then show ?thesis
    proof
      assume "e = put_entry dttl now1 m r t"
      then show ?thesis using a1 by (simp add: put_entry_def)
    next
      assume "e \<in> set (put_entries lib dttl ops)"
      with s show ?thesis by (rule Cons.IH)
    qed
  next
    case (Get now m)
    from Cons.prems(1) have s: "sorted (a # clock_readings ops)"
      by (simp add: Get clock_readings_def)
    from Cons.prems(2) have "e \<in> set (put_entries lib dttl ops)" by (simp add: Get)
    with s show ?thesis by (rule Cons.IH)
  qed
qed

lemma first_put_oldest:
  "sorted (clock_readings ops) \<Longrightarrow> e \<in> set (put_entries lib dttl ops) \<Longrightarrow>
   timestamp (hd (put_entries lib dttl ops)) \<le> timestamp e"
proof (induction ops)
  case Nil
  then show ?case by simp
next
  case (Cons x ops)
  show ?case
  proof (cases x)
    case (Put now1 now2 m r t)
    from Cons.prems(1) have s: "sorted (now1 # clock_readings ops)"
      and s': "sorted (clock_readings ops)"
      by (simp_all add: Put clock_readings_def)
    show ?thesis
    proof (cases "generate_key lib m False")
      case (Raises err)
      from Cons.prems(2) have "e \<in> set (put_entries lib dttl ops)" by (simp add: Put Raises)
      with s' show ?thesis by (simp add: Put Raises Cons.IH)
    next
      case (Returns k)
      from Cons.prems(2) have "e = put_entry dttl now1 m r t \<or> e \<in> set (put_entries lib dttl ops)"
        by (simp add: Put Returns)
      then show ?thesis
      proof
        assume "e = put_entry dttl now1 m r t"
        then show ?thesis by (simp add: Put Returns)
      next
        assume "e \<in> set (put_entries lib dttl ops)"
        with s have "now1 \<le> timestamp e" by (rule put_entries_later)
        then show ?thesis by (simp add: Put Returns put_entry_def)
      qed
    qed
  next
    case (Get now m)
    from Cons.prems(1) have s: "sorted (clock_readings ops)"
      by (simp add: Get clock_readings_def)
    from Cons.prems(2) have "e \<in> set (put_entries lib dttl ops)" by (simp add: Get)
    with s show ?thesis by (simp add: Get Cons.IH)
  qed
qed

lemma get_shrinks:
  "max_entries (snd (get lib now bc m hp)) = max_entries bc"
  "distinct (map fst (cache bc)) \<Longrightarrow> distinct (map fst (cache (snd (get lib now bc m hp))))"
  "length (cache (snd (get lib now bc m hp))) \<le> length (cache bc)"
proof -
  have c: "snd (get lib now bc m hp) = bc
      \<or> (\<exists>k. snd (get lib now bc m hp) = bc\<lparr>cache := AList.delete k (cache bc)\<rparr>)"
  proof (cases "generate_key lib m hp")
    case (Raises e)
    then show ?thesis by (simp add: get_no_key)
  next
    case (Returns k)
    show ?thesis
    proof (cases "map_of (cache bc) k")
      case None
      with Returns show ?thesis by (simp add: get_miss)
    next
      case (Some e)
      with Returns show ?thesis by (cases "expired now e") (auto simp: get_hit get_expired)
    qed
  qed
  from c show "max_entries (snd (get lib now bc m hp)) = max_entries bc" by auto
  from c show "distinct (map fst (cache bc)) \<Longrightarrow> distinct (map fst (cache (snd (get lib now bc m hp))))"
    by (auto simp: distinct_delete)
  have "length (AList.delete k c) \<le> length c" for k :: ustr and c :: cache_dict
    by (induction c) auto
  then have "\<And>k. length (AList.delete k (cache bc)) \<le> length (cache bc)" .
  with c show "length (cache (snd (get lib now bc m hp))) \<le> length (cache bc)" by auto
qed

lemma apply_op_inv:
  assumes "distinct (map fst (cache bc))" and "0 \<le> max_entries bc"
    and "int (length (cache bc)) \<le> max_entries bc"
  shows "distinct (map fst (cache (apply_op lib bc x)))"
    and "max_entries (apply_op lib bc x) = max_entries bc"
    and "int (length (cache (apply_op lib bc x))) \<le> max_entries bc"
proof -
  show "distinct (map fst (cache (apply_op lib bc x)))"
  proof (cases x)
    case (Put now1 now2 m r t)
    show ?thesis
      using assms(1,2) by (cases "generate_key lib m False")
        (simp_all add: Put put_no_key put_size_and_keys(2))
  next
    case (Get now m)
    then show ?thesis using assms(1) by (simp add: get_shrinks(2))
  qed
  show "max_entries (apply_op lib bc x) = max_entries bc"
    by (cases x) (simp_all add: put_keeps_config get_shrinks(1))
  show "int (length (cache (apply_op lib bc x))) \<le> max_entries bc"
  proof (cases x)
    case (Put now1 now2 m r t)
    show ?thesis
      using assms by (cases "generate_key lib m False")
        (simp_all add: Put put_no_key put_size_and_keys(1))
  next
    case (Get now m)
    have "length (cache (snd (get lib now bc m False))) \<le> length (cache bc)"
      by (rule get_shrinks(3))
    with assms(3) show ?thesis by (simp add: Get)
  qed
qed

lemma run_ops_size:
  assumes "distinct (map fst (cache bc))" and "0 \<le> max_entries bc"
    and "int (length (cache bc)) \<le> max_entries bc"
  shows "int (length (cache (run_ops lib bc ops))) \<le> max_entries bc"
  using assms
proof (induction ops arbitrary: bc)
  case Nil
  then show ?case by (simp add: run_ops_def)
next
  case (Cons x ops)
  have "int (length (cache (run_ops lib (apply_op lib bc x) ops))) \<le> max_entries (apply_op lib bc x)"
    using apply_op_inv[OF Cons.prems, of lib x] by (intro Cons.IH) simp_all
  then show ?case by (simp add: run_ops_Cons apply_op_inv(2)[OF Cons.prems])
qed

text \<open>
  Claim C4 (size invariant and eviction order).  After a \<open>put\<close> on a cache with a
  non-negative maximum the number of entries is at most the maximum, provided the key was
  generated or the cache was within its maximum before (a \<open>put\<close> whose key cannot be
  generated changes nothing); so after every sequence of \<open>put\<close> and \<open>get\<close> calls on a
  cache that started empty the number of entries is at most the maximum.  Starting from the
  empty cache with maximum \<open>mx\<close>, any sequence of \<open>put\<close> and \<open>get\<close> calls with a
  non-decreasing clock in which nothing expires and whose puts insert \<open>mx + 1\<close> distinct keys
  leaves exactly \<open>mx\<close> entries: all inserted keys but the first, in insertion order.  The
  evicted entry is the first inserted one, whose timestamp is the oldest, wherever the
  \<open>get\<close> calls are and whatever they read.
\<close>

theorem cache_size_and_eviction:
  "(distinct (map fst (cache bc)) \<and> 0 \<le> max_entries bc
      \<and> (int (length (cache bc)) \<le> max_entries bc \<or> (\<exists>k. generate_key lib m hp = Returns k)) \<longrightarrow>
      int (length (cache (snd (put lib now1 now2 bc m r hp t)))) \<le> max_entries bc)
   \<and> (0 \<le> mx \<longrightarrow> int (length (cache (run_ops lib (init_cache mx dttl) ops))) \<le> mx)
   \<and> (0 \<le> mx \<and> distinct (put_keys lib ops) \<and> int (length (put_keys lib ops)) = mx + 1
        \<and> sorted (clock_readings ops)
        \<and> (\<forall>e\<in>set (put_entries lib dttl ops). \<forall>t\<in>set (clock_readings ops). \<not> expired t e) \<longrightarrow>
      map fst (cache (run_ops lib (init_cache mx dttl) ops)) = tl (put_keys lib ops)
      \<and> int (length (cache (run_ops lib (init_cache mx dttl) ops))) = mx
      \<and> hd (put_keys lib ops) \<notin> fst ` set (cache (run_ops lib (init_cache mx dttl) ops))
      \<and> (\<forall>e\<in>set (put_entries lib dttl ops). timestamp (hd (put_entries lib dttl ops)) \<le> timestamp e))"
proof (intro conjI impI)
  assume h: "distinct (map fst (cache bc)) \<and> 0 \<le> max_entries bc
      \<and> (int (length (cache bc)) \<le> max_entries bc \<or> (\<exists>k. generate_key lib m hp = Returns k))"
  show "int (length (cache (snd (put lib now1 now2 bc m r hp t)))) \<le> max_entries bc"
  proof (cases "generate_key lib m hp")
    case (Returns k)
    with h show ?thesis using put_size_and_keys(1) by blast
  next
    case (Raises e)
    with h show ?thesis by (simp add: put_no_key)
  qed
next
  assume "0 \<le> mx"
  then show "int (length (cache (run_ops lib (init_cache mx dttl) ops))) \<le> mx"
    using run_ops_size[of "init_cache mx dttl" lib ops] by (simp add: init_cache_def)
next
  assume h: "0 \<le> mx \<and> distinct (put_keys lib ops) \<and> int (length (put_keys lib ops)) = mx + 1
        \<and> sorted (clock_readings ops)
        \<and> (\<forall>e\<in>set (put_entries lib dttl ops). \<forall>t\<in>set (clock_readings ops). \<not> expired t e)"
  let ?bc = "init_cache mx dttl"
  have keys: "map fst (cache (run_ops lib ?bc ops)) = tl (put_keys lib ops)"
    using run_ops_keys[of ?bc lib ops] h by (simp add: init_cache_def)
  show "map fst (cache (run_ops lib ?bc ops)) = tl (put_keys lib ops)" by (rule keys)
  have "length (map fst (cache (run_ops lib ?bc ops))) = length (put_keys lib ops) - 1"
    unfolding keys by simp
  then show "int (length (cache (run_ops lib ?bc ops))) = mx" using h by simp
  have ne: "put_keys lib ops \<noteq> []" using h by auto
  have "hd (put_keys lib ops) \<notin> set (tl (put_keys lib ops))"
    using h ne by (cases "put_keys lib ops") simp_all
  then show "hd (put_keys lib ops) \<notin> fst ` set (cache (run_ops lib ?bc ops))"
    using keys by (metis set_map)
  show "\<forall>e\<in>set (put_entries lib dttl ops). timestamp (hd (put_entries lib dttl ops)) \<le> timestamp e"
    using h first_put_oldest by blast
qed

text \<open>
  Claim C4 with a maximum of 2: key \<open>a\<close> is read before and after each later insertion and
  is evicted all the same when \<open>c\<close> arrives.
\<close>

theorem cache_size_and_eviction_witness:
  "map fst (cache (run_ops demo_lib (init_cache 2 3600)
      [Put 0 0 (U ''a'') [] None, Get 1 (U ''a''), Put 1 1 (U ''b'') [] None,
       Get 2 (U ''a''), Put 3 3 (U ''c'') [] None, Get 4 (U ''a'')]))
   = [U ''b|pdf:False'', U ''c|pdf:False'']
   \<and> generate_key demo_lib (U ''a'') False = Returns (U ''a|pdf:False'')
   \<and> length (cache (snd (put demo_lib 0 0 (init_cache 0 3600) (U ''a'') [] False None))) = 0"
  using cache_size_and_eviction[of "init_cache 0 3600" demo_lib "U ''a''" False 0 0 "[]" None
      2 3600 "[Put 0 0 (U ''a'') [] None, Get 1 (U ''a''), Put 1 1 (U ''b'') [] None,
       Get 2 (U ''a''), Put 3 3 (U ''c'') [] None, Get 4 (U ''a'')]"]
  by (simp add: init_cache_def clock_readings_def put_entry_def cache_ttl_of_def expired_def
      generate_key_def str_encode_def utf8_bytes_def normalize_key_def strip_def lstrip_def
      rstrip_def is_space_def U_def demo_lib_def ascii_lower_def)

subsection \<open>Similarity lookup and fallback replies\<close>

lemma jaccard_nonneg: "0 \<le> jaccard A B"
  by (simp add: jaccard_def)

lemma similar_step_inv:
  assumes "similar_inv lib th q S best"
  shows "similar_inv lib th q (insert e S) (similar_step lib th (words_of lib q) best e)"
proof (cases "words_of lib (original_message e) = {}")
  case True
  then have z: "sim lib q e = 0" by (simp add: sim_def jaccard_def)
  have st: "similar_step lib th (words_of lib q) best e = best"
    using True by (simp add: similar_step_def)
  show ?thesis
  proof (cases "fst best")
    case None
    with assms z show ?thesis by (simp add: st similar_inv_def)
  next
    case (Some v)
    with assms z show ?thesis unfolding st similar_inv_def by (simp) (metis less_eq_real_def)
  qed
next
  case False
  let ?s = "sim lib q e"
  show ?thesis
  proof (cases "?s > snd best \<and> ?s \<ge> th")
    case True
    then have st: "similar_step lib th (words_of lib q) best e = (Some (val e), ?s)"
      using False by (simp add: similar_step_def sim_def Let_def)
    have nn: "0 \<le> snd best" using assms
      by (cases "fst best") (auto simp: similar_inv_def)
    have le: "\<forall>e'\<in>S. sim lib q e' \<le> ?s"
    proof
      fix e' assume e': "e' \<in> S"
      show "sim lib q e' \<le> ?s"
      proof (cases "fst best")
        case None
        with assms e' have "\<not> (sim lib q e' > 0 \<and> sim lib q e' \<ge> th)"
          by (simp add: similar_inv_def)
        then show ?thesis using True nn by linarith
      next
        case (Some v)
        with assms e' have "sim lib q e' \<le> snd best" by (simp add: similar_inv_def)
        then show ?thesis using True by linarith
      qed
    qed
    have pos: "?s > 0" using True nn by linarith
    show ?thesis unfolding st similar_inv_def using True le pos by simp
  next
    case nt: False
    then have st: "similar_step lib th (words_of lib q) best e = best"
      using False by (auto simp: similar_step_def sim_def Let_def)
    show ?thesis
    proof (cases "fst best")
      case None
      with assms have b0: "snd best = 0" by (simp add: similar_inv_def)
      with nt have "\<not> (?s > 0 \<and> ?s \<ge> th)" by simp
      with assms None show ?thesis by (simp add: st similar_inv_def)
    next
      case (Some v)
      with assms have th: "snd best \<ge> th" by (auto simp: similar_inv_def)
      with nt have "?s \<le> snd best" by linarith
      with assms Some show ?thesis unfolding st similar_inv_def by simp
    qed
  qed
qed

lemma similar_fold_inv:
  "similar_inv lib th q S best \<Longrightarrow>
   similar_inv lib th q (S \<union> set es) (foldl (similar_step lib th (words_of lib q)) best es)"
proof (induction es arbitrary: S best)
  case Nil
  then show ?case by simp
next
  case (Cons e es)
  from Cons.prems have "similar_inv lib th q (insert e S) (similar_step lib th (words_of lib q) best e)"
    by (rule similar_step_inv)
  from Cons.IH[OF this] show ?case by simp
qed

lemma find_similar_inv:
  "similar_inv lib th q (snd ` set (cache bc))
     (foldl (similar_step lib th (words_of lib q)) (None, 0) (map snd (cache bc)))"
proof -
  have "similar_inv lib th q {} (None, 0)" by (simp add: similar_inv_def)
  from similar_fold_inv[OF this, of "map snd (cache bc)"] show ?thesis by simp
qed

lemma find_similar_Some:
  assumes "find_similar_cached_response lib bc q th = Some v"
  shows "\<exists>e\<in>snd ` set (cache bc). val e = v \<and> sim lib q e \<ge> th \<and> sim lib q e > 0
           \<and> (\<forall>e'\<in>snd ` set (cache bc). sim lib q e' \<le> sim lib q e)"
  using find_similar_inv[of lib th q bc] assms
  unfolding find_similar_cached_response_def Let_def similar_inv_def
  by (cases "foldl (similar_step lib th (words_of lib q)) (None, 0) (map snd (cache bc))") auto

lemma find_similar_None:
  assumes "find_similar_cached_response lib bc q th = None"
  shows "\<forall>e\<in>snd ` set (cache bc). \<not> (sim lib q e > 0 \<and> sim lib q e \<ge> th)"
  using find_similar_inv[of lib th q bc] assms
  unfolding find_similar_cached_response_def Let_def similar_inv_def
  by (cases "foldl (similar_step lib th (words_of lib q)) (None, 0) (map snd (cache bc))") auto

lemma jaccard_disjoint: "A \<inter> B = {} \<Longrightarrow> jaccard A B = 0"
  by (simp add: jaccard_def)

text \<open>
  Claim C7 (similarity fallback), amended: the overlap is measured against the stored
  \<open>original_message\<close>, which is the first 100 code points of the message that was put.
  With the default threshold 0.3, \<open>_find_similar_cached_response\<close> returns a payload only if it
  is the payload of a stored entry whose token-set Jaccard similarity to the query is at least
  0.3 and is the highest among all stored entries; it returns a payload whenever some
  stored entry reaches 0.3; it returns \<open>None\<close> when the query shares no token with any stored
  text; and a message that \<open>put\<close> has just stored (its key was generated) is found by
  every query whose similarity to its first 100 code points is at least 0.3.
\<close>

theorem find_similar_jaccard:
  "(find_similar_cached_response lib bc q (3 / 10) = Some v \<longrightarrow>
      (\<exists>e\<in>snd ` set (cache bc). val e = v \<and> sim lib q e \<ge> 3 / 10
          \<and> (\<forall>e'\<in>snd ` set (cache bc). sim lib q e' \<le> sim lib q e)))
   \<and> ((\<exists>e\<in>snd ` set (cache bc). sim lib q e \<ge> 3 / 10) \<longrightarrow>
      find_similar_cached_response lib bc q (3 / 10) \<noteq> None)
   \<and> ((\<forall>e\<in>snd ` set (cache bc). words_of lib q \<inter> words_of lib (original_message e) = {}) \<longrightarrow>
      find_similar_cached_response lib bc q (3 / 10) = None)
   \<and> (distinct (map fst (cache bc)) \<and> int (length (cache bc)) \<le> max_entries bc
        \<and> 1 \<le> max_entries bc \<and> (\<forall>p\<in>set (cache bc). timestamp (snd p) \<le> now1)
        \<and> \<not> expired now2 (put_entry (default_ttl bc) now1 m r t)
        \<and> (\<exists>k. generate_key lib m hp = Returns k)
        \<and> jaccard (words_of lib q) (words_of lib (take 100 m)) \<ge> 3 / 10 \<longrightarrow>
      find_similar_cached_response lib (snd (put lib now1 now2 bc m r hp t)) q (3 / 10) \<noteq> None)"
proof (intro conjI impI)
  assume "find_similar_cached_response lib bc q (3 / 10) = Some v"
  from find_similar_Some[OF this]
  show "\<exists>e\<in>snd ` set (cache bc). val e = v \<and> sim lib q e \<ge> 3 / 10
          \<and> (\<forall>e'\<in>snd ` set (cache bc). sim lib q e' \<le> sim lib q e)" by blast
next
  assume ex: "\<exists>e\<in>snd ` set (cache bc). sim lib q e \<ge> 3 / 10"
  show "find_similar_cached_response lib bc q (3 / 10) \<noteq> None"
  proof
    assume "find_similar_cached_response lib bc q (3 / 10) = None"
    from find_similar_None[OF this] ex show False by fastforce
  qed
next
  assume dj: "\<forall>e\<in>snd ` set (cache bc). words_of lib q \<inter> words_of lib (original_message e) = {}"
  show "find_similar_cached_response lib bc q (3 / 10) = None"
  proof (cases "find_similar_cached_response lib bc q (3 / 10)")
    case None
    then show ?thesis .
  next
    case (Some v)
    from find_similar_Some[OF this] obtain e where e: "e \<in> snd ` set (cache bc)" "sim lib q e > 0"
      by blast
    from dj e(1) have "words_of lib q \<inter> words_of lib (original_message e) = {}" by blast
    then have "sim lib q e = 0" by (simp add: sim_def jaccard_disjoint)
    with e(2) show ?thesis by simp
  qed
next
  assume h: "distinct (map fst (cache bc)) \<and> int (length (cache bc)) \<le> max_entries bc
        \<and> 1 \<le> max_entries bc \<and> (\<forall>p\<in>set (cache bc). timestamp (snd p) \<le> now1)
        \<and> \<not> expired now2 (put_entry (default_ttl bc) now1 m r t)
        \<and> (\<exists>k. generate_key lib m hp = Returns k)
        \<and> jaccard (words_of lib q) (words_of lib (take 100 m)) \<ge> 3 / 10"
  let ?bc' = "snd (put lib now1 now2 bc m r hp t)"
  let ?e = "put_entry (default_ttl bc) now1 m r t"
  from h obtain k where gk: "generate_key lib m hp = Returns k" by blast
  have "map_of (cache ?bc') k = Some ?e"
    using h gk by (intro put_keeps_new) simp_all
  then have "(k, ?e) \<in> set (cache ?bc')" by (rule map_of_SomeD)
  then have in': "?e \<in> snd ` set (cache ?bc')" by force
  have "sim lib q ?e \<ge> 3 / 10" using h by (simp add: sim_def put_entry_def)
  with in' have ex: "\<exists>e\<in>snd ` set (cache ?bc'). sim lib q e \<ge> 3 / 10" by blast
  show "find_similar_cached_response lib ?bc' q (3 / 10) \<noteq> None"
  proof
    assume "find_similar_cached_response lib ?bc' q (3 / 10) = None"
    from find_similar_None[OF this] ex show False by fastforce
  qed
qed

lemmas words_defs = words_of_def str_split_def sim_def jaccard_def find_similar_cached_response_def
  similar_step_def

text \<open>Claim C7: a stored ``hello world'' is found by the query ``Hello there'' (similarity 1/3).\<close>

theorem find_similar_jaccard_witness:
  "find_similar_cached_response demo_lib
     (snd (put demo_lib 0 0 (init_cache 200 3600) (U ''hello world'') [] False None))
     (U ''Hello there'') (3 / 10) \<noteq> None"
proof -
  have j: "jaccard (words_of demo_lib (U ''Hello there''))
             (words_of demo_lib (take 100 (U ''hello world''))) \<ge> 3 / 10"
    by (simp add: words_of_def str_split_def jaccard_def normalize_key_def strip_def lstrip_def
        rstrip_def is_space_def U_def demo_lib_def ascii_lower_def card_insert_if)
  show ?thesis
    using j find_similar_jaccard[of demo_lib "init_cache 200 3600" "U ''Hello there''" "[]"
        0 0 "U ''hello world''" "[]" None False]
    by (simp add: init_cache_def put_entry_def cache_ttl_of_def expired_def generate_key_def
        str_encode_def normalize_key_def strip_def lstrip_def rstrip_def is_space_def U_def
        demo_lib_def ascii_lower_def)
qed

text \<open>
  Claim C7 as stated fails for stored messages longer than 100 code points.  A message of 100
  letters \<open>a\<close> followed by the word \<open>b\<close> shares half of its tokens with the query \<open>b\<close>, yet
  the lookup misses, because only the first 100 code points are stored; and a message of 98
  letters \<open>x\<close> followed by the word \<open>ab\<close> shares no token with the query \<open>a\<close>, yet the
  lookup hits, because the stored text ends in the word \<open>a\<close>.
\<close>

theorem find_similar_truncation_counterexample:
  "jaccard (words_of demo_lib (U ''b'')) (words_of demo_lib (U ''aaaaaaaaaaaaaaaaaaaaaaaaaaaaaaaaaaaaaaaaaaaaaaaaaaaaaaaaaaaaaaaaaaaaaaaaaaaaaaaaaaaaaaaaaaaaaaaaaaaa b'')) \<ge> 3 / 10
   \<and> find_similar_cached_response demo_lib
        (snd (put demo_lib 0 0 (init_cache 200 3600) (U ''aaaaaaaaaaaaaaaaaaaaaaaaaaaaaaaaaaaaaaaaaaaaaaaaaaaaaaaaaaaaaaaaaaaaaaaaaaaaaaaaaaaaaaaaaaaaaaaaaaaa b'') [] False None)) (U ''b'') (3 / 10) = None
   \<and> words_of demo_lib (U ''a'') \<inter> words_of demo_lib (U ''xxxxxxxxxxxxxxxxxxxxxxxxxxxxxxxxxxxxxxxxxxxxxxxxxxxxxxxxxxxxxxxxxxxxxxxxxxxxxxxxxxxxxxxxxxxxxxxxxx ab'') = {}
   \<and> find_similar_cached_response demo_lib
        (snd (put demo_lib 0 0 (init_cache 200 3600) (U ''xxxxxxxxxxxxxxxxxxxxxxxxxxxxxxxxxxxxxxxxxxxxxxxxxxxxxxxxxxxxxxxxxxxxxxxxxxxxxxxxxxxxxxxxxxxxxxxxxx ab'') [] False None)) (U ''a'') (3 / 10) \<noteq> None"
  by (simp add: eval_defs words_defs card_insert_if)

lemma fallback_body_cases:
  "get_fallback_response_body lib bc m ctx =
     (case find_similar_cached_response lib bc m (3 / 10) of
        None \<Rightarrow> Returns
            [(''bot_response'', PyStr (join [10] (canned_sections lib bc m ctx))),
             (''success'', PyBool True), (''final_approved'', PyBool True),
             (''translation_info'', PyNone), (''explanation_result'', PyNone),
             (''is_fallback'', PyBool True)]
      | Some similar \<Rightarrow>
          if similar = [] then Returns
            [(''bot_response'', PyStr (join [10] (canned_sections lib bc m ctx))),
             (''success'', PyBool True), (''final_approved'', PyBool True),
             (''translation_info'', PyNone), (''explanation_result'', PyNone),
             (''is_fallback'', PyBool True)]
          else (case map_of similar ''bot_response'' of
                  None \<Rightarrow> Raises KeyError
                | Some b \<Rightarrow> Returns (AList.update ''bot_response''
                                       (PyStr (cached_prefix @ py_format lib b)) similar)))"
  by (simp add: get_fallback_response_body_def Let_def)

text \<open>
  Claim C10 (the cache's operations never raise), amended in its last part.  For every input
  \<open>put\<close> returns normally; \<open>get\<close> returns normally, with \<open>None\<close> or the payload of a stored
  entry; and \<open>get_fallback_response\<close> returns normally a dict that has a \<open>bot_response\<close>.
  That dict is marked \<open>is_fallback\<close> with \<open>success = True\<close> when no similar cached entry was
  found and when its own generation raised; when a similar cached entry with a
  \<open>bot_response\<close> was found it is that entry's stored payload with the reply text annotated,
  and carries the stored flags.
\<close>

theorem cache_operations_never_raise:
  "fst (put lib now1 now2 bc m r hp t) = Returns ()
   \<and> (\<exists>res. fst (get lib now bc m hp) = Returns res
         \<and> (res = None \<or> (\<exists>e\<in>snd ` set (cache bc). res = Some (val e))))
   \<and> (\<exists>p. get_fallback_response lib bc m ctx = Returns p
         \<and> map_of p ''bot_response'' \<noteq> None
         \<and> (find_similar_cached_response lib bc m (3 / 10) = None
               \<or> (\<exists>e. get_fallback_response_body lib bc m ctx = Raises e) \<longrightarrow>
             map_of p ''is_fallback'' = Some (PyBool True)
             \<and> map_of p ''success'' = Some (PyBool True))
         \<and> (\<forall>similar b. find_similar_cached_response lib bc m (3 / 10) = Some similar
               \<and> map_of similar ''bot_response'' = Some b \<longrightarrow>
             p = AList.update ''bot_response'' (PyStr (cached_prefix @ py_format lib b)) similar))"
proof (intro conjI)
  show "fst (put lib now1 now2 bc m r hp t) = Returns ()" by (rule put_returns)
next
  show "\<exists>res. fst (get lib now bc m hp) = Returns res
         \<and> (res = None \<or> (\<exists>e\<in>snd ` set (cache bc). res = Some (val e)))"
  proof (cases "generate_key lib m hp")
    case (Raises err)
    then show ?thesis by (simp add: get_no_key)
  next
    case (Returns k)
    show ?thesis
    proof (cases "map_of (cache bc) k")
      case None
      with Returns show ?thesis by (simp add: get_miss)
    next
      case (Some e)
      then have "(k, e) \<in> set (cache bc)" by (rule map_of_SomeD)
      then have ein: "e \<in> snd ` set (cache bc)" by force
      show ?thesis
      proof (cases "expired now e")
        case True
        with Returns Some show ?thesis by (simp add: get_expired)
      next
        case False
        with Returns Some have "fst (get lib now bc m hp) = Returns (Some (val e))"
          by (simp add: get_hit)
        with ein show ?thesis by blast
      qed
    qed
  qed
next
  let ?canned = "[(''bot_response'', PyStr (join [10] (canned_sections lib bc m ctx))),
             (''success'', PyBool True), (''final_approved'', PyBool True),
             (''translation_info'', PyNone), (''explanation_result'', PyNone),
             (''is_fallback'', PyBool True)]"
  show "\<exists>p. get_fallback_response lib bc m ctx = Returns p
         \<and> map_of p ''bot_response'' \<noteq> None
         \<and> (find_similar_cached_response lib bc m (3 / 10) = None
               \<or> (\<exists>e. get_fallback_response_body lib bc m ctx = Raises e) \<longrightarrow>
             map_of p ''is_fallback'' = Some (PyBool True)
             \<and> map_of p ''success'' = Some (PyBool True))
         \<and> (\<forall>similar b. find_similar_cached_response lib bc m (3 / 10) = Some similar
               \<and> map_of similar ''bot_response'' = Some b \<longrightarrow>
             p = AList.update ''bot_response'' (PyStr (cached_prefix @ py_format lib b)) similar)"
  proof (cases "find_similar_cached_response lib bc m (3 / 10)")
    case None
    then have b: "get_fallback_response_body lib bc m ctx = Returns ?canned"
      by (simp add: fallback_body_cases)
    show ?thesis by (simp add: get_fallback_response_def b None)
  next
    case (Some similar)
    show ?thesis
    proof (cases "similar = []")
      case True
      then have b: "get_fallback_response_body lib bc m ctx = Returns ?canned"
        using Some by (simp add: fallback_body_cases)
      show ?thesis using True by (simp add: get_fallback_response_def b Some)
    next
      case False
      show ?thesis
      proof (cases "map_of similar ''bot_response''")
        case None
        then have b: "get_fallback_response_body lib bc m ctx = Raises KeyError"
          using Some False by (simp add: fallback_body_cases)
        show ?thesis using None by (simp add: get_fallback_response_def b Some)
      next
        case (Some b)
        then have bd: "get_fallback_response_body lib bc m ctx
            = Returns (AList.update ''bot_response'' (PyStr (cached_prefix @ py_format lib b)) similar)"
          using \<open>find_similar_cached_response lib bc m (3 / 10) = Some similar\<close> False
          by (simp add: fallback_body_cases)
        show ?thesis
          using Some \<open>find_similar_cached_response lib bc m (3 / 10) = Some similar\<close>
          by (simp add: get_fallback_response_def bd update_conv')
      qed
    qed
  qed
qed

text \<open>
  Claim C10 on the empty default cache, where the canned reply is built, and on a cache whose
  only entry has a payload without \<open>bot_response\<close>, where building the reply raises KeyError
  and the handler's reply is returned: both are marked \<open>is_fallback\<close>.
\<close>

theorem cache_operations_never_raise_witness:
  "(\<exists>p. get_fallback_response demo_lib (init_cache 200 3600) (U ''hi'') (U ''network'') = Returns p
        \<and> map_of p ''is_fallback'' = Some (PyBool True) \<and> map_of p ''success'' = Some (PyBool True))
   \<and> (\<exists>p. get_fallback_response demo_lib
              \<lparr>max_entries = 200, default_ttl = 3600,
               cache = [(U ''k'', \<lparr>val = [(''success'', PyBool False)], timestamp = 0, ttl = 3600,
                                   original_message = U ''hi''\<rparr>)]\<rparr>
              (U ''hi'') (U ''network'') = Returns p
        \<and> map_of p ''is_fallback'' = Some (PyBool True) \<and> map_of p ''success'' = Some (PyBool True))"
proof -
  let ?bad = "\<lparr>max_entries = 200, default_ttl = 3600,
               cache = [(U ''k'', \<lparr>val = [(''success'', PyBool False)], timestamp = 0, ttl = 3600,
                                   original_message = U ''hi''\<rparr>)]\<rparr>"
  have n: "find_similar_cached_response demo_lib (init_cache 200 3600) (U ''hi'') (3 / 10) = None"
    by (simp add: find_similar_cached_response_def init_cache_def)
  have r: "get_fallback_response_body demo_lib ?bad (U ''hi'') (U ''network'') = Raises KeyError"
    by (simp add: eval_defs words_defs card_insert_if get_fallback_response_body_def)
  from n cache_operations_never_raise[of demo_lib 0 0 "init_cache 200 3600" "U ''hi''" "[]" False
      None 0 "U ''network''"]
  have a: "\<exists>p. get_fallback_response demo_lib (init_cache 200 3600) (U ''hi'') (U ''network'') = Returns p
        \<and> map_of p ''is_fallback'' = Some (PyBool True) \<and> map_of p ''success'' = Some (PyBool True)"
    by blast
  from r cache_operations_never_raise[of demo_lib 0 0 ?bad "U ''hi''" "[]" False
      None 0 "U ''network''"]
  have b: "\<exists>p. get_fallback_response demo_lib ?bad (U ''hi'') (U ''network'') = Returns p
        \<and> map_of p ''is_fallback'' = Some (PyBool True) \<and> map_of p ''success'' = Some (PyBool True)"
    by blast
  from a b show ?thesis by blast
qed

text \<open>
  Claim C10 as stated fails when a similar cached entry is found: after an ordinary
  \<open>put\<close> of ``hello world'', the fallback reply for the same message is the cached payload
  with an annotated text, and has no \<open>is_fallback\<close> key.
\<close>

theorem fallback_not_marked_counterexample:
  "\<exists>p. get_fallback_response demo_lib
          (snd (put demo_lib 0 0 (init_cache 200 3600) (U ''hello world'')
                  [(''bot_response'', PyStr (U ''Hi!'')), (''success'', PyBool True)] False None))
          (U ''hello world'') (U ''network'') = Returns p
       \<and> map_of p ''is_fallback'' = None"
  by (simp add: eval_defs words_defs card_insert_if get_fallback_response_def
      get_fallback_response_body_def py_format_def cached_prefix_def)

section \<open>Properties of content moderation\<close>

lemma has_error_None [simp]: "\<not> has_error None"
  by (simp add: has_error_def)

lemma has_error_prefix [simp]: "has_error (Some (U (c # cs) @ s))"
  by (simp add: has_error_def U_def)

lemma has_error_text [simp]: "has_error (Some (U (c # cs)))"
  by (simp add: has_error_def U_def)

lemma classify_ok:
  assumes "\<not> has_error (ms_error (classify_content_node lib s))"
  shows "\<not> has_error (ms_error s)"
    and "\<exists>v. ms_severity_score (classify_content_node lib s) = Some v"
  using assms
  by (auto simp: classify_content_node_def classify_body_def Let_def
      split: if_splits outcome.splits pyval.splits)

lemma decision_ok:
  assumes "\<not> has_error (ms_error (make_decision_node lib s))"
    and "ms_severity_score s = Some v"
  shows "ms_approved (make_decision_node lib s)
         = (py_len (ms_flagged_categories s) = Returns 0 \<and> (\<exists>x. num_of v = Some x \<and> x < 3 / 10))"
    and "ms_flagged_categories (make_decision_node lib s) = ms_flagged_categories s"
    and "ms_severity_score (make_decision_node lib s) = Some v"
  using assms
  by (auto simp: make_decision_node_def decision_body_def Let_def
      split: if_splits outcome.splits option.splits)

lemma decision_error_approved:
  "has_error (ms_error (make_decision_node lib s)) \<Longrightarrow> \<not> has_error (ms_error s) \<Longrightarrow>
   \<not> ms_approved (make_decision_node lib s)"
  by (auto simp: make_decision_node_def decision_body_def Let_def
      split: if_splits outcome.splits option.splits)

lemma classify_error_approved:
  "has_error (ms_error (classify_content_node lib s)) \<Longrightarrow> \<not> has_error (ms_error s) \<Longrightarrow>
   \<not> ms_approved (classify_content_node lib s)"
  by (auto simp: classify_content_node_def classify_body_def Let_def
      split: if_splits outcome.splits pyval.splits)

lemma analyze_error_approved:
  "has_error (ms_error (analyze_content_node lib llm jl s)) \<Longrightarrow> \<not> has_error (ms_error s) \<Longrightarrow>
   \<not> ms_approved (analyze_content_node lib llm jl s)"
  by (auto simp: analyze_content_node_def Let_def split: if_splits outcome.splits option.splits)

lemma validate_error_approved:
  "has_error (ms_error (mod_validate_input_node s)) \<Longrightarrow> \<not> ms_approved (mod_validate_input_node s)"
  by (auto simp: mod_validate_input_node_def Let_def split: if_splits)

lemma node_skip:
  "has_error (ms_error s) \<Longrightarrow> analyze_content_node lib llm jl s = s"
  "has_error (ms_error s) \<Longrightarrow> classify_content_node lib s = s"
  "has_error (ms_error s) \<Longrightarrow> make_decision_node lib s = s"
  by (simp_all add: analyze_content_node_def classify_content_node_def make_decision_node_def)

lemma moderate_content_fields:
  "mo_success (moderate_content lib llm jl input)
     = (\<not> has_error (ms_error (mod_pre_final lib llm jl (mod_initial_state input))))"
  "mo_approved (moderate_content lib llm jl input)
     = ms_approved (mod_pre_final lib llm jl (mod_initial_state input))"
  "mo_flagged_categories (moderate_content lib llm jl input)
     = ms_flagged_categories (mod_pre_final lib llm jl (mod_initial_state input))"
  "mo_severity_score (moderate_content lib llm jl input)
     = ms_severity_score (mod_pre_final lib llm jl (mod_initial_state input))"
  by (simp_all add: moderate_content_def moderation_graph_def finalize_result_node_def Let_def)

lemma moderation_success_iff:
  assumes "mo_success (moderate_content lib llm jl input)"
  shows "mo_approved (moderate_content lib llm jl input)
   = (py_len (mo_flagged_categories (moderate_content lib llm jl input)) = Returns 0
      \<and> (\<exists>v x. mo_severity_score (moderate_content lib llm jl input) = Some v
                \<and> num_of v = Some x \<and> x < 3 / 10))"
proof -
  let ?s2 = "analyze_content_node lib llm jl (mod_validate_input_node (mod_initial_state input))"
  let ?s3 = "classify_content_node lib ?s2"
  let ?s4 = "make_decision_node lib ?s3"
  have e4: "\<not> has_error (ms_error ?s4)"
    using assms by (simp add: moderate_content_fields mod_pre_final_def)
  have e3: "\<not> has_error (ms_error ?s3)"
  proof
    assume "has_error (ms_error ?s3)"
    then have "?s4 = ?s3" by (rule node_skip(3))
    with e4 \<open>has_error (ms_error ?s3)\<close> show False by simp
  qed
  from classify_ok(2)[OF e3] obtain v where v: "ms_severity_score ?s3 = Some v" by blast
  note d = decision_ok[OF e4 v]
  show ?thesis
    unfolding moderate_content_fields mod_pre_final_def d by simp
qed

lemma moderation_failure_rejects:
  assumes "\<not> mo_success (moderate_content lib llm jl input)"
  shows "\<not> mo_approved (moderate_content lib llm jl input)"
proof -
  let ?s1 = "mod_validate_input_node (mod_initial_state input)"
  let ?s2 = "analyze_content_node lib llm jl ?s1"
  let ?s3 = "classify_content_node lib ?s2"
  let ?s4 = "make_decision_node lib ?s3"
  have e4: "has_error (ms_error ?s4)"
    using assms by (simp add: moderate_content_fields mod_pre_final_def)
  have "\<not> ms_approved ?s4"
  proof (cases "has_error (ms_error ?s3)")
    case False
    with e4 show ?thesis by (rule decision_error_approved)
  next
    case e3: True
    then have s4: "?s4 = ?s3" by (rule node_skip(3))
    show ?thesis
    proof (cases "has_error (ms_error ?s2)")
      case False
      with e3 have "\<not> ms_approved ?s3" by (rule classify_error_approved)
      then show ?thesis by (metis s4)
    next
      case e2: True
      then have s3: "?s3 = ?s2" by (rule node_skip(2))
      show ?thesis
      proof (cases "has_error (ms_error ?s1)")
        case False
        with e2 have "\<not> ms_approved ?s2" by (rule analyze_error_approved)
        then show ?thesis by (metis s4 s3)
      next
        case e1: True
        then have s2: "?s2 = ?s1" by (rule node_skip(1))
        from e1 have "\<not> ms_approved ?s1" by (rule validate_error_approved)
        then show ?thesis by (metis s4 s3 s2)
      qed
    qed
  qed
  then show ?thesis by (simp add: moderate_content_fields mod_pre_final_def)
qed

lemma validate_okay:
  "strip input \<noteq> [] \<Longrightarrow> length (strip input) \<le> 10000 \<Longrightarrow>
   mod_validate_input_node (mod_initial_state input)
   = (mod_initial_state input)\<lparr>ms_step := ''input_validated''\<rparr>"
  by (simp add: mod_validate_input_node_def mod_initial_state_def)

lemma analyze_okay:
  "\<not> has_error (ms_error s) \<Longrightarrow> llm (ms_input_text s) = Returns content \<Longrightarrow>
   analyze_content_node lib llm jl s
   = s\<lparr>ms_moderation_result :=
          (case jl content of Some v \<Rightarrow> v | None \<Rightarrow> fallback_moderation_result content),
        ms_step := ''content_analyzed''\<rparr>"
  by (simp add: analyze_content_node_def)

lemma classify_okay:
  assumes "\<not> has_error (ms_error s)" and "ms_moderation_result s = PyDict d"
    and "dict_get d ''severity_score'' (PyNum 0) = PyNum x"
    and "dict_get d ''inappropriate_categories'' (PyList []) = PyList xs"
  shows "\<not> has_error (ms_error (classify_content_node lib s))"
    and "ms_flagged_categories (classify_content_node lib s) = PyList xs"
    and "ms_severity_score (classify_content_node lib s) = Some (PyNum x)"
  using assms
  by (simp_all add: classify_content_node_def classify_body_def Let_def format_2f_def py_len_def)

lemma decision_okay:
  assumes "\<not> has_error (ms_error s)" and "ms_flagged_categories s = PyList xs"
    and "ms_severity_score s = Some (PyNum x)"
  shows "\<not> has_error (ms_error (make_decision_node lib s))"
  using assms
  by (simp add: make_decision_node_def decision_body_def Let_def py_len_def num_of_def)

lemma well_typed_reply_fields:
  assumes "well_typed_reply v"
  shows "\<exists>d x xs. v = PyDict d \<and> dict_get d ''severity_score'' (PyNum 0) = PyNum x
           \<and> dict_get d ''inappropriate_categories'' (PyList []) = PyList xs"
proof (cases v)
  case (PyDict d)
  with assms have a: "case map_of d ''inappropriate_categories'' of
             None \<Rightarrow> True | Some (PyList xs) \<Rightarrow> True | Some _ \<Rightarrow> False"
    and b: "case map_of d ''severity_score'' of
               None \<Rightarrow> True | Some (PyNum x) \<Rightarrow> True | Some _ \<Rightarrow> False"
    by (simp_all add: well_typed_reply_def)
  from a have "\<exists>xs. dict_get d ''inappropriate_categories'' (PyList []) = PyList xs"
    by (auto simp: dict_get_def split: option.splits pyval.splits)
  moreover from b have "\<exists>x. dict_get d ''severity_score'' (PyNum 0) = PyNum x"
    by (auto simp: dict_get_def split: option.splits pyval.splits)
  ultimately show ?thesis using PyDict by blast
qed (use assms in \<open>simp_all add: well_typed_reply_def\<close>)

lemma well_typed_fallback: "well_typed_reply (fallback_moderation_result content)"
  by (simp add: well_typed_reply_def fallback_moderation_result_def)

lemma moderation_run_values:
  assumes "strip input \<noteq> []" and "length (strip input) \<le> 10000"
    and "llm input = Returns content"
    and "(case json_loads content of Some v \<Rightarrow> v | None \<Rightarrow> fallback_moderation_result content)
         = PyDict d"
    and "dict_get d ''severity_score'' (PyNum 0) = PyNum x"
    and "dict_get d ''inappropriate_categories'' (PyList []) = PyList xs"
  shows "mo_success (moderate_content lib llm json_loads input)"
    and "mo_severity_score (moderate_content lib llm json_loads input) = Some (PyNum x)"
    and "mo_flagged_categories (moderate_content lib llm json_loads input) = PyList xs"
proof -
  let ?s1 = "mod_validate_input_node (mod_initial_state input)"
  let ?s2 = "analyze_content_node lib llm json_loads ?s1"
  let ?s3 = "classify_content_node lib ?s2"
  let ?s4 = "make_decision_node lib ?s3"
  have s1: "?s1 = (mod_initial_state input)\<lparr>ms_step := ''input_validated''\<rparr>"
    using assms(1,2) by (rule validate_okay)
  have e1: "\<not> has_error (ms_error ?s1)" unfolding s1 by (simp add: mod_initial_state_def)
  have i1: "llm (ms_input_text ?s1) = Returns content"
    unfolding s1 using assms(3) by (simp add: mod_initial_state_def)
  have s2: "?s2 = ?s1\<lparr>ms_moderation_result :=
          (case json_loads content of Some v \<Rightarrow> v | None \<Rightarrow> fallback_moderation_result content),
        ms_step := ''content_analyzed''\<rparr>"
    using e1 i1 by (rule analyze_okay)
  have e2: "\<not> has_error (ms_error ?s2)" using e1 by (simp add: s2)
  have m2: "ms_moderation_result ?s2 = PyDict d" using assms(4) by (simp add: s2)
  note c = classify_okay[OF e2 m2 assms(5,6)]
  have e4: "\<not> has_error (ms_error ?s4)" using c by (rule decision_okay)
  note dd = decision_ok[OF e4 c(3)]
  show "mo_success (moderate_content lib llm json_loads input)"
    using e4 by (simp add: moderate_content_fields mod_pre_final_def)
  show "mo_severity_score (moderate_content lib llm json_loads input) = Some (PyNum x)"
    using dd(3) by (simp add: moderate_content_fields mod_pre_final_def)
  show "mo_flagged_categories (moderate_content lib llm json_loads input) = PyList xs"
    using dd(2) c(2) by (simp add: moderate_content_fields mod_pre_final_def)
qed

text \<open>
  Claim C2 (moderation decision rule).  Whenever \<open>moderate_content\<close> completes without an
  error, \<open>approved\<close> is true exactly if the flagged categories have length 0 and the severity
  score is a number strictly below 0.3; a run that ends in an error reports
  \<open>approved = False\<close>.  A run on valid input completes without an error whenever the
  collaborator answers and its answer is unparseable or a well-typed dict.  In particular a
  reply with no flagged categories and a severity of exactly 0.3 completes and is not
  approved.
\<close>

theorem moderation_decision_rule:
  "(mo_success (moderate_content lib llm json_loads input) \<longrightarrow>
      mo_approved (moderate_content lib llm json_loads input)
      = (py_len (mo_flagged_categories (moderate_content lib llm json_loads input)) = Returns 0
         \<and> (\<exists>v x. mo_severity_score (moderate_content lib llm json_loads input) = Some v
                   \<and> num_of v = Some x \<and> x < 3 / 10)))
   \<and> (\<not> mo_success (moderate_content lib llm json_loads input) \<longrightarrow>
        \<not> mo_approved (moderate_content lib llm json_loads input))
   \<and> (strip input \<noteq> [] \<and> length (strip input) \<le> 10000 \<and> llm input = Returns content
        \<and> (json_loads content = None \<or> (\<exists>v. json_loads content = Some v \<and> well_typed_reply v)) \<longrightarrow>
      mo_success (moderate_content lib llm json_loads input))
   \<and> (strip input \<noteq> [] \<and> length (strip input) \<le> 10000 \<and> llm input = Returns content
        \<and> json_loads content = Some (PyDict d)
        \<and> map_of d ''inappropriate_categories'' = Some (PyList [])
        \<and> map_of d ''severity_score'' = Some (PyNum (3 / 10)) \<longrightarrow>
      mo_success (moderate_content lib llm json_loads input)
      \<and> \<not> mo_approved (moderate_content lib llm json_loads input))"
proof (intro conjI impI)
  assume "mo_success (moderate_content lib llm json_loads input)"
  then show "mo_approved (moderate_content lib llm json_loads input)
      = (py_len (mo_flagged_categories (moderate_content lib llm json_loads input)) = Returns 0
         \<and> (\<exists>v x. mo_severity_score (moderate_content lib llm json_loads input) = Some v
                   \<and> num_of v = Some x \<and> x < 3 / 10))"
    by (rule moderation_success_iff)
next
  assume "\<not> mo_success (moderate_content lib llm json_loads input)"
  then show "\<not> mo_approved (moderate_content lib llm json_loads input)"
    by (rule moderation_failure_rejects)
next
  assume h: "strip input \<noteq> [] \<and> length (strip input) \<le> 10000 \<and> llm input = Returns content
        \<and> (json_loads content = None \<or> (\<exists>v. json_loads content = Some v \<and> well_typed_reply v))"
  let ?mr = "case json_loads content of Some v \<Rightarrow> v | None \<Rightarrow> fallback_moderation_result content"
  have "well_typed_reply ?mr" using h well_typed_fallback by (auto split: option.splits)
  from well_typed_reply_fields[OF this] obtain d x xs where
    "?mr = PyDict d" "dict_get d ''severity_score'' (PyNum 0) = PyNum x"
    "dict_get d ''inappropriate_categories'' (PyList []) = PyList xs" by blast
  with h show "mo_success (moderate_content lib llm json_loads input)"
    by (intro moderation_run_values(1)[of input llm content json_loads d x xs]) simp_all
next
  assume h: "strip input \<noteq> [] \<and> length (strip input) \<le> 10000 \<and> llm input = Returns content
        \<and> json_loads content = Some (PyDict d)
        \<and> map_of d ''inappropriate_categories'' = Some (PyList [])
        \<and> map_of d ''severity_score'' = Some (PyNum (3 / 10))"
  have a: "(case json_loads content of Some v \<Rightarrow> v | None \<Rightarrow> fallback_moderation_result content)
         = PyDict d" using h by simp
  have b: "dict_get d ''severity_score'' (PyNum 0) = PyNum (3 / 10)"
    using h by (simp add: dict_get_def)
  have c: "dict_get d ''inappropriate_categories'' (PyList []) = PyList []"
    using h by (simp add: dict_get_def)
  have s: "strip input \<noteq> []" and l: "length (strip input) \<le> 10000"
    and r: "llm input = Returns content" using h by simp_all
  have v1: "mo_success (moderate_content lib llm json_loads input)"
    using s l r a b c by (rule moderation_run_values(1))
  have v2: "mo_severity_score (moderate_content lib llm json_loads input) = Some (PyNum (3 / 10))"
    using s l r a b c by (rule moderation_run_values(2))
  show "mo_success (moderate_content lib llm json_loads input)" by (rule v1)
  show "\<not> mo_approved (moderate_content lib llm json_loads input)"
    unfolding moderation_success_iff[OF v1] v2 by (simp add: num_of_def)
qed

text \<open>
  Claim C2 on the input ``hello'': a reply with no flagged categories is rejected at
  severity 0.3 and approved at severity 0.29.
\<close>

theorem moderation_decision_rule_witness:
  "mo_success (moderate_content demo_lib (\<lambda>t. Returns (U ''reply''))
       (\<lambda>c. Some (PyDict [(''inappropriate_categories'', PyList []),
                            (''severity_score'', PyNum (3 / 10))])) (U ''hello''))
   \<and> \<not> mo_approved (moderate_content demo_lib (\<lambda>t. Returns (U ''reply''))
       (\<lambda>c. Some (PyDict [(''inappropriate_categories'', PyList []),
                            (''severity_score'', PyNum (3 / 10))])) (U ''hello''))
   \<and> mo_approved (moderate_content demo_lib (\<lambda>t. Returns (U ''reply''))
       (\<lambda>c. Some (PyDict [(''inappropriate_categories'', PyList []),
                            (''severity_score'', PyNum (29 / 100))])) (U ''hello''))"
proof -
  have s: "strip (U ''hello'') \<noteq> []" "length (strip (U ''hello'')) \<le> 10000"
    by (simp_all add: strip_def lstrip_def rstrip_def is_space_def U_def)
  let ?llm = "\<lambda>t::ustr. Returns (U ''reply'')"
  let ?d1 = "[(''inappropriate_categories'', PyList []), (''severity_score'', PyNum (3 / 10))]"
  let ?d2 = "[(''inappropriate_categories'', PyList []), (''severity_score'', PyNum (29 / 100))]"
  have v2: "mo_severity_score (moderate_content demo_lib ?llm (\<lambda>c. Some (PyDict ?d2)) (U ''hello''))
              = Some (PyNum (29 / 100))"
    "mo_flagged_categories (moderate_content demo_lib ?llm (\<lambda>c. Some (PyDict ?d2)) (U ''hello''))
              = PyList []"
    using moderation_run_values(2,3)[OF s, of ?llm "U ''reply''" "\<lambda>c. Some (PyDict ?d2)" ?d2
        "29 / 100" "[]" demo_lib]
    by (simp_all add: dict_get_def)
  from moderation_decision_rule[of demo_lib ?llm "\<lambda>c. Some (PyDict ?d1)" "U ''hello''" "U ''reply''" ?d1]
  have a: "mo_success (moderate_content demo_lib ?llm (\<lambda>c. Some (PyDict ?d1)) (U ''hello''))
      \<and> \<not> mo_approved (moderate_content demo_lib ?llm (\<lambda>c. Some (PyDict ?d1)) (U ''hello''))"
    using s by simp
  let ?out2 = "moderate_content demo_lib ?llm (\<lambda>c. Some (PyDict ?d2)) (U ''hello'')"
  have wt: "well_typed_reply (PyDict ?d2)" by (simp add: well_typed_reply_def)
  from moderation_decision_rule[of demo_lib ?llm "\<lambda>c. Some (PyDict ?d2)" "U ''hello''" "U ''reply''" ?d2]
  have succ: "mo_success ?out2"
    and iff: "mo_success ?out2 \<longrightarrow> mo_approved ?out2
      = (py_len (mo_flagged_categories ?out2) = Returns 0
         \<and> (\<exists>v x. mo_severity_score ?out2 = Some v \<and> num_of v = Some x \<and> x < 3 / 10))"
    using s wt by blast+
  have "mo_severity_score ?out2 = Some (PyNum (29 / 100))
        \<and> num_of (PyNum (29 / 100)) = Some (29 / 100) \<and> (29 / 100 :: real) < 3 / 10"
    using v2(1) by (simp add: num_of_def)
  then have ex: "\<exists>v x. mo_severity_score ?out2 = Some v \<and> num_of v = Some x \<and> x < 3 / 10"
    by blast
  have "py_len (mo_flagged_categories ?out2) = Returns 0"
    unfolding v2(2) by (simp add: py_len_def)
  with ex have rhs: "py_len (mo_flagged_categories ?out2) = Returns 0
         \<and> (\<exists>v x. mo_severity_score ?out2 = Some v \<and> num_of v = Some x \<and> x < 3 / 10)"
    by blast
  from succ iff rhs have b: "mo_approved ?out2" by blast
  from a b show ?thesis by blast
qed

section \<open>Properties of the language bridge\<close>

lemma U_en_nonempty [simp]: "U ''en'' \<noteq> []" "[] \<noteq> U ''en''"
  by (simp_all add: U_def)

lemma validate_fields:
  "as_detected_language_code (validate_input_node s) = as_detected_language_code s"
  "as_calls (validate_input_node s) = as_calls s"
  "as_input_text (validate_input_node s) = as_input_text s"
  "as_is_english (validate_input_node s) = as_is_english s"
  "as_translated_text (validate_input_node s) = as_translated_text s"
  by (simp_all add: validate_input_node_def Let_def)

lemma validate_okay_bridge:
  "strip (as_input_text s) \<noteq> [] \<Longrightarrow> length (strip (as_input_text s)) \<le> 30000 \<Longrightarrow>
   as_error (validate_input_node s) = None"
  by (simp add: validate_input_node_def Let_def)

lemma detect_changed_code:
  assumes "as_detected_language_code (detect_language_node lib client s) \<noteq> as_detected_language_code s"
  shows "\<not> has_error (as_error (detect_language_node lib client s))"
    and "as_input_text (detect_language_node lib client s) = as_input_text s"
    and "as_calls (detect_language_node lib client s)
         = as_calls s @ [DetectLanguage (as_input_text s), GetLanguages]"
  using assms
  by (auto simp: detect_language_node_def split: if_splits outcome.splits prod.splits)

lemma detect_okay:
  assumes "\<not> has_error (as_error s)"
    and "tc_detect_language client (as_input_text s) = Returns (code, confidence)"
    and "tc_get_languages client = Returns languages"
  shows "as_detected_language_code (detect_language_node lib client s) = code"
  using assms by (simp add: detect_language_node_def)

lemma check_english_yes:
  assumes "\<not> has_error (as_error s)" and "str_lower lib (as_detected_language_code s) = U ''en''"
  shows "check_english_node lib s
         = s\<lparr>as_is_english := True, as_step := ''english_check_complete'',
              as_translated_text := as_input_text s\<rparr>"
  using assms by (simp add: check_english_node_def Let_def)

lemma bridge_graph_english:
  assumes "\<not> has_error (as_error s)" and "as_is_english s"
  shows "(case routing_decision s of
           NeedsTranslation \<Rightarrow> finalize_output_node (translate_text_node lib client s)
         | AlreadyEnglish \<Rightarrow> finalize_output_node s
         | RouteError \<Rightarrow> finalize_output_node s) = s\<lparr>as_step := ''processing_complete''\<rparr>"
  using assms by (simp add: routing_decision_def finalize_output_node_def)

lemma bridge_graph_final_code:
  "as_detected_language_code (bridge_graph lib client s0)
   = as_detected_language_code (detect_language_node lib client (validate_input_node s0))"
  by (simp add: bridge_graph_def Let_def check_english_node_def routing_decision_def
      finalize_output_node_def translate_text_node_def
      split: route.splits outcome.splits)

lemma process_text_english:
  assumes lower: "str_lower lib (U ''en'') = U ''en''"
    and code: "pt_detected_language_code (fst (process_text lib client input)) = U ''en''"
  shows "bridge_graph lib client (bridge_initial_state input)
         = (detect_language_node lib client (validate_input_node (bridge_initial_state input)))
             \<lparr>as_is_english := True, as_step := ''english_check_complete'',
              as_translated_text := input, as_step := ''processing_complete''\<rparr>"
    and "\<not> has_error (as_error (detect_language_node lib client (validate_input_node (bridge_initial_state input))))"
    and "as_calls (detect_language_node lib client (validate_input_node (bridge_initial_state input)))
         = [DetectLanguage input, GetLanguages]"
proof -
  let ?s0 = "bridge_initial_state input"
  let ?s1 = "validate_input_node ?s0"
  let ?s2 = "detect_language_node lib client ?s1"
  have c2: "as_detected_language_code ?s2 = U ''en''"
    using code by (simp add: process_text_def Let_def bridge_graph_final_code)
  have c1: "as_detected_language_code ?s1 = []"
    by (simp add: validate_fields bridge_initial_state_def)
  have ne: "as_detected_language_code ?s2 \<noteq> as_detected_language_code ?s1"
    unfolding c2 c1 by simp
  note d = detect_changed_code[OF ne]
  have i1: "as_input_text ?s1 = input" by (simp add: validate_fields bridge_initial_state_def)
  have k1: "as_calls ?s1 = []" by (simp add: validate_fields bridge_initial_state_def)
  have i2: "as_input_text ?s2 = input" using d(2) i1 by simp
  show e2: "\<not> has_error (as_error ?s2)" by (rule d(1))
  show "as_calls ?s2 = [DetectLanguage input, GetLanguages]" using d(3) i1 k1 by simp
  have l2: "str_lower lib (as_detected_language_code ?s2) = U ''en''" unfolding c2 by (rule lower)
  have s3: "check_english_node lib ?s2
      = ?s2\<lparr>as_is_english := True, as_step := ''english_check_complete'',
           as_translated_text := input\<rparr>"
    using check_english_yes[OF e2 l2] i2 by simp
  let ?s3 = "?s2\<lparr>as_is_english := True, as_step := ''english_check_complete'',
           as_translated_text := input\<rparr>"
  have e3: "\<not> has_error (as_error ?s3)" using e2 by simp
  have en3: "as_is_english ?s3" by simp
  show "bridge_graph lib client ?s0
         = ?s2\<lparr>as_is_english := True, as_step := ''english_check_complete'',
              as_translated_text := input, as_step := ''processing_complete''\<rparr>"
    unfolding bridge_graph_def Let_def s3 bridge_graph_english[OF e3 en3] by simp
qed

text \<open>
  Claim C6 (English fast path).  Python's \<open>str.lower\<close> maps \<open>"en"\<close> to itself.  Whenever the
  detected language code of a \<open>process_text\<close> run is \<open>"en"\<close>, the run succeeds with
  \<open>is_english = True\<close> and \<open>translated_text\<close> equal to the input text, and the calls it made
  on the translation client are one \<open>detect_language\<close> and one \<open>get_languages\<close>: \<open>translate\<close>
  is never invoked.  The detected code is \<open>"en"\<close> whenever the input passes validation,
  \<open>detect_language\<close> answers \<open>"en"\<close> and \<open>get_languages\<close> answers.
\<close>

theorem english_fast_path:
  assumes "str_lower lib (U ''en'') = U ''en''"
  shows "(pt_detected_language_code (fst (process_text lib client input)) = U ''en'' \<longrightarrow>
            pt_is_english (fst (process_text lib client input))
          \<and> pt_translated_text (fst (process_text lib client input)) = input
          \<and> pt_success (fst (process_text lib client input))
          \<and> snd (process_text lib client input) = [DetectLanguage input, GetLanguages]
          \<and> \<not> (\<exists>c\<in>set (snd (process_text lib client input)). is_translate_call c))
       \<and> (strip input \<noteq> [] \<and> length (strip input) \<le> 30000
            \<and> tc_detect_language client input = Returns (U ''en'', confidence)
            \<and> tc_get_languages client = Returns languages \<longrightarrow>
          pt_detected_language_code (fst (process_text lib client input)) = U ''en'')"
proof (intro conjI impI)
  assume code: "pt_detected_language_code (fst (process_text lib client input)) = U ''en''"
  note p = process_text_english[OF assms code]
  show "pt_is_english (fst (process_text lib client input))"
    by (simp add: process_text_def Let_def p(1))
  show "pt_translated_text (fst (process_text lib client input)) = input"
    by (simp add: process_text_def Let_def p(1))
  show "pt_success (fst (process_text lib client input))"
    using p(2) by (simp add: process_text_def Let_def p(1))
  show calls: "snd (process_text lib client input) = [DetectLanguage input, GetLanguages]"
    using p(3) by (simp add: process_text_def Let_def p(1))
  show "\<not> (\<exists>c\<in>set (snd (process_text lib client input)). is_translate_call c)"
    unfolding calls by (simp add: is_translate_call_def)
next
  assume h: "strip input \<noteq> [] \<and> length (strip input) \<le> 30000
            \<and> tc_detect_language client input = Returns (U ''en'', confidence)
            \<and> tc_get_languages client = Returns languages"
  let ?s0 = "bridge_initial_state input"
  let ?s1 = "validate_input_node ?s0"
  have i0: "as_input_text ?s0 = input" by (simp add: bridge_initial_state_def)
  have "as_error ?s1 = None"
    using h by (intro validate_okay_bridge) (simp_all add: i0)
  then have e1: "\<not> has_error (as_error ?s1)" by simp
  have i1: "as_input_text ?s1 = input" by (simp add: validate_fields i0)
  have "as_detected_language_code (detect_language_node lib client ?s1) = U ''en''"
    using e1 h by (intro detect_okay[where confidence = confidence and languages = languages])
      (simp_all add: i1)
  then show "pt_detected_language_code (fst (process_text lib client input)) = U ''en''"
    by (simp add: process_text_def Let_def bridge_graph_final_code)
qed

text \<open>
  Claim C6 on ``Hello, how are you today?'' with a client whose \<open>translate\<close> would raise:
  the run succeeds without translating.
\<close>

theorem english_fast_path_witness:
  "pt_is_english (fst (process_text demo_lib
      \<lparr>tc_detect_language = (\<lambda>t. Returns (U ''en'', 99 / 100)),
       tc_get_languages = Returns [(U ''en'', U ''English'')],
       tc_translate = (\<lambda>t s g. Raises (ServiceError (U ''unavailable'')))\<rparr>
      (U ''Hello, how are you today?'')))
   \<and> pt_translated_text (fst (process_text demo_lib
      \<lparr>tc_detect_language = (\<lambda>t. Returns (U ''en'', 99 / 100)),
       tc_get_languages = Returns [(U ''en'', U ''English'')],
       tc_translate = (\<lambda>t s g. Raises (ServiceError (U ''unavailable'')))\<rparr>
      (U ''Hello, how are you today?''))) = U ''Hello, how are you today?''
   \<and> snd (process_text demo_lib
      \<lparr>tc_detect_language = (\<lambda>t. Returns (U ''en'', 99 / 100)),
       tc_get_languages = Returns [(U ''en'', U ''English'')],
       tc_translate = (\<lambda>t s g. Raises (ServiceError (U ''unavailable'')))\<rparr>
      (U ''Hello, how are you today?'')) = [DetectLanguage (U ''Hello, how are you today?''), GetLanguages]"
proof -
  have l: "str_lower demo_lib (U ''en'') = U ''en''"
    by (simp add: demo_lib_def ascii_lower_def U_def)
  have s: "strip (U ''Hello, how are you today?'') \<noteq> []"
    "length (strip (U ''Hello, how are you today?'')) \<le> 30000"
    by (simp_all add: strip_def lstrip_def rstrip_def is_space_def U_def)
  show ?thesis
    using s english_fast_path[OF l, of
      "\<lparr>tc_detect_language = (\<lambda>t. Returns (U ''en'', 99 / 100)),
       tc_get_languages = Returns [(U ''en'', U ''English'')],
       tc_translate = (\<lambda>t s g. Raises (ServiceError (U ''unavailable'')))\<rparr>"
      "U ''Hello, how are you today?''" "99 / 100" "[(U ''en'', U ''English'')]"]
    by simp
qed

section \<open>Properties of response cleaning\<close>










lemma remove_bold_plain:
  "42 \<notin> set p \<Longrightarrow> remove_bold_from 0 (p @ rest) = p @ remove_bold_from 0 rest"
  by (induction p) auto





lemma remove_bold_open_line:
  assumes "42 \<notin> set p" and "42 \<notin> set x"
  shows "remove_bold (p @ [42, 42] @ x @ [10] @ r) = p @ [42, 42] @ x @ [10] @ remove_bold r"
proof -
  have fc: "find_close (x @ 10 # r) = None" using assms(2)
  proof (induction x)
    case Nil
    then show ?case by (cases r) simp_all
  next
    case (Cons a x)
    then have ih: "find_close (x @ 10 # r) = None" by simp
    obtain b cs where bc: "x @ 10 # r = b # cs" by (cases "x @ 10 # r") auto
    from Cons.prems have "a \<noteq> 42" by auto
    then show ?case using ih by (simp add: bc)
  qed
  have hd: "take 1 (x @ 10 # r) \<noteq> [42]" using assms(2) by (cases x) auto
  have "remove_bold_from 0 (42 # 42 # x @ 10 # r) = 42 # remove_bold_from 0 (42 # x @ 10 # r)"
    using fc by simp
  also have "remove_bold_from 0 (42 # x @ 10 # r) = 42 # remove_bold_from 0 (x @ 10 # r)"
    using hd by simp
  also have "remove_bold_from 0 (x @ 10 # r) = x @ remove_bold_from 0 (10 # r)"
    using assms(2) by (rule remove_bold_plain)
  also have "remove_bold_from 0 (10 # r) = 10 # remove_bold_from 0 r" by simp
  finally have "remove_bold_from 0 (42 # 42 # x @ 10 # r) = 42 # 42 # x @ 10 # remove_bold_from 0 r" .
  then show ?thesis
    using remove_bold_plain[OF assms(1), of "[42, 42] @ x @ [10] @ r"]
    by (simp add: remove_bold_def)
qed





lemma strip_Nil [simp]: "strip [] = []"
  by (simp add: strip_def lstrip_def rstrip_def)









section \<open>Properties of the chat endpoint\<close>

text \<open>
  Claim C8 (empty-input rejection).  For every request whose message is empty or only
  whitespace and that carries no document, the endpoint returns \<open>success = False\<close>, the
  error ``Empty input'' and \<open>final_approved = False\<close>; it calls no collaborator and leaves the
  cache as it was.
\<close>

theorem empty_input_rejected:
  assumes "strip (cm_message request) = []" and "\<not> pdf_present request"
  shows "chat_endpoint lib env clock bc request = (empty_input_response env request, bc, [])
       \<and> \<not> cr_success (fst (chat_endpoint lib env clock bc request))
       \<and> cr_error (fst (chat_endpoint lib env clock bc request)) = Some (U ''Empty input'')
       \<and> \<not> cr_final_approved (fst (chat_endpoint lib env clock bc request))
       \<and> snd (snd (chat_endpoint lib env clock bc request)) = []
       \<and> fst (snd (chat_endpoint lib env clock bc request)) = bc"
  using assms
  by (simp add: chat_endpoint_def empty_input_response_def err_empty_input_def)

text \<open>Claim C8 on a message of three spaces, with every service down.\<close>

theorem empty_input_rejected_witness:
  "chat_endpoint demo_lib down_env demo_clock (init_cache 200 3600)
       \<lparr>cm_message = U ''   '', cm_pdf_file = None\<rparr>
   = (\<lparr>cr_success = False, cr_user_message = U ''   '',
       cr_bot_response = U ''Please enter a message or upload a PDF file for me to process.'',
       cr_translation_info = PyNone, cr_moderation_info = PyNone, cr_grading_result = PyNone,
       cr_explanation_result = PyNone, cr_final_approved = False,
       cr_timestamp = U ''2025-01-01T00:00:00'', cr_error = Some (U ''Empty input'')\<rparr>,
      init_cache 200 3600, [])"
proof -
  have "strip (cm_message \<lparr>cm_message = U ''   '', cm_pdf_file = None\<rparr>) = []"
    by (simp add: strip_def lstrip_def rstrip_def is_space_def U_def)
  moreover have "\<not> pdf_present \<lparr>cm_message = U ''   '', cm_pdf_file = None\<rparr>"
    by (simp add: pdf_present_def)
  ultimately show ?thesis
    using empty_input_rejected[of "\<lparr>cm_message = U ''   '', cm_pdf_file = None\<rparr>"
        demo_lib down_env demo_clock "init_cache 200 3600"]
    by (simp add: empty_input_response_def msg_empty_input_def err_empty_input_def down_env_def)
qed

lemma process_message_failure:
  assumes "message_present request"
    and "env_process_with_moderation env (cm_message request) = Returns result"
    and "\<not> pwm_success result"
  shows "process_message env request initial_locals
         = (Returns (initial_locals\<lparr>lc_bot_response_parts := [msg_issue],
                                   lc_should_grade_pdf := False\<rparr>),
            [ProcessWithModeration (cm_message request)])"
  using assms by (simp add: process_message_def initial_locals_def)

lemma process_pdf_not_graded:
  assumes "message_present request" and "\<not> lc_should_grade_pdf lc"
  shows "process_pdf env request lc
         = (if pdf_present request
            then lc\<lparr>lc_bot_response_parts := lc_bot_response_parts lc @ [msg_pdf_seen]\<rparr>
            else lc, [])"
  using assms by (simp add: process_pdf_def)

lemma back_translate_none:
  "lc_translation_info lc = PyNone \<Longrightarrow> back_translate env lc text = (text, [])"
  by (simp add: back_translate_def)

lemma chat_pipeline_failure:
  assumes "message_present request"
    and "env_process_with_moderation env (cm_message request) = Returns result"
    and "\<not> pwm_success result"
  shows "chat_pipeline lib env clock bc request
         = (Returns
              \<lparr>cr_success = True, cr_user_message = cm_message request,
               cr_bot_response = (if pdf_present request then msg_issue @ [10, 10] @ msg_pdf_seen
                                  else msg_issue),
               cr_translation_info = PyNone, cr_moderation_info = PyNone,
               cr_grading_result = PyNone, cr_explanation_result = PyNone,
               cr_final_approved = True, cr_timestamp = env_timestamp env, cr_error = None\<rparr>,
            (if pdf_present request then bc
             else snd (put lib (ck_put1 clock) (ck_put2 clock) bc (cm_message request)
                    [(''success'', PyBool True), (''bot_response'', PyStr msg_issue),
                     (''translation_info'', PyNone), (''explanation_result'', PyNone),
                     (''final_approved'', PyBool True)] False None)),
            [ProcessWithModeration (cm_message request)])"
proof -
  let ?lc1 = "initial_locals\<lparr>lc_bot_response_parts := [msg_issue], lc_should_grade_pdf := False\<rparr>"
  have mp: "cm_message request \<noteq> []" "strip (cm_message request) \<noteq> []"
    using assms(1) by (simp_all add: message_present_def)
  have p1: "process_message env request initial_locals
            = (Returns ?lc1, [ProcessWithModeration (cm_message request)])"
    using assms by (rule process_message_failure)
  have sg: "\<not> lc_should_grade_pdf ?lc1" by simp
  note p2 = process_pdf_not_graded[OF assms(1) sg, of env]
  show ?thesis
  proof (cases "pdf_present request")
    case True
    let ?lc2 = "?lc1\<lparr>lc_bot_response_parts := lc_bot_response_parts ?lc1 @ [msg_pdf_seen]\<rparr>"
    have q: "process_pdf env request ?lc1 = (?lc2, [])" using p2 True by simp
    have ti: "lc_translation_info ?lc2 = PyNone" by (simp add: initial_locals_def)
    have c: "compose_response (lc_bot_response_parts ?lc2) = msg_issue @ [10, 10] @ msg_pdf_seen"
      by (simp add: compose_response_def initial_locals_def)
    show ?thesis
      unfolding chat_pipeline_def p1 prod.case outcome.case q c back_translate_none[OF ti]
      using True mp by (simp add: initial_locals_def)
  next
    case False
    have q: "process_pdf env request ?lc1 = (?lc1, [])" using p2 False by simp
    have ti: "lc_translation_info ?lc1 = PyNone" by (simp add: initial_locals_def)
    have c: "compose_response (lc_bot_response_parts ?lc1) = msg_issue"
      by (simp add: compose_response_def initial_locals_def)
    show ?thesis
      unfolding chat_pipeline_def p1 prod.case outcome.case q c back_translate_none[OF ti]
      using False mp by (simp add: initial_locals_def)
  qed
qed

lemma detect_down:
  "\<not> has_error (as_error s) \<Longrightarrow> has_error (as_error (detect_language_node lib down_client s))"
  by (simp add: detect_language_node_def down_client_def)

lemma bridge_graph_error:
  assumes "has_error (as_error s)"
  shows "has_error (as_error (case routing_decision (check_english_node lib s) of
           NeedsTranslation \<Rightarrow> finalize_output_node (translate_text_node lib client (check_english_node lib s))
         | AlreadyEnglish \<Rightarrow> finalize_output_node (check_english_node lib s)
         | RouteError \<Rightarrow> finalize_output_node (check_english_node lib s)))"
  using assms by (simp add: check_english_node_def routing_decision_def finalize_output_node_def)

lemma process_text_down: "\<not> pt_success (fst (process_text lib down_client m))"
proof -
  let ?s1 = "validate_input_node (bridge_initial_state m)"
  let ?s2 = "detect_language_node lib down_client ?s1"
  have "has_error (as_error ?s2)"
  proof (cases "has_error (as_error ?s1)")
    case True
    then show ?thesis by (simp add: detect_language_node_def)
  next
    case False
    then show ?thesis by (rule detect_down)
  qed
  from bridge_graph_error[OF this, where lib = lib and client = down_client]
  show ?thesis by (simp add: process_text_def bridge_graph_def Let_def)
qed

lemma down_env_pwm: "env_process_with_moderation down_env m = Returns pwm_failure"
  using process_text_down[of demo_lib m]
  by (simp add: down_env_def process_with_moderation_def Let_def)

text \<open>
  Claim C1 (failure of the translation and moderation stage), as the code behaves.  For a
  request with a non-empty message that is not answered from the cache and whose
  \<open>process_with_moderation\<close> result has \<open>success = False\<close>, the endpoint composes the generic
  ``encountered an issue'' part, makes no grading (or any further collaborator) call, and
  returns \<open>success = True\<close> with \<open>final_approved = True\<close>, the initial value of the variable,
  which the failure branch never changes.  Without a PDF the failure reply is then stored in
  the cache as an approved response.
\<close>

theorem stage_failure_final_approved:
  assumes "message_present request"
    and "env_process_with_moderation env (cm_message request) = Returns result"
    and "\<not> pwm_success result"
    and "pdf_present request \<or> fst (get lib (ck_get clock) bc (cm_message request) False) = Returns None"
  shows "cr_bot_response (fst (chat_endpoint lib env clock bc request))
           = (if pdf_present request then msg_issue @ [10, 10] @ msg_pdf_seen else msg_issue)
       \<and> snd (snd (chat_endpoint lib env clock bc request))
           = [ProcessWithModeration (cm_message request)]
       \<and> cr_success (fst (chat_endpoint lib env clock bc request))
       \<and> cr_final_approved (fst (chat_endpoint lib env clock bc request))
       \<and> (\<not> pdf_present request \<longrightarrow>
            fst (snd (chat_endpoint lib env clock bc request))
            = snd (put lib (ck_put1 clock) (ck_put2 clock)
                     (snd (get lib (ck_get clock) bc (cm_message request) False))
                     (cm_message request)
                     [(''success'', PyBool True), (''bot_response'', PyStr msg_issue),
                      (''translation_info'', PyNone), (''explanation_result'', PyNone),
                      (''final_approved'', PyBool True)] False None))"
proof -
  have mp: "cm_message request \<noteq> []" "strip (cm_message request) \<noteq> []"
    using assms(1) by (simp_all add: message_present_def)
  have cond: "\<not> ((cm_message request = [] \<or> strip (cm_message request) = [])
                  \<and> \<not> pdf_present request)"
    using mp by simp
  let ?data = "[(''success'', PyBool True), (''bot_response'', PyStr msg_issue),
                (''translation_info'', PyNone), (''explanation_result'', PyNone),
                (''final_approved'', PyBool True)]"
  let ?resp = "\<lambda>text. \<lparr>cr_success = True, cr_user_message = cm_message request,
               cr_bot_response = text,
               cr_translation_info = PyNone, cr_moderation_info = PyNone,
               cr_grading_result = PyNone, cr_explanation_result = PyNone,
               cr_final_approved = True, cr_timestamp = env_timestamp env, cr_error = None\<rparr>"
  show ?thesis
  proof (cases "pdf_present request")
    case True
    then have b: "chat_body lib env clock bc request = chat_pipeline lib env clock bc request"
      by (simp add: chat_body_def)
    have p: "chat_pipeline lib env clock bc request
        = (Returns (?resp (msg_issue @ [10, 10] @ msg_pdf_seen)), bc,
           [ProcessWithModeration (cm_message request)])"
      unfolding chat_pipeline_failure[OF assms(1,2,3)] using True by (simp only: if_True)
    have e: "chat_endpoint lib env clock bc request
        = (?resp (msg_issue @ [10, 10] @ msg_pdf_seen), bc,
           [ProcessWithModeration (cm_message request)])"
      unfolding chat_endpoint_def b p using cond by (simp only: if_False prod.case outcome.case)
    show ?thesis unfolding e using True by simp
  next
    case False
    with assms(4) have g: "fst (get lib (ck_get clock) bc (cm_message request) False) = Returns None"
      by simp
    obtain bc1 where g': "get lib (ck_get clock) bc (cm_message request) False = (Returns None, bc1)"
      using g by (metis prod.collapse)
    then have s1: "snd (get lib (ck_get clock) bc (cm_message request) False) = bc1" by simp
    have c2: "strip (cm_message request) \<noteq> [] \<and> \<not> pdf_present request" using False mp by simp
    have b: "chat_body lib env clock bc request = chat_pipeline lib env clock bc1 request"
      unfolding chat_body_def g' using c2 by simp
    have p: "chat_pipeline lib env clock bc1 request
        = (Returns (?resp msg_issue),
           snd (put lib (ck_put1 clock) (ck_put2 clock) bc1 (cm_message request) ?data False None),
           [ProcessWithModeration (cm_message request)])"
      unfolding chat_pipeline_failure[OF assms(1,2,3)] using False by (simp only: if_False)
    have e: "chat_endpoint lib env clock bc request
        = (?resp msg_issue,
           snd (put lib (ck_put1 clock) (ck_put2 clock) bc1 (cm_message request) ?data False None),
           [ProcessWithModeration (cm_message request)])"
      unfolding chat_endpoint_def b p using cond by (simp only: if_False prod.case outcome.case)
    show ?thesis unfolding e s1 using False by simp
  qed
qed

text \<open>
  Claim C1 with every service down, on the message ``hello'' and the empty default cache:
  the reply is the ``encountered an issue'' text with \<open>final_approved = True\<close>, and the same
  request sent again is answered from the cache with that failure text, without calling
  \<open>process_with_moderation\<close> again.
\<close>

theorem stage_failure_final_approved_witness:
  "cr_final_approved (fst (chat_endpoint demo_lib down_env demo_clock (init_cache 200 3600)
        \<lparr>cm_message = U ''hello'', cm_pdf_file = None\<rparr>))
   \<and> cr_bot_response (fst (chat_endpoint demo_lib down_env demo_clock (init_cache 200 3600)
        \<lparr>cm_message = U ''hello'', cm_pdf_file = None\<rparr>)) = msg_issue
   \<and> snd (snd (chat_endpoint demo_lib down_env demo_clock (init_cache 200 3600)
        \<lparr>cm_message = U ''hello'', cm_pdf_file = None\<rparr>)) = [ProcessWithModeration (U ''hello'')]
   \<and> cr_bot_response (fst (chat_endpoint demo_lib down_env demo_clock
        (fst (snd (chat_endpoint demo_lib down_env demo_clock (init_cache 200 3600)
           \<lparr>cm_message = U ''hello'', cm_pdf_file = None\<rparr>)))
        \<lparr>cm_message = U ''hello'', cm_pdf_file = None\<rparr>)) = cached_response_prefix @ msg_issue
   \<and> snd (snd (chat_endpoint demo_lib down_env demo_clock
        (fst (snd (chat_endpoint demo_lib down_env demo_clock (init_cache 200 3600)
           \<lparr>cm_message = U ''hello'', cm_pdf_file = None\<rparr>)))
        \<lparr>cm_message = U ''hello'', cm_pdf_file = None\<rparr>)) = []"
proof -
  let ?req = "\<lparr>cm_message = U ''hello'', cm_pdf_file = None\<rparr>"
  let ?bc0 = "init_cache 200 3600"
  let ?data = "[(''success'', PyBool True), (''bot_response'', PyStr msg_issue),
                (''translation_info'', PyNone), (''explanation_result'', PyNone),
                (''final_approved'', PyBool True)]"
  have st: "strip (U ''hello'') = U ''hello''"
    by (simp add: strip_def lstrip_def rstrip_def is_space_def U_def)
  have ne: "U ''hello'' \<noteq> []" by (simp add: U_def)
  have mp: "message_present ?req" by (simp add: message_present_def st ne)
  have np: "\<not> pdf_present ?req" by (simp add: pdf_present_def)
  have pw: "env_process_with_moderation down_env (cm_message ?req) = Returns pwm_failure"
    by (rule down_env_pwm)
  have nf: "\<not> pwm_success pwm_failure" by (simp add: pwm_failure_def)
  have gk: "generate_key demo_lib (U ''hello'') False = Returns (U ''hello|pdf:False'')"
    by (simp add: generate_key_def str_encode_def utf8_bytes_def normalize_key_def strip_def
        lstrip_def rstrip_def is_space_def U_def demo_lib_def ascii_lower_def)
  have g0: "get demo_lib (ck_get demo_clock) ?bc0 (cm_message ?req) False = (Returns None, ?bc0)"
    using get_miss[OF gk, of ?bc0 "ck_get demo_clock"] by (simp add: init_cache_def)
  then have miss: "pdf_present ?req
      \<or> fst (get demo_lib (ck_get demo_clock) ?bc0 (cm_message ?req) False) = Returns None"
    by simp
  note t = stage_failure_final_approved[OF mp pw nf miss]
  let ?bc1 = "snd (put demo_lib 0 0 ?bc0 (U ''hello'') ?data False None)"
  have c1: "fst (snd (chat_endpoint demo_lib down_env demo_clock ?bc0 ?req)) = ?bc1"
    using t np g0 by (simp add: demo_clock_def)
  have inv: "distinct (map fst (cache ?bc0))" "int (length (cache ?bc0)) \<le> max_entries ?bc0"
    "1 \<le> max_entries ?bc0" "\<forall>p\<in>set (cache ?bc0). timestamp (snd p) \<le> 0"
    "\<not> expired 0 (put_entry (default_ttl ?bc0) 0 (U ''hello'') ?data None)"
    by (simp_all add: init_cache_def expired_def put_entry_def cache_ttl_of_def)
  have m: "map_of (cache ?bc1) (U ''hello|pdf:False'')
           = Some (put_entry (default_ttl ?bc0) 0 (U ''hello'') ?data None)"
    using inv gk by (rule put_keeps_new)
  have g1: "get demo_lib 0 ?bc1 (U ''hello'') False
            = (Returns (Some (cached_response_of ?data)), ?bc1)"
    using get_hit[OF gk m inv(5)] by (simp add: put_entry_def)
  have cr: "cached_response_of ?data
      = [(''bot_response'', PyStr msg_issue), (''translation_info'', PyNone),
         (''explanation_result'', PyNone), (''final_approved'', PyBool True),
         (''success'', PyBool True)]"
    by (simp add: cached_response_of_def dict_get_def)
  have body2: "chat_body demo_lib down_env demo_clock ?bc1 ?req
      = (cache_hit_response demo_lib down_env (U ''hello'') (cached_response_of ?data), ?bc1, [])"
    unfolding chat_body_def using np
    by (simp add: st ne demo_clock_def g1) (simp add: cr)
  have hit: "cache_hit_response demo_lib down_env (U ''hello'') (cached_response_of ?data)
      = Returns \<lparr>cr_success = True, cr_user_message = U ''hello'',
                 cr_bot_response = cached_response_prefix @ msg_issue,
                 cr_translation_info = PyNone, cr_moderation_info = PyNone,
                 cr_grading_result = PyNone, cr_explanation_result = PyNone,
                 cr_final_approved = True, cr_timestamp = env_timestamp down_env,
                 cr_error = None\<rparr>"
    unfolding cr
    by (simp add: cache_hit_response_def dict_get_def pyd_bool_def pyd_opt_dict_def py_format_def)
  have cond: "\<not> ((cm_message ?req = [] \<or> strip (cm_message ?req) = []) \<and> \<not> pdf_present ?req)"
    by (simp add: st ne)
  have e2: "chat_endpoint demo_lib down_env demo_clock ?bc1 ?req
      = (\<lparr>cr_success = True, cr_user_message = U ''hello'',
                 cr_bot_response = cached_response_prefix @ msg_issue,
                 cr_translation_info = PyNone, cr_moderation_info = PyNone,
                 cr_grading_result = PyNone, cr_explanation_result = PyNone,
                 cr_final_approved = True, cr_timestamp = env_timestamp down_env,
                 cr_error = None\<rparr>, ?bc1, [])"
    unfolding chat_endpoint_def body2 hit using cond
    by (simp only: if_False prod.case outcome.case)
  show ?thesis
    unfolding c1 e2 using t np by simp
qed

end
